(* ===== verification/Go_Prelude.thy ===== *)
theory Go_Prelude
  imports Main "HOL-Library.Sublist"
begin

section \<open>Go effects: errors, panics and state passing\<close>

text \<open>
  The vocabulary every component shares. A Go function that returns \<open>(T, error)\<close> and reads or
  changes state is a function \<open>'w \<Rightarrow> 'a res \<times> 'w\<close>: \<open>Ok\<close> is a nil error, \<open>Fail\<close> a
  non-nil error, \<open>Panicked\<close> a run-time panic (a nil dereference), which no error check of the
  source catches. A pure fallible function returns \<open>err + 'a\<close>.

  An error keeps what \<open>errors.As\<close> can see of it: the SDK's typed HTTP errors, the errors of the
  \<open>wait\<close> package and the context, and the \<open>fmt.Errorf\<close> wrappers, with the format string
  and its arguments unrendered. \<open>Wrapf\<close> is an \<open>Errorf\<close> with the verb \<open>%w\<close>.
\<close>

datatype err =
    Http nat \<comment> \<open>\<open>golangsdk.ErrDefault400\<close>, \<open>404\<close>, \<open>409\<close>, ...\<close>
  | ResourceNotFound \<comment> \<open>\<open>golangsdk.ErrResourceNotFound\<close>\<close>
  | WaitTimeout \<comment> \<open>the \<open>wait\<close> package's own error when the attempts are used up\<close>
  | CtxDone \<comment> \<open>\<open>ctx.Err()\<close>\<close>
  | Other string \<comment> \<open>any other error of a library\<close>
  | Errorf string "string list"
  | Wrapf string "string list" err

datatype 'a res = Ok 'a | Fail err | Panicked string

type_synonym ('w, 'a) go = "'w \<Rightarrow> 'a res \<times> 'w"

named_theorems go_defs "the definitions of the monad's operations"

definition returnG :: "'a \<Rightarrow> ('w, 'a) go" where
  [go_defs]: "returnG x = (\<lambda>w. (Ok x, w))"

definition failG :: "err \<Rightarrow> ('w, 'a) go" where
  [go_defs]: "failG e = (\<lambda>w. (Fail e, w))"

definition panicG :: "string \<Rightarrow> ('w, 'a) go" where
  [go_defs]: "panicG s = (\<lambda>w. (Panicked s, w))"

definition bindG :: "('w, 'a) go \<Rightarrow> ('a \<Rightarrow> ('w, 'b) go) \<Rightarrow> ('w, 'b) go" where
  [go_defs]: "bindG m f = (\<lambda>w. case m w of
     (Ok x, w') \<Rightarrow> f x w'
   | (Fail e, w') \<Rightarrow> (Fail e, w')
   | (Panicked s, w') \<Rightarrow> (Panicked s, w'))"

text \<open>\<open>if err := m; err != nil { h err }\<close>: the handler sees errors, never panics.\<close>

definition catchG :: "('w, 'a) go \<Rightarrow> (err \<Rightarrow> ('w, 'a) go) \<Rightarrow> ('w, 'a) go" where
  [go_defs]: "catchG m h = (\<lambda>w. case m w of
     (Ok x, w') \<Rightarrow> (Ok x, w')
   | (Fail e, w') \<Rightarrow> h e w'
   | (Panicked s, w') \<Rightarrow> (Panicked s, w'))"

text \<open>\<open>if err != nil { return fmt.Errorf("...: %w", args, err) }\<close>\<close>

definition wrapG :: "string \<Rightarrow> string list \<Rightarrow> ('w, 'a) go \<Rightarrow> ('w, 'a) go" where
  "wrapG fmt args m = catchG m (\<lambda>e. failG (Wrapf fmt args e))"

text \<open>A pure fallible computation, and the conversion from Go's nil-able pointer.\<close>

definition liftG :: "err + 'a \<Rightarrow> ('w, 'a) go" where
  [go_defs]: "liftG r = (\<lambda>w. (case r of Inl e \<Rightarrow> Fail e | Inr x \<Rightarrow> Ok x, w))"

definition derefG :: "'a option \<Rightarrow> ('w, 'a) go" where
  [go_defs]: "derefG p = (case p of None \<Rightarrow> panicG ''nil pointer dereference'' | Some x \<Rightarrow> returnG x)"

definition getG :: "('w \<Rightarrow> 'a) \<Rightarrow> ('w, 'a) go" where
  [go_defs]: "getG f = (\<lambda>w. (Ok (f w), w))"

definition modifyG :: "('w \<Rightarrow> 'w) \<Rightarrow> ('w, unit) go" where
  [go_defs]: "modifyG f = (\<lambda>w. (Ok (), f w))"

text \<open>\<open>for _, x := range xs { if err := f(x); err != nil { return err } }\<close>\<close>

fun eachG :: "('a \<Rightarrow> ('w, unit) go) \<Rightarrow> 'a list \<Rightarrow> ('w, unit) go" where
  "eachG f [] = returnG ()"
| "eachG f (x # xs) = bindG (f x) (\<lambda>_. eachG f xs)"

subsection \<open>Monad laws and evaluation rules\<close>

lemma bindG_return [simp]: "bindG (returnG x) f = f x"
  by (simp add: go_defs)

lemma bindG_fail [simp]: "bindG (failG e) f = failG e"
  by (simp add: go_defs)

lemma bindG_panic [simp]: "bindG (panicG s) f = panicG s"
  by (simp add: go_defs)

lemma bindG_assoc: "bindG (bindG m f) g = bindG m (\<lambda>x. bindG (f x) g)"
  by (auto simp: go_defs fun_eq_iff split: prod.splits res.splits)

lemma bindG_unit [simp]: "bindG m returnG = m"
  by (auto simp: go_defs fun_eq_iff split: prod.splits res.splits)

lemma bindG_Ok: "m w = (Ok x, w') \<Longrightarrow> bindG m f w = f x w'"
  by (simp add: go_defs)

lemma bindG_Fail: "m w = (Fail e, w') \<Longrightarrow> bindG m f w = (Fail e, w')"
  by (simp add: go_defs)

lemma bindG_Panicked: "m w = (Panicked s, w') \<Longrightarrow> bindG m f w = (Panicked s, w')"
  by (simp add: go_defs)

lemma catchG_Ok: "m w = (Ok x, w') \<Longrightarrow> catchG m h w = (Ok x, w')"
  by (simp add: go_defs)

lemma catchG_Fail: "m w = (Fail e, w') \<Longrightarrow> catchG m h w = h e w'"
  by (simp add: go_defs)

lemma returnG_run [simp]: "returnG x w = (r, w') \<longleftrightarrow> r = Ok x \<and> w' = w"
  by (auto simp: go_defs)

lemma failG_run [simp]: "failG e w = (r, w') \<longleftrightarrow> r = Fail e \<and> w' = w"
  by (auto simp: go_defs)

lemma panicG_run [simp]: "panicG s w = (r, w') \<longleftrightarrow> r = Panicked s \<and> w' = w"
  by (auto simp: go_defs)

lemma getG_eq [simp]: "getG f w = (Ok (f w), w)"
  by (simp add: go_defs)

lemma modifyG_eq [simp]: "modifyG f w = (Ok (), f w)"
  by (simp add: go_defs)

lemma liftG_simps [simp]: "liftG (Inl e) = failG e" "liftG (Inr x) = returnG x"
  by (simp_all add: go_defs)

lemma derefG_simps [simp]:
  "derefG None = panicG ''nil pointer dereference''" "derefG (Some x) = returnG x"
  by (simp_all add: derefG_def)

text \<open>Inversion of a run that returned normally.\<close>

lemma bindG_OkE:
  assumes "bindG m f w = (Ok y, w'')"
  obtains x w' where "m w = (Ok x, w')" and "f x w' = (Ok y, w'')"
  using assms by (auto simp: bindG_def split: prod.splits res.splits)

lemma bindG_cases:
  assumes "bindG m f w = (r, w'')"
  obtains (ok) x w' where "m w = (Ok x, w')" and "f x w' = (r, w'')"
    | (fail) e where "m w = (Fail e, w'')" and "r = Fail e"
    | (panic) s where "m w = (Panicked s, w'')" and "r = Panicked s"
  using assms by (auto simp: bindG_def split: prod.splits res.splits)

lemma wrapG_OkE: "wrapG fmt args m w = (Ok y, w') \<Longrightarrow> m w = (Ok y, w')"
  by (auto simp: wrapG_def catchG_def split: prod.splits res.splits)

lemma wrapG_Ok: "m w = (Ok y, w') \<Longrightarrow> wrapG fmt args m w = (Ok y, w')"
  by (simp add: wrapG_def catchG_def)

lemma wrapG_Fail: "m w = (Fail e, w') \<Longrightarrow> wrapG fmt args m w = (Fail (Wrapf fmt args e), w')"
  by (simp add: wrapG_def catchG_def)

lemma wrapG_Panicked: "m w = (Panicked s, w') \<Longrightarrow> wrapG fmt args m w = (Panicked s, w')"
  by (simp add: wrapG_def catchG_def)

lemmas go_runs =
  bindG_Ok bindG_Fail bindG_Panicked catchG_Ok catchG_Fail wrapG_Ok wrapG_Fail wrapG_Panicked

subsection \<open>Evaluating a run\<close>

text \<open>
  \<open>run\<close> holds the equations that evaluate an operation on a concrete world: each operation at full
  arity, so that the simplifier unfolds it only when it is applied to its world.
\<close>

named_theorems run "evaluation of an operation on a concrete world"

lemma run_monad [run]:
  "bindG m f w = (case m w of
     (Ok x, w') \<Rightarrow> f x w' | (Fail e, w') \<Rightarrow> (Fail e, w') | (Panicked s, w') \<Rightarrow> (Panicked s, w'))"
  "catchG n h w = (case n w of
     (Ok x, w') \<Rightarrow> (Ok x, w') | (Fail e, w') \<Rightarrow> h e w' | (Panicked s, w') \<Rightarrow> (Panicked s, w'))"
  "wrapG fmt args n w = catchG n (\<lambda>e. failG (Wrapf fmt args e)) w"
  "returnG y w = (Ok y, w)" "failG e w = (Fail e, w)" "panicG s w = (Panicked s, w)"
  "eachG g [] w = (Ok (), w)" "eachG g (a # as) w = bindG (g a) (\<lambda>_. eachG g as) w"
  by (simp_all add: bindG_def catchG_def wrapG_def)

subsection \<open>Triples\<close>

text \<open>
  \<open>triple P m Q\<close>: from a state with \<open>P\<close>, the run of \<open>m\<close> ends with \<open>Q\<close>
  of its result (error and panic included) and its final state. The monad is deterministic and total,
  so the triple is one of total correctness.
\<close>

definition triple :: "('w \<Rightarrow> bool) \<Rightarrow> ('w, 'a) go \<Rightarrow> ('a res \<Rightarrow> 'w \<Rightarrow> bool) \<Rightarrow> bool" where
  "triple P m Q \<longleftrightarrow> (\<forall>w r w'. P w \<longrightarrow> m w = (r, w') \<longrightarrow> Q r w')"

lemma tripleI: "(\<And>w r w'. P w \<Longrightarrow> m w = (r, w') \<Longrightarrow> Q r w') \<Longrightarrow> triple P m Q"
  by (simp add: triple_def)

lemma tripleD: "triple P m Q \<Longrightarrow> P w \<Longrightarrow> m w = (r, w') \<Longrightarrow> Q r w'"
  by (simp add: triple_def)

lemma triple_bind:
  assumes "triple P m Q"
    and "\<And>x. triple (Q (Ok x)) (f x) R"
    and "\<And>e w. Q (Fail e) w \<Longrightarrow> R (Fail e) w"
    and "\<And>s w. Q (Panicked s) w \<Longrightarrow> R (Panicked s) w"
  shows "triple P (bindG m f) R"
proof (rule tripleI)
  fix w r w'
  assume P: "P w" and run: "bindG m f w = (r, w')"
  from run show "R r w'"
  proof (cases rule: bindG_cases)
    case (ok x w1)
    with assms(1,2) P show ?thesis by (blast dest: tripleD)
  qed (use assms P in \<open>blast dest: tripleD\<close>)+
qed

lemma triple_each:
  assumes "\<And>x. x \<in> set xs \<Longrightarrow> triple I (f x) (\<lambda>_. I)"
  shows "triple I (eachG f xs) (\<lambda>_. I)"
  using assms
proof (induction xs)
  case Nil
  then show ?case by (simp add: triple_def)
next
  case (Cons x xs)
  have "triple I (f x) (\<lambda>_. I)" and "triple I (eachG f xs) (\<lambda>_. I)"
    using Cons by simp_all
  then show ?case by (auto intro: triple_bind)
qed

end
