(* ===== verification/Go_Strings.thy ===== *)
theory Go_Strings
  imports Go_Prelude "HOL-Library.Char_ord"
begin

section \<open>The strings, strconv and fmt functions the source uses\<close>

text \<open>
  Go strings are byte strings, as HOL's \<open>string\<close> is. \<open>strings.TrimSpace\<close> and
  \<open>strings.ToUpper\<close> are modelled on ASCII text: a byte of 128 or more is neither white space nor
  a letter. \<open>fmt\<close>'s \<open>%d\<close> is \<open>dec_int\<close>.
\<close>

subsection \<open>Decimal numbers\<close>

definition digit_char :: "nat \<Rightarrow> char" where
  "digit_char n = ''0123456789'' ! n"

fun dec_nat :: "nat \<Rightarrow> string" where
  "dec_nat n = (if n < 10 then [digit_char n] else dec_nat (n div 10) @ [digit_char (n mod 10)])"

declare dec_nat.simps [simp del]

definition dec_int :: "int \<Rightarrow> string" where
  "dec_int i = (if i < 0 then CHR ''-'' # dec_nat (nat (- i)) else dec_nat (nat i))"

definition is_digit :: "char \<Rightarrow> bool" where
  "is_digit c \<longleftrightarrow> c \<in> set ''0123456789''"

definition digit_val :: "char \<Rightarrow> nat" where
  "digit_val c = of_char c - 48"

definition undec :: "string \<Rightarrow> nat" where
  "undec = foldl (\<lambda>a c. 10 * a + digit_val c) 0"

lemma less_ten_cases:
  "(n::nat) < 10 \<Longrightarrow> n = 0 \<or> n = 1 \<or> n = 2 \<or> n = 3 \<or> n = 4 \<or> n = 5 \<or> n = 6 \<or> n = 7 \<or> n = 8 \<or> n = 9"
  by arith

lemma digit_char_props:
  assumes "n < 10"
  shows "is_digit (digit_char n)" "digit_val (digit_char n) = n"
  using less_ten_cases [OF assms] by (auto simp: digit_char_def is_digit_def digit_val_def)

lemma digits_dec_nat: "\<forall>c \<in> set (dec_nat n). is_digit c"
proof (induction n rule: dec_nat.induct)
  case (1 n)
  then show ?case
    by (subst dec_nat.simps) (auto intro: digit_char_props)
qed

lemma undec_snoc [simp]: "undec (s @ [c]) = 10 * undec s + digit_val c"
  by (simp add: undec_def)

lemma undec_dec_nat [simp]: "undec (dec_nat n) = n"
proof (induction n rule: dec_nat.induct)
  case (1 n)
  show ?case
  proof (cases "n < 10")
    case True
    then show ?thesis
      by (subst dec_nat.simps) (simp add: undec_def digit_char_props)
  next
    case False
    with 1 show ?thesis
      by (subst dec_nat.simps) (simp add: digit_char_props)
  qed
qed

lemma dec_nat_nonempty [simp]: "dec_nat n \<noteq> []"
  by (subst dec_nat.simps) simp

lemma dec_nat_inject [simp]: "dec_nat m = dec_nat n \<longleftrightarrow> m = n"
  by (metis undec_dec_nat)

lemma not_digits [simp]:
  "\<not> is_digit CHR ''-''" "\<not> is_digit CHR ''+''" "\<not> is_digit CHR ''/''" "\<not> is_digit CHR '':''"
  "\<not> is_digit CHR ''_''"
  by (simp_all add: is_digit_def)

lemma dec_nat_no_sign: "dec_nat n \<noteq> CHR ''-'' # s"
  using digits_dec_nat [of n] by (metis list.set_intros(1) not_digits(1))

lemma dec_int_inject [simp]: "dec_int i = dec_int j \<longleftrightarrow> i = j"
  using dec_nat_no_sign by (auto simp: dec_int_def dest: sym)

lemma dec_int_chars: "c \<in> set (dec_int i) \<Longrightarrow> is_digit c \<or> c = CHR ''-''"
  using digits_dec_nat by (auto simp: dec_int_def split: if_splits)

text \<open>A separator that no number contains makes \<open>"%s<sep>%d"\<close> injective, whatever the string is.\<close>

lemma sep_inject:
  assumes "c \<notin> set s" and "c \<notin> set t"
  shows "a @ c # s = b @ c # t \<longleftrightarrow> a = b \<and> s = t"
proof
  assume eq: "a @ c # s = b @ c # t"
  have "takeWhile (\<lambda>x. x \<noteq> c) (rev (a @ c # s)) = rev s"
    and "takeWhile (\<lambda>x. x \<noteq> c) (rev (b @ c # t)) = rev t"
    using assms by (auto simp: takeWhile_append)
  with eq have "s = t" by simp
  with eq show "a = b \<and> s = t" by simp
qed simp

lemma sep_dec_int_inject:
  assumes "\<not> is_digit c" and "c \<noteq> CHR ''-''"
  shows "a @ c # dec_int i = b @ c # dec_int j \<longleftrightarrow> a = b \<and> i = j"
  using assms dec_int_chars by (metis dec_int_inject sep_inject)

subsection \<open>strconv.Atoi and strconv.ParseBool\<close>

definition max_int64 :: int where
  "max_int64 = 9223372036854775807"

definition errSyntax :: err where
  "errSyntax = Other ''invalid syntax''"

definition errRange :: err where
  "errRange = Other ''value out of range''"

definition all_digits :: "string \<Rightarrow> bool" where
  "all_digits s \<longleftrightarrow> s \<noteq> [] \<and> list_all is_digit s"

definition atoi_abs :: "bool \<Rightarrow> string \<Rightarrow> err + int" where
  "atoi_abs neg ds =
     (if \<not> all_digits ds then Inl errSyntax
      else let n = int (undec ds)
           in if neg then (if n \<le> max_int64 + 1 then Inr (- n) else Inl errRange)
              else (if n \<le> max_int64 then Inr n else Inl errRange))"

definition Atoi :: "string \<Rightarrow> err + int" where
  "Atoi s = (case s of
     [] \<Rightarrow> Inl errSyntax
   | c # ds \<Rightarrow>
       if c = CHR ''-'' then atoi_abs True ds
       else if c = CHR ''+'' then atoi_abs False ds
       else atoi_abs False s)"

definition ParseBool :: "string \<Rightarrow> err + bool" where
  "ParseBool s =
     (if s \<in> set [''1'', ''t'', ''T'', ''TRUE'', ''true'', ''True''] then Inr True
      else if s \<in> set [''0'', ''f'', ''F'', ''FALSE'', ''false'', ''False''] then Inr False
      else Inl errSyntax)"

lemma all_digits_dec_nat [simp]: "all_digits (dec_nat n)"
  using digits_dec_nat by (simp add: all_digits_def list_all_iff)

lemma Atoi_bounds: "Atoi s = Inr i \<Longrightarrow> - max_int64 - 1 \<le> i \<and> i \<le> max_int64"
  by (auto simp: Atoi_def atoi_abs_def Let_def max_int64_def split: list.splits if_splits)

lemma Atoi_dec_int:
  assumes "- max_int64 - 1 \<le> i" and "i \<le> max_int64"
  shows "Atoi (dec_int i) = Inr i"
proof (cases "i < 0")
  case True
  then show ?thesis
    using assms by (simp add: Atoi_def dec_int_def atoi_abs_def)
next
  case False
  obtain c ds where c: "dec_nat (nat i) = c # ds"
    by (cases "dec_nat (nat i)") simp_all
  have "is_digit c"
    using digits_dec_nat [of "nat i"] c by simp
  then have "c \<noteq> CHR ''-''" and "c \<noteq> CHR ''+''" by auto
  then have "Atoi (dec_int i) = atoi_abs False (dec_nat (nat i))"
    using False c by (simp add: Atoi_def dec_int_def)
  then show ?thesis
    using False assms by (simp add: atoi_abs_def)
qed

subsection \<open>strings.Split, TrimSpace, ToUpper, HasPrefix\<close>

text \<open>\<open>strings.Split(v, sep)\<close> for a one-byte separator.\<close>

fun split_on :: "char \<Rightarrow> string \<Rightarrow> string list" where
  "split_on sep [] = [[]]"
| "split_on sep (c # s) =
     (if c = sep then [] # split_on sep s
      else case split_on sep s of [] \<Rightarrow> [[c]] | p # ps \<Rightarrow> (c # p) # ps)"

definition is_space :: "char \<Rightarrow> bool" where
  "is_space c \<longleftrightarrow> c \<in> set [CHR '' '', CHR 0x09, CHR 0x0A, CHR 0x0B, CHR 0x0C, CHR 0x0D]"

definition TrimSpace :: "string \<Rightarrow> string" where
  "TrimSpace s = rev (dropWhile is_space (rev (dropWhile is_space s)))"

definition upper_char :: "char \<Rightarrow> char" where
  "upper_char c =
     (let n = of_char c :: nat in if 97 \<le> n \<and> n \<le> 122 then char_of (n - 32) else c)"

definition ToUpper :: "string \<Rightarrow> string" where
  "ToUpper = map upper_char"

definition HasPrefix :: "string \<Rightarrow> string \<Rightarrow> bool" where
  "HasPrefix s p \<longleftrightarrow> prefix p s"

lemma split_on_nonempty [simp]: "split_on sep s \<noteq> []"
  by (induction s) (auto split: list.splits)

lemma split_on_pieces: "p \<in> set (split_on sep s) \<Longrightarrow> sep \<notin> set p"
  by (induction s arbitrary: p) (auto split: list.splits if_splits)

lemma split_on_chars: "p \<in> set (split_on sep s) \<Longrightarrow> set p \<subseteq> set s"
  by (induction s arbitrary: p) (fastforce split: list.splits if_splits)+

lemma set_TrimSpace: "set (TrimSpace s) \<subseteq> set s"
  unfolding TrimSpace_def by (metis set_dropWhileD set_rev subsetI)

lemma TrimSpace_idem [simp]: "TrimSpace (TrimSpace s) = TrimSpace s"
proof (cases "TrimSpace s = []")
  case True
  then show ?thesis by (simp only: True) (simp add: TrimSpace_def)
next
  case False
  define t where "t = dropWhile is_space s"
  define u where "u = dropWhile is_space (rev t)"
  have trim: "TrimSpace s = rev u" by (simp add: TrimSpace_def t_def u_def)
  with False have "u \<noteq> []" by simp
  have hdu: "\<not> is_space (hd u)"
    using \<open>u \<noteq> []\<close> unfolding u_def by (rule hd_dropWhile)
  obtain pre where pre: "rev t = pre @ u"
    using takeWhile_dropWhile_id [of is_space "rev t"] unfolding u_def by metis
  then have t: "t = rev u @ rev pre" by (metis rev_append rev_rev_ident)
  have "t \<noteq> []" using t \<open>u \<noteq> []\<close> by simp
  then have "\<not> is_space (hd t)" unfolding t_def by (rule hd_dropWhile)
  then have hdr: "\<not> is_space (hd (rev u))"
    using t \<open>u \<noteq> []\<close> by simp
  have "dropWhile is_space (rev u) = rev u"
    using hdr \<open>u \<noteq> []\<close> by (cases "rev u") simp_all
  moreover have "dropWhile is_space u = u"
    using hdu \<open>u \<noteq> []\<close> by (cases u) simp_all
  ultimately show ?thesis by (simp add: trim) (simp add: TrimSpace_def)
qed

end
