(* ===== verification/Cloud_Config.thy ===== *)
theory Cloud_Config
  imports Go_Strings
begin

section \<open>Cloud configuration: \<open>pkg/config\<close>\<close>

text \<open>
  \<open>config.go\<close> and \<open>clouds.go\<close>: the configuration records, the choice of the authentication
  method, the environment fallbacks, the validation and the two loaders. The INI parser
  (\<open>gcfg.ReadInto\<close>, \<open>gcfg.FatalOnly\<close>) and the SDK's \<open>clouds.yaml\<close> lookup are
  parameters; \<open>os.Getenv\<close> is the parameter \<open>getenv\<close>.
\<close>

subsection \<open>Records\<close>

definition AuthMethodPassword :: string where "AuthMethodPassword = ''password''"
definition AuthMethodAKSK :: string where "AuthMethodAKSK = ''aksk''"

record AuthOpts =
  AuthURL :: string
  Username :: string
  Password :: string
  AccessKey :: string
  SecretKey :: string
  SecurityToken :: string
  DomainName :: string
  DomainID :: string
  TenantID :: string
  TenantName :: string
  ProjectID :: string
  Region :: string
  CAFile :: string
  TLSInsecure :: bool

text \<open>The fields of \<open>LoadBalancerOpts\<close> carry the prefix \<open>def_\<close> (defaults): the effective
  settings of a Service have the same names without it.\<close>

record LoadBalancerOpts =
  def_SubnetID :: string
  def_VpcID :: string
  def_AvailabilityZones :: "string list"
  def_L4FlavorID :: string
  def_LBAlgorithm :: string
  def_HealthCheckEnabled :: bool
  def_HealthCheckDelay :: int
  def_HealthCheckTimeout :: int
  def_HealthCheckMaxRetries :: int

record CloudConfig =
  Global :: AuthOpts
  LoadBalancer :: LoadBalancerOpts

definition zeroAuthOpts :: AuthOpts where
  "zeroAuthOpts = \<lparr>AuthURL = '''', Username = '''', Password = '''', AccessKey = '''', SecretKey = '''',
     SecurityToken = '''', DomainName = '''', DomainID = '''', TenantID = '''', TenantName = '''',
     ProjectID = '''', Region = '''', CAFile = '''', TLSInsecure = False\<rparr>"

definition DefaultLoadBalancerOpts :: LoadBalancerOpts where
  "DefaultLoadBalancerOpts = \<lparr>def_SubnetID = '''', def_VpcID = '''', def_AvailabilityZones = [],
     def_L4FlavorID = '''', def_LBAlgorithm = ''ROUND_ROBIN'', def_HealthCheckEnabled = True,
     def_HealthCheckDelay = 5, def_HealthCheckTimeout = 3, def_HealthCheckMaxRetries = 3\<rparr>"

subsection \<open>Printing without secrets\<close>

text \<open>\<open>strconv.Quote\<close> (the verb \<open>%q\<close>) on printable text and control characters; bytes of 128
  and more are taken to be part of a printable rune and copied.\<close>

definition hex_digit :: "nat \<Rightarrow> char" where
  "hex_digit n = ''0123456789abcdef'' ! n"

definition quote_char :: "char \<Rightarrow> string" where
  "quote_char c =
     (if c = CHR 0x22 then [CHR 0x5C, CHR 0x22]
      else if c = CHR 0x5C then [CHR 0x5C, CHR 0x5C]
      else if c = CHR 0x07 then [CHR 0x5C, CHR ''a'']
      else if c = CHR 0x08 then [CHR 0x5C, CHR ''b'']
      else if c = CHR 0x0C then [CHR 0x5C, CHR ''f'']
      else if c = CHR 0x0A then [CHR 0x5C, CHR ''n'']
      else if c = CHR 0x0D then [CHR 0x5C, CHR ''r'']
      else if c = CHR 0x09 then [CHR 0x5C, CHR ''t'']
      else if c = CHR 0x0B then [CHR 0x5C, CHR ''v'']
      else let n = of_char c :: nat in
        if n < 32 \<or> n = 127 then [CHR 0x5C, CHR ''x'', hex_digit (n div 16), hex_digit (n mod 16)]
        else [c])"

definition Quote :: "string \<Rightarrow> string" where
  "Quote s = CHR 0x22 # concat (map quote_char s) @ [CHR 0x22]"

definition format_bool :: "bool \<Rightarrow> string" where
  "format_bool b = (if b then ''true'' else ''false'')"

definition AuthOpts_String :: "AuthOpts \<Rightarrow> string" where
  "AuthOpts_String o1 =
     ''AuthOpts{AuthURL:'' @ Quote (AuthURL o1) @ '', Username:'' @ Quote (Username o1) @
     '', AccessKey:'' @ Quote (AccessKey o1) @ '', DomainName:'' @ Quote (DomainName o1) @
     '', DomainID:'' @ Quote (DomainID o1) @ '', TenantID:'' @ Quote (TenantID o1) @
     '', TenantName:'' @ Quote (TenantName o1) @ '', ProjectID:'' @ Quote (ProjectID o1) @
     '', Region:'' @ Quote (Region o1) @ '', CAFile:'' @ Quote (CAFile o1) @
     '', TLSInsecure:'' @ format_bool (TLSInsecure o1) @ ''}''"

definition AuthOpts_GoString :: "AuthOpts \<Rightarrow> string" where
  "AuthOpts_GoString o1 = AuthOpts_String o1"

subsection \<open>Authentication method, fallbacks, validation\<close>

definition AuthOpts_AuthMethod :: "AuthOpts \<Rightarrow> string" where
  "AuthOpts_AuthMethod o1 =
     (if AccessKey o1 \<noteq> '''' \<and> SecretKey o1 \<noteq> '''' then AuthMethodAKSK
      else if Username o1 \<noteq> '''' \<and> Password o1 \<noteq> '''' then AuthMethodPassword
      else '''')"

definition setIfEmpty :: "(string \<Rightarrow> string) \<Rightarrow> string \<Rightarrow> string \<Rightarrow> string" where
  "setIfEmpty getenv field envVar = (if field = '''' then getenv envVar else field)"

definition applyEnvFallbacks :: "(string \<Rightarrow> string) \<Rightarrow> AuthOpts \<Rightarrow> AuthOpts" where
  "applyEnvFallbacks getenv o1 = o1\<lparr>
     AuthURL := setIfEmpty getenv (AuthURL o1) ''OS_AUTH_URL'',
     Username := setIfEmpty getenv (Username o1) ''OS_USERNAME'',
     Password := setIfEmpty getenv (Password o1) ''OS_PASSWORD'',
     AccessKey := setIfEmpty getenv (AccessKey o1) ''OS_ACCESS_KEY'',
     SecretKey := setIfEmpty getenv (SecretKey o1) ''OS_SECRET_KEY'',
     SecurityToken := setIfEmpty getenv (SecurityToken o1) ''OS_SECURITY_TOKEN'',
     DomainName := setIfEmpty getenv (DomainName o1) ''OS_DOMAIN_NAME'',
     DomainID := setIfEmpty getenv (DomainID o1) ''OS_DOMAIN_ID'',
     TenantID := setIfEmpty getenv (TenantID o1) ''OS_TENANT_ID'',
     TenantName := setIfEmpty getenv (TenantName o1) ''OS_TENANT_NAME'',
     ProjectID := setIfEmpty getenv (ProjectID o1) ''OS_PROJECT_ID'',
     Region := setIfEmpty getenv (Region o1) ''OS_REGION_NAME''\<rparr>"

definition validate :: "AuthOpts \<Rightarrow> err + unit" where
  "validate o1 =
     (if AuthURL o1 = '''' then Inl (Errorf ''auth-url is required (set in config or OS_AUTH_URL)'' [])
      else if AuthOpts_AuthMethod o1 = '''' then
        Inl (Errorf ''no valid credentials: provide username/password or access-key/secret-key'' [])
      else Inr ())"

subsection \<open>The loaders\<close>

text \<open>
  \<open>readInto cc cfg\<close> stands for \<open>gcfg.ReadInto(cc, cfg)\<close>: it fills the configuration from the
  reader \<open>cfg\<close> and may report an error; \<open>fatalOnly\<close> keeps the fatal part of one.
\<close>

definition ReadConfig ::
  "(CloudConfig \<Rightarrow> 'r \<Rightarrow> err option \<times> CloudConfig) \<Rightarrow> (err option \<Rightarrow> err option) \<Rightarrow>
   (string \<Rightarrow> string) \<Rightarrow> 'r option \<Rightarrow> err + CloudConfig" where
  "ReadConfig readInto fatalOnly getenv cfg =
     (let cc0 = \<lparr>Global = zeroAuthOpts, LoadBalancer = DefaultLoadBalancerOpts\<rparr>;
          read = (case cfg of None \<Rightarrow> Inr cc0
                  | Some r \<Rightarrow> (case readInto cc0 r of (e, cc1) \<Rightarrow>
                      (case fatalOnly e of
                         Some e' \<Rightarrow> Inl (Wrapf ''failed to parse cloud config: %w'' [] e')
                       | None \<Rightarrow> Inr cc1)))
      in case read of Inl e \<Rightarrow> Inl e
         | Inr cc \<Rightarrow>
             (let cc2 = cc\<lparr>Global := applyEnvFallbacks getenv (Global cc)\<rparr>
              in case validate (Global cc2) of Inl e \<Rightarrow> Inl e | Inr _ \<Rightarrow> Inr cc2))"

text \<open>The part of the SDK's \<open>openstack.Cloud\<close> that \<open>clouds.go\<close> reads.\<close>

record AuthInfo =
  ai_AuthURL :: string
  ai_Username :: string
  ai_Password :: string
  ai_AccessKey :: string
  ai_SecretKey :: string
  ai_SecurityToken :: string
  ai_DomainName :: string
  ai_DomainID :: string
  ai_UserDomainName :: string
  ai_UserDomainID :: string
  ai_ProjectName :: string
  ai_ProjectID :: string

record Cloud =
  cl_Cloud :: string
  cl_AuthInfo :: AuthInfo
  cl_RegionName :: string
  cl_Regions :: "string list"

text \<open>\<open>envCloud\<close> stands for \<open>env.Cloud(name...)\<close>, with \<open>None\<close> for the call without a
  name.\<close>

text \<open>The three fallbacks (lines 41 to 54).\<close>

definition fillDomain :: "AuthInfo \<Rightarrow> AuthOpts \<Rightarrow> AuthOpts" where
  "fillDomain auth opts =
     (let opts = (if DomainName opts = '''' then opts\<lparr>DomainName := ai_UserDomainName auth\<rparr> else opts)
      in if DomainID opts = '''' then opts\<lparr>DomainID := ai_UserDomainID auth\<rparr> else opts)"

definition fillRegion :: "Cloud \<Rightarrow> AuthOpts \<Rightarrow> AuthOpts" where
  "fillRegion cloud opts =
     (case cl_Regions cloud of
        r # _ \<Rightarrow> if Region opts = '''' then opts\<lparr>Region := r\<rparr> else opts
      | [] \<Rightarrow> opts)"

definition fillTenant :: "AuthInfo \<Rightarrow> AuthOpts \<Rightarrow> AuthOpts" where
  "fillTenant auth opts =
     (if TenantName opts = '''' \<and> ai_ProjectID auth \<noteq> '''' then opts\<lparr>TenantID := ai_ProjectID auth\<rparr> else opts)"

definition AuthOptsFromCloudsYAML ::
  "(string option \<Rightarrow> err + Cloud) \<Rightarrow> string \<Rightarrow> err + AuthOpts" where
  "AuthOptsFromCloudsYAML envCloud cloudName =
     (case envCloud (if cloudName \<noteq> '''' then Some cloudName else None) of
        Inl e \<Rightarrow> Inl (Wrapf ''failed to load clouds.yaml: %w'' [] e)
      | Inr cloud \<Rightarrow>
          (let auth = cl_AuthInfo cloud;
               opts = zeroAuthOpts\<lparr>
                 AuthURL := ai_AuthURL auth, Username := ai_Username auth,
                 Password := ai_Password auth, AccessKey := ai_AccessKey auth,
                 SecretKey := ai_SecretKey auth, SecurityToken := ai_SecurityToken auth,
                 DomainName := ai_DomainName auth, DomainID := ai_DomainID auth,
                 TenantName := ai_ProjectName auth, ProjectID := ai_ProjectID auth,
                 Region := cl_RegionName cloud\<rparr>;
               opts = fillTenant auth (fillRegion cloud (fillDomain auth opts))
           in case validate opts of
                Inl e \<Rightarrow> Inl (Wrapf ''clouds.yaml cloud %q: %w'' [cl_Cloud cloud] e)
              | Inr _ \<Rightarrow> Inr opts))"

subsection \<open>What a loaded configuration guarantees\<close>

definition has_aksk :: "AuthOpts \<Rightarrow> bool" where
  "has_aksk o1 \<longleftrightarrow> AccessKey o1 \<noteq> '''' \<and> SecretKey o1 \<noteq> ''''"

definition has_password :: "AuthOpts \<Rightarrow> bool" where
  "has_password o1 \<longleftrightarrow> Username o1 \<noteq> '''' \<and> Password o1 \<noteq> ''''"

lemma AuthMethod_values [simp]:
  "AuthOpts_AuthMethod o1 = AuthMethodAKSK \<longleftrightarrow> has_aksk o1"
  "AuthOpts_AuthMethod o1 = AuthMethodPassword \<longleftrightarrow> \<not> has_aksk o1 \<and> has_password o1"
  "AuthOpts_AuthMethod o1 = '''' \<longleftrightarrow> \<not> has_aksk o1 \<and> \<not> has_password o1"
  by (auto simp: AuthOpts_AuthMethod_def AuthMethodAKSK_def AuthMethodPassword_def has_aksk_def
      has_password_def)

lemma validate_iff:
  "validate o1 = Inr () \<longleftrightarrow> AuthURL o1 \<noteq> '''' \<and> (has_aksk o1 \<or> has_password o1)"
  by (auto simp: validate_def)

lemma setIfEmpty_keep [simp]: "x \<noteq> '''' \<Longrightarrow> setIfEmpty getenv x v = x"
  by (simp add: setIfEmpty_def)

lemma setIfEmpty_idem [simp]:
  "setIfEmpty getenv (setIfEmpty getenv x v) v = setIfEmpty getenv x v"
  by (simp add: setIfEmpty_def)

lemma applyEnvFallbacks_credentials:
  "has_aksk o1 \<Longrightarrow> has_aksk (applyEnvFallbacks getenv o1)"
  "has_password o1 \<Longrightarrow> has_password (applyEnvFallbacks getenv o1)"
  by (auto simp: has_aksk_def has_password_def applyEnvFallbacks_def)

text \<open>The settings that have a variable in the environment.\<close>

definition environment :: "((AuthOpts \<Rightarrow> string) \<times> string) list" where
  "environment = [(AuthURL, ''OS_AUTH_URL''), (Username, ''OS_USERNAME''), (Password, ''OS_PASSWORD''),
     (AccessKey, ''OS_ACCESS_KEY''), (SecretKey, ''OS_SECRET_KEY''), (SecurityToken, ''OS_SECURITY_TOKEN''),
     (DomainName, ''OS_DOMAIN_NAME''), (DomainID, ''OS_DOMAIN_ID''), (TenantID, ''OS_TENANT_ID''),
     (TenantName, ''OS_TENANT_NAME''), (ProjectID, ''OS_PROJECT_ID''), (Region, ''OS_REGION_NAME'')]"

lemma applyEnvFallbacks_fields:
  "\<forall>(setting, variable) \<in> set environment. setting (applyEnvFallbacks getenv o1) =
     (if setting o1 = '''' then getenv variable else setting o1)"
  "CAFile (applyEnvFallbacks getenv o1) = CAFile o1" "TLSInsecure (applyEnvFallbacks getenv o1) = TLSInsecure o1"
  by (simp_all add: environment_def applyEnvFallbacks_def setIfEmpty_def)

lemma ReadConfig_InrE:
  assumes "ReadConfig readInto fatalOnly getenv cfg = Inr cc"
  obtains cc1 where "cc = cc1\<lparr>Global := applyEnvFallbacks getenv (Global cc1)\<rparr>"
    and "validate (Global cc) = Inr ()"
    and "cfg = None \<Longrightarrow> cc1 = \<lparr>Global = zeroAuthOpts, LoadBalancer = DefaultLoadBalancerOpts\<rparr>"
    and "\<And>r. cfg = Some r \<Longrightarrow>
      cc1 = snd (readInto \<lparr>Global = zeroAuthOpts, LoadBalancer = DefaultLoadBalancerOpts\<rparr> r)"
  using assms
  by (auto simp: ReadConfig_def Let_def split: option.splits sum.splits prod.splits)

subsection \<open>Properties\<close>

text \<open>
  C35: secrets are never printed: \<open>String\<close> and \<open>GoString\<close> give the same text whatever the password,
  the secret key and the security token are.
\<close>

theorem AuthOpts_String_hides_secrets:
  "AuthOpts_String (o1\<lparr>Password := p, SecretKey := s, SecurityToken := t\<rparr>) = AuthOpts_String o1 \<and>
   AuthOpts_GoString (o1\<lparr>Password := p, SecretKey := s, SecurityToken := t\<rparr>) = AuthOpts_GoString o1"
  by (simp add: AuthOpts_String_def AuthOpts_GoString_def)

lemma fill_credentials:
  "\<forall>f \<in> {AuthURL, Username, Password, AccessKey, SecretKey, SecurityToken}.
     f (fillDomain auth o1) = f o1 \<and> f (fillRegion cloud o1) = f o1 \<and> f (fillTenant auth o1) = f o1"
  by (simp add: fillDomain_def fillRegion_def fillTenant_def Let_def split: list.split)

lemma fill_domains:
  "\<forall>f \<in> {DomainName, DomainID}. f (fillRegion cloud o1) = f o1 \<and> f (fillTenant auth o1) = f o1"
  "DomainName (fillDomain auth o1) = (if DomainName o1 = '''' then ai_UserDomainName auth else DomainName o1)"
  "DomainID (fillDomain auth o1) = (if DomainID o1 = '''' then ai_UserDomainID auth else DomainID o1)"
  by (simp_all add: fillDomain_def fillRegion_def fillTenant_def Let_def split: list.split)

lemma fill_fields:
  "TenantName (fillDomain auth o1) = TenantName o1" "TenantID (fillDomain auth o1) = TenantID o1"
  "ProjectID (fillDomain auth o1) = ProjectID o1" "Region (fillDomain auth o1) = Region o1"
  "TenantName (fillRegion cloud o1) = TenantName o1" "TenantID (fillRegion cloud o1) = TenantID o1"
  "ProjectID (fillRegion cloud o1) = ProjectID o1"
  "Region (fillRegion cloud o1) = (if Region o1 = '''' \<and> cl_Regions cloud \<noteq> [] then hd (cl_Regions cloud) else Region o1)"
  "TenantName (fillTenant auth o1) = TenantName o1" "ProjectID (fillTenant auth o1) = ProjectID o1"
  "Region (fillTenant auth o1) = Region o1"
  "TenantID (fillTenant auth o1) =
     (if TenantName o1 = '''' \<and> ai_ProjectID auth \<noteq> '''' then ai_ProjectID auth else TenantID o1)"
  by (simp_all add: fillDomain_def fillRegion_def fillTenant_def split: list.split)

text \<open>
  C34: credentials taken from \<open>clouds.yaml\<close> are those of the entry asked for, usable (an endpoint and a full
  pair of credentials), with the user's domain and the first region as fallbacks. The tenant fields, by
  which a password login is scoped, name the project by its name or, when it has none, by its id, never by
  both. The project id is kept beside the name in \<open>ProjectID\<close>, which only the AK/SK login uses.
\<close>

theorem AuthOptsFromCloudsYAML_scoped:
  assumes "AuthOptsFromCloudsYAML envCloud name = Inr o1"
  shows "validate o1 = Inr () \<and> \<not> (TenantName o1 \<noteq> '''' \<and> TenantID o1 \<noteq> '''') \<and>
    (\<exists>cloud. envCloud (if name = '''' then None else Some name) = Inr cloud \<and>
       TenantName o1 = ai_ProjectName (cl_AuthInfo cloud) \<and>
       (TenantName o1 = '''' \<longrightarrow> TenantID o1 = ai_ProjectID (cl_AuthInfo cloud)) \<and>
       ProjectID o1 = ai_ProjectID (cl_AuthInfo cloud) \<and>
       (let auth = cl_AuthInfo cloud in AuthURL o1 = ai_AuthURL auth \<and>
          Username o1 = ai_Username auth \<and> Password o1 = ai_Password auth \<and>
          AccessKey o1 = ai_AccessKey auth \<and> SecretKey o1 = ai_SecretKey auth \<and> SecurityToken o1 = ai_SecurityToken auth \<and>
          DomainName o1 = (if ai_DomainName auth = '''' then ai_UserDomainName auth else ai_DomainName auth) \<and>
          DomainID o1 = (if ai_DomainID auth = '''' then ai_UserDomainID auth else ai_DomainID auth)) \<and>
       Region o1 = (if cl_RegionName cloud = '''' \<and> cl_Regions cloud \<noteq> [] then hd (cl_Regions cloud)
          else cl_RegionName cloud))"
proof -
  obtain cloud where cloud: "envCloud (if name = '''' then None else Some name) = Inr cloud"
    using assms by (cases "envCloud (if name = '''' then None else Some name)")
      (auto simp: AuthOptsFromCloudsYAML_def split: if_splits)
  have c': "envCloud (if name \<noteq> '''' then Some name else None) = Inr cloud"
    using cloud by (cases "name = ''''") simp_all
  let ?o = "fillTenant (cl_AuthInfo cloud) (fillRegion cloud (fillDomain (cl_AuthInfo cloud) (zeroAuthOpts\<lparr>
       AuthURL := ai_AuthURL (cl_AuthInfo cloud), Username := ai_Username (cl_AuthInfo cloud),
       Password := ai_Password (cl_AuthInfo cloud), AccessKey := ai_AccessKey (cl_AuthInfo cloud),
       SecretKey := ai_SecretKey (cl_AuthInfo cloud), SecurityToken := ai_SecurityToken (cl_AuthInfo cloud),
       DomainName := ai_DomainName (cl_AuthInfo cloud), DomainID := ai_DomainID (cl_AuthInfo cloud),
       TenantName := ai_ProjectName (cl_AuthInfo cloud), ProjectID := ai_ProjectID (cl_AuthInfo cloud),
       Region := cl_RegionName cloud\<rparr>)))"
  have "o1 = ?o \<and> validate ?o = Inr ()"
    using assms by (auto simp: AuthOptsFromCloudsYAML_def c' Let_def split: sum.splits)
  then show ?thesis
    using cloud by (intro conjI exI [of _ cloud]) (simp_all add: fill_fields fill_domains fill_credentials zeroAuthOpts_def Let_def)
qed

definition demoCloud :: Cloud where
  "demoCloud = \<lparr>cl_Cloud = ''otc'', cl_AuthInfo = \<lparr>ai_AuthURL = ''https://iam'', ai_Username = ''u'',
     ai_Password = ''p'', ai_AccessKey = '''', ai_SecretKey = '''', ai_SecurityToken = '''',
     ai_DomainName = '''', ai_DomainID = '''', ai_UserDomainName = ''dom'', ai_UserDomainID = '''',
     ai_ProjectName = '''', ai_ProjectID = ''pid''\<rparr>, cl_RegionName = '''', cl_Regions = [''eu-de'', ''eu-nl'']\<rparr>"

theorem AuthOptsFromCloudsYAML_scoped_witness:
  "\<exists>o1. AuthOptsFromCloudsYAML (\<lambda>_. Inr demoCloud) ''otc'' = Inr o1 \<and> TenantID o1 = ''pid'' \<and>
     DomainName o1 = ''dom'' \<and> Region o1 = ''eu-de'' \<and> validate o1 = Inr () \<and> TenantName o1 = ''''"
proof -
  have "\<exists>o1. AuthOptsFromCloudsYAML (\<lambda>_. Inr demoCloud) ''otc'' = Inr o1 \<and> DomainName o1 = ''dom'' \<and> TenantName o1 = ''''"
    by (simp add: AuthOptsFromCloudsYAML_def fillDomain_def fillRegion_def fillTenant_def demoCloud_def
        validate_def AuthOpts_AuthMethod_def
        AuthMethodPassword_def zeroAuthOpts_def)
  then obtain o1 where "AuthOptsFromCloudsYAML (\<lambda>_. Inr demoCloud) ''otc'' = Inr o1"
    and o1: "DomainName o1 = ''dom''" "TenantName o1 = ''''" by blast
  with AuthOptsFromCloudsYAML_scoped [OF this(1)] show ?thesis
    by (simp add: demoCloud_def)
qed

end
