(* ===== verification/Identity_Provider.thy ===== *)
theory Identity_Provider
  imports Cloud_Config
begin

section \<open>Identity providers: \<open>pkg/identity\<close>\<close>

text \<open>
  The two authenticating providers (\<open>aksk.go\<close>, \<open>password.go\<close>), the token cache around them
  (\<open>token_cache.go\<close>), the factory and the service clients. The SDK and the file system are the
  parameter record \<open>iam\<close>; a \<open>*golangsdk.ProviderClient\<close> is an opaque handle \<open>'p\<close> into the
  SDK's state \<open>'s\<close>, a \<open>*golangsdk.ServiceClient\<close> an opaque \<open>'k\<close>.

  An identity provider object has one mutable field, \<open>client\<close>, guarded by a mutex. A
  \<open>tokenCacheProvider\<close> has none of its own and delegates, so one cell \<open>cached\<close> in the world
  serves a provider and its wrapper.
\<close>

subsection \<open>Interfaces of the SDK\<close>

record Transport =
  tr_MinVersion :: nat
  tr_InsecureSkipVerify :: bool
  tr_RootCAs :: "string option"

record AKSKAuthOptions =
  ak_IdentityEndpoint :: string
  ak_AccessKey :: string
  ak_SecretKey :: string
  ak_SecurityToken :: string
  ak_ProjectId :: string
  ak_ProjectName :: string
  ak_Region :: string
  ak_Domain :: string
  ak_DomainID :: string

record PwAuthOptions =
  pw_IdentityEndpoint :: string
  pw_Username :: string
  pw_Password :: string
  pw_DomainName :: string
  pw_DomainID :: string
  pw_TenantID :: string
  pw_TenantName :: string
  pw_AllowReauth :: bool

datatype authOptions = AKSKOptions AKSKAuthOptions | PasswordOptions PwAuthOptions

record ('s, 'p, 'k) iam =
  os_ReadFile :: "string \<Rightarrow> ('s, string) go"
  x509_CertPoolFromPEM :: "string \<Rightarrow> string option" \<comment> \<open>\<open>AppendCertsFromPEM\<close>: the pool, if it parsed\<close>
  openstack_NewClient :: "string \<Rightarrow> ('s, 'p) go"
  set_HTTPClient :: "'p \<Rightarrow> Transport \<Rightarrow> ('s, unit) go"
  UserAgent_Prepend :: "'p \<Rightarrow> string \<Rightarrow> ('s, unit) go"
  openstack_Authenticate :: "'p \<Rightarrow> authOptions \<Rightarrow> ('s, unit) go"
  openstack_NewELBV3 :: "'p \<Rightarrow> string \<Rightarrow> ('s, 'k) go"
  openstack_NewNetworkV1 :: "'p \<Rightarrow> string \<Rightarrow> ('s, 'k) go"
  ReauthFunc :: "'p \<Rightarrow> 's \<Rightarrow> ('s, unit) go option" \<comment> \<open>\<open>None\<close> for a nil function\<close>

definition ServiceELBv3 :: string where "ServiceELBv3 = ''elbv3''"
definition ServiceNetworkV1 :: string where "ServiceNetworkV1 = ''network''"

text \<open>\<open>golangsdk.EndpointOpts{Region: r}\<close> is the region \<open>r\<close>.\<close>

definition newServiceClient :: "('s, 'p, 'k) iam \<Rightarrow> 'p \<Rightarrow> string \<Rightarrow> string \<Rightarrow> ('s, 'k) go" where
  "newServiceClient I provider service region =
     (if service = ServiceELBv3 then openstack_NewELBV3 I provider region
      else if service = ServiceNetworkV1 then openstack_NewNetworkV1 I provider region
      else failG (Errorf ''unsupported service type %q'' [service]))"

subsection \<open>Provider objects\<close>

datatype IdentityProvider =
    AkskProvider AuthOpts
  | PasswordProvider AuthOpts
  | TokenCacheProvider IdentityProvider int \<comment> \<open>the inner provider, the refresh interval in ns\<close>

definition NewAKSKProvider :: "AuthOpts \<Rightarrow> err + IdentityProvider" where
  "NewAKSKProvider opts =
     (if AccessKey opts = '''' \<or> SecretKey opts = '''' then
        Inl (Errorf ''access-key and secret-key are required for AK/SK auth'' [])
      else if AuthURL opts = '''' then Inl (Errorf ''auth-url is required'' [])
      else Inr (AkskProvider opts))"

definition NewPasswordProvider :: "AuthOpts \<Rightarrow> err + IdentityProvider" where
  "NewPasswordProvider opts =
     (if Username opts = '''' \<or> Password opts = '''' then
        Inl (Errorf ''username and password are required for password auth'' [])
      else if AuthURL opts = '''' then Inl (Errorf ''auth-url is required'' [])
      else Inr (PasswordProvider opts))"

definition NewIdentityProvider :: "AuthOpts \<Rightarrow> err + IdentityProvider" where
  "NewIdentityProvider opts =
     (let m = AuthOpts_AuthMethod opts
      in if m = AuthMethodAKSK then NewAKSKProvider opts
         else if m = AuthMethodPassword then NewPasswordProvider opts
         else Inl (Errorf ''no valid auth credentials found: provide username/password or access-key/secret-key'' []))"

text \<open>The methods of each type, and the call of a method through the interface.\<close>

definition aksk_AuthMethod :: "AuthOpts \<Rightarrow> string" where [simp]: "aksk_AuthMethod opts = AuthMethodAKSK"
definition aksk_Region :: "AuthOpts \<Rightarrow> string" where [simp]: "aksk_Region opts = Region opts"
definition password_AuthMethod :: "AuthOpts \<Rightarrow> string" where [simp]: "password_AuthMethod opts = AuthMethodPassword"
definition password_Region :: "AuthOpts \<Rightarrow> string" where [simp]: "password_Region opts = Region opts"

fun AuthMethod :: "IdentityProvider \<Rightarrow> string" where
  "AuthMethod (AkskProvider opts) = aksk_AuthMethod opts"
| "AuthMethod (PasswordProvider opts) = password_AuthMethod opts"
| "AuthMethod (TokenCacheProvider inner interval) = AuthMethod inner"

fun ProviderRegion :: "IdentityProvider \<Rightarrow> string" where
  "ProviderRegion (AkskProvider opts) = aksk_Region opts"
| "ProviderRegion (PasswordProvider opts) = password_Region opts"
| "ProviderRegion (TokenCacheProvider inner interval) = ProviderRegion inner"

subsection \<open>Authentication\<close>

definition tls12 :: nat where "tls12 = 771" \<comment> \<open>\<open>tls.VersionTLS12 = 0x0303\<close>\<close>

definition buildTransport :: "('s, 'p, 'k) iam \<Rightarrow> AuthOpts \<Rightarrow> ('s, Transport) go" where
  "buildTransport I opts =
     (let tlsConfig = \<lparr>tr_MinVersion = tls12, tr_InsecureSkipVerify = TLSInsecure opts, tr_RootCAs = None\<rparr>
      in if CAFile opts \<noteq> '''' then
           bindG (wrapG ''failed to read CA file %s: %w'' [CAFile opts] (os_ReadFile I (CAFile opts)))
             (\<lambda>caCert. case x509_CertPoolFromPEM I caCert of
                None \<Rightarrow> failG (Errorf ''failed to parse CA certificate from %s'' [CAFile opts])
              | Some pool \<Rightarrow> returnG (tlsConfig\<lparr>tr_RootCAs := Some pool\<rparr>))
         else returnG tlsConfig)"

definition akskAuthOptions :: "AuthOpts \<Rightarrow> AKSKAuthOptions" where
  "akskAuthOptions opts = \<lparr>ak_IdentityEndpoint = AuthURL opts, ak_AccessKey = AccessKey opts,
     ak_SecretKey = SecretKey opts, ak_SecurityToken = SecurityToken opts,
     ak_ProjectId = ProjectID opts, ak_ProjectName = TenantName opts, ak_Region = Region opts,
     ak_Domain = DomainName opts, ak_DomainID = DomainID opts\<rparr>"

definition pwAuthOptions :: "AuthOpts \<Rightarrow> PwAuthOptions" where
  "pwAuthOptions opts = \<lparr>pw_IdentityEndpoint = AuthURL opts, pw_Username = Username opts,
     pw_Password = Password opts, pw_DomainName = DomainName opts, pw_DomainID = DomainID opts,
     pw_TenantID = TenantID opts, pw_TenantName = TenantName opts, pw_AllowReauth = True\<rparr>"

definition newSDKClient :: "('s, 'p, 'k) iam \<Rightarrow> AuthOpts \<Rightarrow> ('s, 'p) go" where
  "newSDKClient I opts =
     bindG (wrapG ''failed to create OpenStack client: %w'' [] (openstack_NewClient I (AuthURL opts)))
       (\<lambda>client. bindG (buildTransport I opts)
       (\<lambda>transport. bindG (set_HTTPClient I client transport)
       (\<lambda>_. bindG (UserAgent_Prepend I client ''cloud-provider-opentelekomcloud'')
       (\<lambda>_. returnG client))))"

definition aksk_authenticate :: "('s, 'p, 'k) iam \<Rightarrow> AuthOpts \<Rightarrow> ('s, 'p) go" where
  "aksk_authenticate I opts =
     bindG (newSDKClient I opts)
       (\<lambda>client. bindG (wrapG ''AK/SK authentication failed: %w'' []
            (openstack_Authenticate I client (AKSKOptions (akskAuthOptions opts))))
       (\<lambda>_. returnG client))"

definition password_authenticate :: "('s, 'p, 'k) iam \<Rightarrow> AuthOpts \<Rightarrow> ('s, 'p) go" where
  "password_authenticate I opts =
     bindG (newSDKClient I opts)
       (\<lambda>client. bindG (wrapG ''authentication failed: %w'' []
            (openstack_Authenticate I client (PasswordOptions (pwAuthOptions opts))))
       (\<lambda>_. returnG client))"

subsection \<open>The cached client\<close>

record ('s, 'p) idworld =
  iam_state :: 's
  cached :: "'p option" \<comment> \<open>the field \<open>client\<close> of the provider object\<close>

definition onIam :: "('s, 'a) go \<Rightarrow> (('s, 'p, 'z) idworld_scheme, 'a) go" where
  "onIam m = (\<lambda>w. case m (iam_state w) of (r, s') \<Rightarrow> (r, w\<lparr>iam_state := s'\<rparr>))"

text \<open>The critical section of \<open>GetProvider\<close>, the same in both providers.\<close>

definition cachedClient ::
  "('s, 'p) go \<Rightarrow> (('s, 'p, 'z) idworld_scheme, 'p) go" where
  "cachedClient authenticate =
     bindG (getG cached)
       (\<lambda>c. case c of Some client \<Rightarrow> returnG client
        | None \<Rightarrow> bindG (onIam authenticate)
            (\<lambda>client. bindG (modifyG (\<lambda>w. w\<lparr>cached := Some client\<rparr>)) (\<lambda>_. returnG client)))"

fun authenticate :: "('s, 'p, 'k) iam \<Rightarrow> IdentityProvider \<Rightarrow> ('s, 'p) go" where
  "authenticate I (AkskProvider opts) = aksk_authenticate I opts"
| "authenticate I (PasswordProvider opts) = password_authenticate I opts"
| "authenticate I (TokenCacheProvider inner interval) = authenticate I inner"

definition aksk_GetProvider :: "('s, 'p, 'k) iam \<Rightarrow> AuthOpts \<Rightarrow> (('s, 'p, 'z) idworld_scheme, 'p) go" where
  [simp]: "aksk_GetProvider I opts = cachedClient (aksk_authenticate I opts)"

definition password_GetProvider :: "('s, 'p, 'k) iam \<Rightarrow> AuthOpts \<Rightarrow> (('s, 'p, 'z) idworld_scheme, 'p) go" where
  [simp]: "password_GetProvider I opts = cachedClient (password_authenticate I opts)"

definition aksk_GetServiceClient ::
  "('s, 'p, 'k) iam \<Rightarrow> AuthOpts \<Rightarrow> string \<Rightarrow> string \<Rightarrow> (('s, 'p, 'z) idworld_scheme, 'k) go" where
  [simp]: "aksk_GetServiceClient I opts service region =
     bindG (aksk_GetProvider I opts) (\<lambda>p. onIam (newServiceClient I p service region))"

definition password_GetServiceClient ::
  "('s, 'p, 'k) iam \<Rightarrow> AuthOpts \<Rightarrow> string \<Rightarrow> string \<Rightarrow> (('s, 'p, 'z) idworld_scheme, 'k) go" where
  [simp]: "password_GetServiceClient I opts service region =
     bindG (password_GetProvider I opts) (\<lambda>p. onIam (newServiceClient I p service region))"

fun GetProvider ::
  "('s, 'p, 'k) iam \<Rightarrow> IdentityProvider \<Rightarrow> (('s, 'p, 'z) idworld_scheme, 'p) go" where
  "GetProvider I (AkskProvider opts) = aksk_GetProvider I opts"
| "GetProvider I (PasswordProvider opts) = password_GetProvider I opts"
| "GetProvider I (TokenCacheProvider inner interval) = GetProvider I inner"

fun GetServiceClient ::
  "('s, 'p, 'k) iam \<Rightarrow> IdentityProvider \<Rightarrow> string \<Rightarrow> string \<Rightarrow> (('s, 'p, 'z) idworld_scheme, 'k) go" where
  "GetServiceClient I (AkskProvider opts) service region = aksk_GetServiceClient I opts service region"
| "GetServiceClient I (PasswordProvider opts) service region = password_GetServiceClient I opts service region"
| "GetServiceClient I (TokenCacheProvider inner interval) service region =
     GetServiceClient I inner service region"

subsection \<open>The token cache\<close>

definition defaultRefreshInterval :: int where
  "defaultRefreshInterval = 23 * 3600 * 1000000000"

text \<open>The result is the provider to use and the wrapper whose refresh loop is started, if any.\<close>

definition WithTokenCache ::
  "IdentityProvider \<Rightarrow> int option \<Rightarrow> IdentityProvider \<times> IdentityProvider option" where
  "WithTokenCache provider interval =
     (if AuthMethod provider = AuthMethodAKSK then (provider, None)
      else let refreshInterval = (case interval of Some i \<Rightarrow> i | None \<Rightarrow> defaultRefreshInterval);
               wrapped = TokenCacheProvider provider refreshInterval
           in (wrapped, Some wrapped))"

fun innerProvider :: "IdentityProvider \<Rightarrow> IdentityProvider" where
  "innerProvider (TokenCacheProvider inner interval) = inner"
| "innerProvider p = p"

text \<open>One pass of the loop body for a tick: errors are logged and the loop goes on.\<close>

definition refreshTick ::
  "('s, 'p, 'k) iam \<Rightarrow> IdentityProvider \<Rightarrow> (('s, 'p, 'z) idworld_scheme, unit) go" where
  "refreshTick I c =
     catchG
       (bindG (GetProvider I (innerProvider c))
         (\<lambda>provider. bindG (getG (\<lambda>w. ReauthFunc I provider (iam_state w)))
           (\<lambda>f. case f of None \<Rightarrow> returnG ()
              | Some reauth \<Rightarrow> catchG (onIam reauth) (\<lambda>_. returnG ()))))
       (\<lambda>_. returnG ())"

subsection \<open>The factory\<close>

lemma NewIdentityProvider_validated:
  "validate opts = Inr () \<Longrightarrow>
   NewIdentityProvider opts = Inr (if has_aksk opts then AkskProvider opts else PasswordProvider opts)"
  by (auto simp: validate_iff NewIdentityProvider_def NewAKSKProvider_def NewPasswordProvider_def
      Let_def has_aksk_def has_password_def)

lemma NewIdentityProvider_AuthMethod:
  "NewIdentityProvider opts = Inr p \<Longrightarrow> AuthMethod p = AuthOpts_AuthMethod opts \<and> ProviderRegion p = Region opts"
  by (auto simp: NewIdentityProvider_def NewAKSKProvider_def NewPasswordProvider_def Let_def
      AuthOpts_AuthMethod_def AuthMethodAKSK_def AuthMethodPassword_def
      simp del: AuthMethod_values split: if_splits)

lemma AuthMethod_cases:
  "AuthMethod p = AuthMethodAKSK \<or> AuthMethod p = AuthMethodPassword"
  by (induction p) simp_all

subsection \<open>The interface contract of \<open>GetProvider\<close>\<close>

text \<open>
  What every caller of \<open>GetProvider\<close> relies on: a client that was obtained once is returned
  from then on, without touching the world, and a failed attempt is not remembered.
\<close>

locale identity_provider =
  fixes getProvider :: "('w, 'p) go"
    and client_of :: "'w \<Rightarrow> 'p option"
  assumes hit: "client_of w = Some p \<Longrightarrow> getProvider w = (Ok p, w)"
    and stored: "getProvider w = (Ok p, w') \<Longrightarrow> client_of w' = Some p"
    and not_stored: "getProvider w = (r, w') \<Longrightarrow> \<forall>p. r \<noteq> Ok p \<Longrightarrow> client_of w' = None"

text \<open>\<open>n\<close> calls in a row and their results.\<close>

fun seq_calls :: "('w, 'p) go \<Rightarrow> nat \<Rightarrow> 'w \<Rightarrow> 'p res list \<times> 'w" where
  "seq_calls m 0 w = ([], w)"
| "seq_calls m (Suc n) w =
     (case seq_calls m n w of (rs, w1) \<Rightarrow> (case m w1 of (r, w2) \<Rightarrow> (rs @ [r], w2)))"

lemma seq_calls_length: "seq_calls m n w = (rs, w') \<Longrightarrow> length rs = n"
  by (induction n arbitrary: rs w') (auto split: prod.splits)

context identity_provider
begin

lemma second_call:
  assumes "getProvider w = (Ok p, w')"
  shows "getProvider w' = (Ok p, w')"
  using assms by (intro hit stored)

text \<open>A run of calls: failures while nothing is cached, then the same client for ever.\<close>

lemma calls_shape:
  assumes "seq_calls getProvider n w = (rs, w')" and "client_of w = None"
  shows "\<exists>fails k p. rs = fails @ replicate k (Ok p) \<and> (\<forall>r \<in> set fails. \<forall>q. r \<noteq> Ok q) \<and>
     (if k = 0 then client_of w' = None else client_of w' = Some p)"
  using assms
proof (induction n arbitrary: rs w')
  case 0
  then show ?case by simp
next
  case (Suc n)
  obtain rs1 w1 r where run: "seq_calls getProvider n w = (rs1, w1)"
    "getProvider w1 = (r, w')" "rs = rs1 @ [r]"
    using Suc.prems(1) by (auto split: prod.splits)
  obtain fails k p where IH: "rs1 = fails @ replicate k (Ok p)"
    "\<forall>r \<in> set fails. \<forall>q. r \<noteq> Ok q"
    "if k = 0 then client_of w1 = None else client_of w1 = Some p"
    using Suc.IH [OF run(1) Suc.prems(2)] by blast
  show ?case
  proof (cases "k = 0")
    case False
    then have "getProvider w1 = (Ok p, w1)" using IH(3) by (simp add: hit)
    then have "rs = fails @ replicate (Suc k) (Ok p)" "client_of w' = Some p"
      using run IH False by (auto simp: replicate_append_same)
    then show ?thesis using IH(2) by (metis nat.distinct(1))
  next
    case k: True
    show ?thesis
    proof (cases "\<exists>q. r = Ok q")
      case True
      then obtain q where q: "r = Ok q" by blast
      then have "rs = fails @ replicate 1 (Ok q)" "client_of w' = Some q"
        using run IH k stored by auto
      then show ?thesis using IH(2) by (metis one_neq_zero)
    next
      case False
      then have "client_of w' = None" using run(2) not_stored by blast
      then have "rs = (fails @ [r]) @ replicate 0 (Ok p)" using run IH k by simp
      then show ?thesis using IH(2) False \<open>client_of w' = None\<close>
        by (metis Un_iff set_ConsD set_append in_set_replicate empty_iff empty_set)
    qed
  qed
qed

end

subsection \<open>Both providers and the wrapper meet the contract\<close>

lemma cachedClient_hit: "cached w = Some p \<Longrightarrow> cachedClient m w = (Ok p, w)"
  by (simp add: cachedClient_def bindG_Ok)

lemma cachedClient_miss:
  "cached w = None \<Longrightarrow> cachedClient m w =
     (case onIam m w of (Ok p, w') \<Rightarrow> (Ok p, w'\<lparr>cached := Some p\<rparr>)
      | (Fail e, w') \<Rightarrow> (Fail e, w') | (Panicked s, w') \<Rightarrow> (Panicked s, w'))"
  by (auto simp: cachedClient_def go_defs split: prod.splits res.splits)

lemma onIam_cached: "onIam m w = (r, w') \<Longrightarrow> cached w' = cached w"
  by (auto simp: onIam_def split: prod.splits)

lemma identity_provider_cachedClient: "identity_provider (cachedClient m) cached"
proof
  fix w :: "('a, 'b, 'c) idworld_scheme" and p
  assume "cached w = Some p"
  then show "cachedClient m w = (Ok p, w)" by (rule cachedClient_hit)
next
  fix w w' :: "('a, 'b, 'c) idworld_scheme" and p
  assume "cachedClient m w = (Ok p, w')"
  then show "cached w' = Some p"
    by (cases "cached w") (auto simp: cachedClient_hit cachedClient_miss split: prod.splits res.splits)
next
  fix w w' :: "('a, 'b, 'c) idworld_scheme" and r
  assume run: "cachedClient m w = (r, w')" and r: "\<forall>p. r \<noteq> Ok p"
  have "cached w = None"
  proof (cases "cached w")
    case (Some p)
    then show ?thesis using run r by (auto simp: cachedClient_hit)
  qed simp
  then show "cached w' = None"
    using run r by (auto simp: cachedClient_miss split: prod.splits res.splits dest: onIam_cached)
qed

lemma GetProvider_cachedClient: "GetProvider I p = cachedClient (authenticate I p)"
  by (induction p) simp_all

interpretation gp: identity_provider "GetProvider I p" cached for I p
  unfolding GetProvider_cachedClient by (rule identity_provider_cachedClient)

lemma GetServiceClient_eq:
  "GetServiceClient I p service region =
     bindG (GetProvider I p) (\<lambda>c. onIam (newServiceClient I c service region))"
  by (induction p) simp_all

lemma refreshTick_result:
  assumes "refreshTick I c w = (r, w')"
  shows "(r = Ok () \<or> (\<exists>s. r = Panicked s)) \<and> (\<forall>p. cached w = Some p \<longrightarrow> cached w' = Some p)"
proof -
  have keep: "cached w1 = Some p"
    if "GetProvider I q w = (x, w1)" and "cached w = Some p" for q x w1 p
    using that by (auto simp: gp.hit)
  show ?thesis
    using assms
    by (auto simp: refreshTick_def catchG_def bindG_def getG_def returnG_def dest: keep
        split: prod.splits res.splits option.splits) (metis keep onIam_cached)+
qed

subsection \<open>Properties\<close>

text \<open>
  C25: a configuration that loads always yields an identity provider: the factory accepts what
  \<open>ReadConfig\<close> returned, chooses AK/SK whenever both keys are known (from the file or the
  environment, even when the file configures a password), and serves the configured region. Values
  of the file win over the environment: each of the twelve settings that have a variable is the file's unless
  that is empty, and then the variable's; the CA file, the TLS switch and the balancer options are the file's.
\<close>

theorem configured_provider:
  assumes "ReadConfig readInto fatalOnly getenv cfg = Inr cc"
  shows "NewIdentityProvider (Global cc) =
      Inr (if has_aksk (Global cc) then AkskProvider (Global cc) else PasswordProvider (Global cc)) \<and>
    AuthURL (Global cc) \<noteq> '''' \<and> (has_aksk (Global cc) \<or> has_password (Global cc)) \<and>
    (\<forall>p. NewIdentityProvider (Global cc) = Inr p \<longrightarrow>
       AuthMethod p = AuthOpts_AuthMethod (Global cc) \<and> ProviderRegion p = Region (Global cc)) \<and>
    (\<exists>cc1. cc = cc1\<lparr>Global := applyEnvFallbacks getenv (Global cc1)\<rparr> \<and>
       (has_aksk (Global cc1) \<longrightarrow> AccessKey (Global cc) = AccessKey (Global cc1) \<and> SecretKey (Global cc) = SecretKey (Global cc1)) \<and>
       (has_password (Global cc1) \<longrightarrow> Username (Global cc) = Username (Global cc1) \<and> Password (Global cc) = Password (Global cc1)) \<and>
       (\<forall>(setting, variable) \<in> set environment. setting (Global cc) =
          (if setting (Global cc1) = '''' then getenv variable else setting (Global cc1))) \<and>
       CAFile (Global cc) = CAFile (Global cc1) \<and> TLSInsecure (Global cc) = TLSInsecure (Global cc1) \<and>
       LoadBalancer cc = LoadBalancer cc1 \<and>
       (case cfg of None \<Rightarrow> LoadBalancer cc = DefaultLoadBalancerOpts
        | Some r \<Rightarrow> cc1 = snd (readInto \<lparr>Global = zeroAuthOpts, LoadBalancer = DefaultLoadBalancerOpts\<rparr> r)))"
proof -
  obtain cc1 where cc: "cc = cc1\<lparr>Global := applyEnvFallbacks getenv (Global cc1)\<rparr>"
    "validate (Global cc) = Inr ()"
    "cfg = None \<Longrightarrow> cc1 = \<lparr>Global = zeroAuthOpts, LoadBalancer = DefaultLoadBalancerOpts\<rparr>"
    "\<And>r. cfg = Some r \<Longrightarrow> cc1 = snd (readInto \<lparr>Global = zeroAuthOpts, LoadBalancer = DefaultLoadBalancerOpts\<rparr> r)"
    using assms by (rule ReadConfig_InrE) blast
  have keep: "has_aksk (Global cc1) \<Longrightarrow>
      AccessKey (Global cc) = AccessKey (Global cc1) \<and> SecretKey (Global cc) = SecretKey (Global cc1)"
    by (simp add: cc(1) has_aksk_def applyEnvFallbacks_def)
  have keep2: "has_password (Global cc1) \<Longrightarrow>
      Username (Global cc) = Username (Global cc1) \<and> Password (Global cc) = Password (Global cc1)"
    by (simp add: cc(1) has_password_def applyEnvFallbacks_def)
  have src: "case cfg of None \<Rightarrow> LoadBalancer cc = DefaultLoadBalancerOpts
        | Some r \<Rightarrow> cc1 = snd (readInto \<lparr>Global = zeroAuthOpts, LoadBalancer = DefaultLoadBalancerOpts\<rparr> r)"
    using cc(1,3,4) by (cases cfg) simp_all
  have env: "\<forall>(setting, variable) \<in> set environment. setting (Global cc) =
      (if setting (Global cc1) = '''' then getenv variable else setting (Global cc1))"
    and rest: "CAFile (Global cc) = CAFile (Global cc1)" "TLSInsecure (Global cc) = TLSInsecure (Global cc1)"
      "LoadBalancer cc = LoadBalancer cc1"
    using applyEnvFallbacks_fields by (simp_all add: cc(1))
  have valid: "AuthURL (Global cc) \<noteq> ''''" "has_aksk (Global cc) \<or> has_password (Global cc)"
    using cc(2) by (simp_all add: validate_iff)
  show ?thesis
    by (intro conjI allI impI exI [of _ cc1])
      (use NewIdentityProvider_validated [OF cc(2)] NewIdentityProvider_AuthMethod valid keep keep2 env rest src cc(1)
       in \<open>blast+\<close>)
qed

definition envKeys :: "string \<Rightarrow> string" where
  "envKeys v = (if v = ''OS_AUTH_URL'' then ''https://iam'' else if v = ''OS_ACCESS_KEY'' then ''ak''
     else if v = ''OS_SECRET_KEY'' then ''sk'' else '''')"

definition passwordFile :: "CloudConfig \<Rightarrow> unit \<Rightarrow> err option \<times> CloudConfig" where
  "passwordFile cc r = (None, cc\<lparr>Global := (Global cc)\<lparr>Username := ''u'', Password := ''p''\<rparr>\<rparr>)"

theorem configured_provider_witness:
  "\<exists>cc. ReadConfig passwordFile id envKeys (Some ()) = Inr cc \<and>
     NewIdentityProvider (Global cc) = Inr (AkskProvider (Global cc)) \<and> has_password (Global cc)"
proof -
  have "\<exists>cc. ReadConfig passwordFile id envKeys (Some ()) = Inr cc \<and> has_aksk (Global cc) \<and> has_password (Global cc)"
    by (simp add: ReadConfig_def passwordFile_def envKeys_def applyEnvFallbacks_def setIfEmpty_def
        zeroAuthOpts_def validate_def AuthOpts_AuthMethod_def AuthMethodAKSK_def has_aksk_def has_password_def)
  then obtain cc where cc: "ReadConfig passwordFile id envKeys (Some ()) = Inr cc" "has_aksk (Global cc)"
    "has_password (Global cc)" by blast
  have "NewIdentityProvider (Global cc) = Inr (AkskProvider (Global cc))"
    using conjunct1 [OF configured_provider [OF cc(1)]] cc(2) by simp
  then show ?thesis using cc(1,3) by blast
qed

text \<open>Password providers are wrapped once and transparently, AK/SK providers are returned as they are.\<close>

lemma WithTokenCache_spec:
  "(AuthMethod p = AuthMethodAKSK \<longrightarrow> WithTokenCache p i = (p, None)) \<and>
   (AuthMethod p = AuthMethodPassword \<longrightarrow> WithTokenCache p i =
      (TokenCacheProvider p (case i of Some d \<Rightarrow> d | None \<Rightarrow> defaultRefreshInterval),
       Some (TokenCacheProvider p (case i of Some d \<Rightarrow> d | None \<Rightarrow> defaultRefreshInterval)))) \<and>
   (case WithTokenCache p i of (q, started) \<Rightarrow>
      AuthMethod q = AuthMethod p \<and> ProviderRegion q = ProviderRegion p \<and>
      GetProvider I q w = GetProvider I p w \<and> GetServiceClient I q s r w = GetServiceClient I p s r w)"
proof (cases "AuthMethod p = AuthMethodAKSK")
  case True
  then show ?thesis by (simp add: WithTokenCache_def AuthMethodAKSK_def AuthMethodPassword_def)
next
  case False
  then show ?thesis
    by (simp add: WithTokenCache_def Let_def AuthMethodAKSK_def AuthMethodPassword_def)
qed

definition passwordProvider :: IdentityProvider where
  "passwordProvider = PasswordProvider (zeroAuthOpts\<lparr>Username := ''u'', Password := ''p'', AuthURL := ''https://iam''\<rparr>)"

text \<open>
  C33: authentication is done over TLS 1.2 or later with certificate checks as configured: whatever
  transport \<open>buildTransport\<close> returns has the minimum version, skips verification only when the
  configuration says so, and trusts a CA file only after it was read and parsed; a CA file that does
  not parse is an error, never a transport without it.
\<close>

theorem buildTransport_secure:
  "case buildTransport I o1 s of
     (Ok t, s') \<Rightarrow> tr_MinVersion t = tls12 \<and> tr_InsecureSkipVerify t = TLSInsecure o1 \<and>
       (if CAFile o1 = '''' then tr_RootCAs t = None \<and> s' = s
        else \<exists>pem pool. os_ReadFile I (CAFile o1) s = (Ok pem, s') \<and>
          x509_CertPoolFromPEM I pem = Some pool \<and> tr_RootCAs t = Some pool)
   | (Fail e, s') \<Rightarrow> CAFile o1 \<noteq> ''''
   | (Panicked p, s') \<Rightarrow> os_ReadFile I (CAFile o1) s = (Panicked p, s')"
  by (auto simp: buildTransport_def Let_def wrapG_def catchG_def bindG_def returnG_def failG_def
      split: res.splits prod.splits option.splits)

subsection \<open>An SDK whose first login fails\<close>

definition flakyIam :: "(nat, nat, nat) iam" where
  "flakyIam = \<lparr>os_ReadFile = (\<lambda>_. returnG ''pem''), x509_CertPoolFromPEM = Some,
     openstack_NewClient = (\<lambda>_ s. (Ok s, s)), set_HTTPClient = (\<lambda>_ _. returnG ()),
     UserAgent_Prepend = (\<lambda>_ _. returnG ()),
     openstack_Authenticate = (\<lambda>_ _ s. (if s = 0 then Fail (Http 401) else Ok (), Suc s)),
     openstack_NewELBV3 = (\<lambda>p _. returnG p), openstack_NewNetworkV1 = (\<lambda>p _. returnG p),
     ReauthFunc = (\<lambda>_ _. Some (\<lambda>s. (Fail (Http 503), Suc s)))\<rparr>"

lemma flaky_authenticate:
  "authenticate flakyIam passwordProvider s =
     (if s = 0 then (Fail (Wrapf ''authentication failed: %w'' [] (Http 401)), 1) else (Ok s, Suc s))"
  by (simp add: passwordProvider_def password_authenticate_def newSDKClient_def buildTransport_def
      flakyIam_def run zeroAuthOpts_def)

end
