(* ===== verification/Identity_Sharing.thy ===== *)
theory Identity_Sharing
  imports Identity_Provider
begin

section \<open>Concurrency in \<open>pkg/identity\<close>: the mutex and the refresh goroutine\<close>

text \<open>
  Two state machines over the providers of \<open>Identity_Provider\<close>. The first interleaves any
  number of goroutines inside \<open>GetProvider\<close> at the level of its mutex operations; every run is
  shown to be a sequence of atomic calls. The second is the loop of \<open>refreshLoop\<close> with its
  ticker and its stop channel.
\<close>

text \<open>What every step of a machine keeps, every run keeps. Both machines are instances.\<close>

locale step_invariant =
  fixes step :: "'s \<Rightarrow> 's \<Rightarrow> bool" and inv :: "'s \<Rightarrow> bool"
  assumes preserved: "step s s' \<Longrightarrow> inv s \<Longrightarrow> inv s'"
begin

lemma kept: "step\<^sup>*\<^sup>* s s' \<Longrightarrow> inv s \<Longrightarrow> inv s'"
  by (induction rule: rtranclp_induct) (auto intro: preserved)

end

subsection \<open>Goroutines in \<open>GetProvider\<close>\<close>

datatype 'p pc =
    Idle
  | Waiting \<comment> \<open>at \<open>p.mu.Lock()\<close>\<close>
  | Locked \<comment> \<open>holds the mutex, before the test of \<open>p.client\<close>\<close>
  | Authenticating \<comment> \<open>inside \<open>p.authenticate()\<close>\<close>
  | Returned "'p res" \<comment> \<open>after the deferred \<open>Unlock\<close>\<close>

record ('w, 'p) mstate =
  pcs :: "nat \<Rightarrow> 'p pc"
  holder :: "nat option"
  shared :: 'w
  returns :: "'p res list" \<comment> \<open>the results in the order of the unlocks\<close>

definition leave :: "nat \<Rightarrow> 'p res \<Rightarrow> 'w \<Rightarrow> ('w, 'p) mstate \<Rightarrow> ('w, 'p) mstate" where
  "leave t r w m = m\<lparr>pcs := (pcs m)(t := Returned r), holder := None, shared := w,
     returns := returns m @ [r]\<rparr>"

inductive gp_step ::
  "('s, 'p) go \<Rightarrow> (('s, 'p) idworld, 'p) mstate \<Rightarrow> (('s, 'p) idworld, 'p) mstate \<Rightarrow> bool"
  for auth :: "('s, 'p) go" where
  call: "pcs m t = Idle \<Longrightarrow> gp_step auth m (m\<lparr>pcs := (pcs m)(t := Waiting)\<rparr>)"
| lock: "pcs m t = Waiting \<Longrightarrow> holder m = None \<Longrightarrow>
     gp_step auth m (m\<lparr>pcs := (pcs m)(t := Locked), holder := Some t\<rparr>)"
| cache_hit: "pcs m t = Locked \<Longrightarrow> cached (shared m) = Some p \<Longrightarrow>
     gp_step auth m (leave t (Ok p) (shared m) m)"
| start_auth: "pcs m t = Locked \<Longrightarrow> cached (shared m) = None \<Longrightarrow>
     gp_step auth m (m\<lparr>pcs := (pcs m)(t := Authenticating)\<rparr>)"
| auth_ok: "pcs m t = Authenticating \<Longrightarrow> onIam auth (shared m) = (Ok p, w') \<Longrightarrow>
     gp_step auth m (leave t (Ok p) (w'\<lparr>cached := Some p\<rparr>) m)"
| auth_error: "pcs m t = Authenticating \<Longrightarrow> onIam auth (shared m) = (Fail e, w') \<Longrightarrow>
     gp_step auth m (leave t (Fail e) w' m)"
| auth_panic: "pcs m t = Authenticating \<Longrightarrow> onIam auth (shared m) = (Panicked s, w') \<Longrightarrow>
     gp_step auth m (leave t (Panicked s) w' m)"
| again: "pcs m t = Returned r \<Longrightarrow> gp_step auth m (m\<lparr>pcs := (pcs m)(t := Idle)\<rparr>)"

definition gp_init :: "'w \<Rightarrow> ('w, 'p) mstate" where
  "gp_init w0 = \<lparr>pcs = (\<lambda>_. Idle), holder = None, shared = w0, returns = []\<rparr>"

definition gp_reachable ::
  "('s, 'p) go \<Rightarrow> ('s, 'p) idworld \<Rightarrow> (('s, 'p) idworld, 'p) mstate \<Rightarrow> bool" where
  "gp_reachable auth w0 = (gp_step auth)\<^sup>*\<^sup>* (gp_init w0)"

lemma gp_start: "gp_reachable auth w0 (gp_init w0)"
  by (simp add: gp_reachable_def)

lemma gp_next: "gp_reachable auth w0 m \<Longrightarrow> gp_step auth m m' \<Longrightarrow> gp_reachable auth w0 m'"
  unfolding gp_reachable_def by (rule rtranclp.rtrancl_into_rtrancl)

definition inside :: "'p pc \<Rightarrow> bool" where
  "inside pc \<longleftrightarrow> pc = Locked \<or> pc = Authenticating"

lemma inside_simps [simp]:
  "inside Locked" "inside Authenticating" "\<not> inside Idle" "\<not> inside Waiting" "\<not> inside (Returned r)"
  by (simp_all add: inside_def)

text \<open>
  The invariant: the mutex names the one goroutine inside; a goroutine that authenticates does so
  because nothing is cached; and what has been returned so far, with the shared state, is what the
  same number of atomic calls gives.
\<close>

definition gp_inv ::
  "('s, 'p) go \<Rightarrow> ('s, 'p) idworld \<Rightarrow> (('s, 'p) idworld, 'p) mstate \<Rightarrow> bool" where
  "gp_inv auth w0 m \<longleftrightarrow>
     (\<forall>t. inside (pcs m t) \<longleftrightarrow> holder m = Some t) \<and>
     (\<forall>t. pcs m t = Authenticating \<longrightarrow> cached (shared m) = None) \<and>
     seq_calls (cachedClient auth) (length (returns m)) w0 = (returns m, shared m)"

lemma gp_inv_leave:
  assumes inv: "gp_inv auth w0 m" and "inside (pcs m t)"
    and run: "cachedClient auth (shared m) = (r, w')"
  shows "gp_inv auth w0 (leave t r w' m)"
proof -
  have hold: "\<And>u. inside (pcs m u) \<longleftrightarrow> u = t"
    using inv assms(2) by (auto simp: gp_inv_def)
  have "\<not> inside (pcs m u)" if "u \<noteq> t" for u
    using hold that by simp
  then have "pcs m u \<noteq> Authenticating" if "u \<noteq> t" for u
    using that by (metis inside_simps(2))
  then show ?thesis
    using inv run hold by (auto simp: gp_inv_def leave_def)
qed

lemma gp_inv_pc:
  assumes "gp_inv auth w0 m" and "inside pc' = inside (pcs m t)"
    and "pc' = Authenticating \<Longrightarrow> cached (shared m) = None"
  shows "gp_inv auth w0 (m\<lparr>pcs := (pcs m)(t := pc')\<rparr>)"
  using assms by (auto simp: gp_inv_def)

lemma gp_step_inv:
  assumes "gp_step auth m m'" and "gp_inv auth w0 m"
  shows "gp_inv auth w0 m'"
  using assms
proof (induction rule: gp_step.induct)
  case (cache_hit m t p)
  then show ?case by (simp add: gp_inv_leave cachedClient_hit)
next
  case (auth_ok m t p w')
  then have "cached (shared m) = None" by (auto simp: gp_inv_def)
  with auth_ok show ?case by (simp add: gp_inv_leave cachedClient_miss)
next
  case (auth_error m t e w')
  then have "cached (shared m) = None" by (auto simp: gp_inv_def)
  with auth_error show ?case by (simp add: gp_inv_leave cachedClient_miss)
next
  case (auth_panic m t s w')
  then have "cached (shared m) = None" by (auto simp: gp_inv_def)
  with auth_panic show ?case by (simp add: gp_inv_leave cachedClient_miss)
next
  case (again m t r)
  then show ?case by (auto intro!: gp_inv_pc)
next
  case (call m t)
  then show ?case by (auto intro!: gp_inv_pc)
next
  case (lock m t)
  then show ?case by (auto simp: gp_inv_def)
next
  case (start_auth m t)
  then show ?case by (auto intro!: gp_inv_pc)
qed

interpretation gp_machine: step_invariant "gp_step auth" "gp_inv auth w0" for auth w0
  by unfold_locales (rule gp_step_inv)

lemma gp_reachable_inv: "gp_reachable auth w0 m \<Longrightarrow> gp_inv auth w0 m"
  unfolding gp_reachable_def by (erule gp_machine.kept) (simp add: gp_inv_def gp_init_def)

lemma gp_mutual_exclusion:
  "gp_reachable auth w0 m \<Longrightarrow> pcs m t = Authenticating \<Longrightarrow> inside (pcs m u) \<Longrightarrow> t = u"
  by (drule gp_reachable_inv) (auto simp: gp_inv_def)

text \<open>
  C22: goroutines that call \<open>GetProvider\<close> at the same time see a sequence of atomic calls: in every
  reachable state of the mutex machine the results returned so far (in the order of the unlocks)
  and the shared state are those of that many calls made one after the other, and they consist of
  failed attempts followed by one and the same client. The provider authenticates successfully at
  most once, whatever the interleaving.
\<close>

theorem GetProvider_linearizable:
  assumes "gp_reachable (authenticate I prov) w0 m" and "cached w0 = None"
  shows "seq_calls (GetProvider I prov) (length (returns m)) w0 = (returns m, shared m) \<and>
    (\<exists>fails k p. returns m = fails @ replicate k (Ok p) \<and> (\<forall>r \<in> set fails. \<forall>q. r \<noteq> Ok q) \<and>
       (if k = 0 then cached (shared m) = None else cached (shared m) = Some p))"
proof -
  have "seq_calls (GetProvider I prov) (length (returns m)) w0 = (returns m, shared m)"
    using gp_reachable_inv [OF assms(1)] by (simp add: gp_inv_def GetProvider_cachedClient)
  then show ?thesis using gp.calls_shape assms(2) by blast
qed

text \<open>
  C29: the mutex of \<open>GetProvider\<close> works: while one goroutine authenticates no other goroutine is
  between \<open>Lock\<close> and \<open>Unlock\<close>, and no client is cached, so a cached client is never replaced.
\<close>

theorem authenticate_exclusive:
  assumes "gp_reachable (authenticate I prov) w0 m" and "pcs m t = Authenticating"
  shows "cached (shared m) = None \<and> (\<forall>u. u \<noteq> t \<longrightarrow> pcs m u \<noteq> Locked \<and> pcs m u \<noteq> Authenticating)"
  using gp_reachable_inv [OF assms(1)] assms gp_mutual_exclusion [OF assms]
  by (auto simp: gp_inv_def inside_def)

text \<open>A run of one goroutine whose first login fails and whose second call succeeds.\<close>

definition iam0 :: "(nat, nat) idworld" where
  "iam0 = \<lparr>iam_state = 0, cached = None\<rparr>"

definition authState :: "((nat, nat) idworld, nat) mstate" where
  "authState = \<lparr>pcs = (\<lambda>_. Idle)(0 := Authenticating), holder = Some 0, shared = iam0, returns = []\<rparr>"

lemma authState_reachable: "gp_reachable (authenticate flakyIam passwordProvider) iam0 authState"
proof -
  let ?A = "authenticate flakyIam passwordProvider"
  note r0 = gp_start [of ?A iam0]
  note r1 = gp_next [OF r0 call [of _ 0]]
  note r2 = gp_next [OF r1 lock [of _ 0]]
  note r3 = gp_next [OF r2 start_auth [of _ 0]]
  show ?thesis using r3 by (simp add: gp_init_def authState_def iam0_def)
qed

definition failedState :: "((nat, nat) idworld, nat) mstate" where
  "failedState = leave 0 (Fail (Wrapf ''authentication failed: %w'' [] (Http 401))) (iam0\<lparr>iam_state := 1\<rparr>) authState"

lemma failedState_reachable: "gp_reachable (authenticate flakyIam passwordProvider) iam0 failedState"
  unfolding failedState_def
  by (rule gp_next [OF authState_reachable], rule auth_error)
    (simp_all add: authState_def onIam_def flaky_authenticate iam0_def)

theorem GetProvider_linearizable_witness:
  "seq_calls (GetProvider flakyIam passwordProvider) 1 iam0 = (returns failedState, shared failedState) \<and>
   returns failedState = [Fail (Wrapf ''authentication failed: %w'' [] (Http 401))]"
proof -
  have r: "returns failedState = [Fail (Wrapf ''authentication failed: %w'' [] (Http 401))]"
    by (simp add: failedState_def leave_def authState_def)
  have "cached iam0 = None" by (simp add: iam0_def)
  from GetProvider_linearizable [OF failedState_reachable this] r show ?thesis by simp
qed

theorem authenticate_exclusive_witness:
  "pcs authState 0 = Authenticating \<and> cached (shared authState) = None \<and> pcs authState 1 \<noteq> Locked"
proof -
  have a: "pcs authState 0 = Authenticating" by (simp add: authState_def)
  from authenticate_exclusive [OF authState_reachable a] a show ?thesis by simp
qed

subsection \<open>The refresh goroutine\<close>

text \<open>
  \<open>tick\<close> is the ticker's channel, which holds one tick at most; \<open>stopped\<close> is a closed stop
  channel. When both are ready, \<open>select\<close> may take either. \<open>user\<close> steps are calls of
  \<open>GetProvider\<close> from other goroutines, atomic by the section above. A panic below either of them ends the
  whole process: \<open>dead\<close>, after which nothing steps.
\<close>

record ('s, 'p) loop =
  running :: bool
  tick :: bool
  stopped :: bool
  lworld :: "('s, 'p) idworld"
  refreshes :: nat \<comment> \<open>how many ticks the loop has handled\<close>
  fired :: nat \<comment> \<open>how many ticks the ticker has produced\<close>
  dead :: bool \<comment> \<open>the process has panicked\<close>

fun panicked :: "'a res \<Rightarrow> bool" where
  "panicked (Panicked s) = True"
| "panicked r = False"

inductive loop_step ::
  "('s, 'p, 'k) iam \<Rightarrow> IdentityProvider \<Rightarrow> ('s, 'p) loop \<Rightarrow> ('s, 'p) loop \<Rightarrow> bool"
  for I :: "('s, 'p, 'k) iam" and c :: IdentityProvider where
  ticker: "\<not> dead l \<Longrightarrow> running l \<Longrightarrow> loop_step I c l (l\<lparr>tick := True, fired := Suc (fired l)\<rparr>)"
| close_stop: "\<not> dead l \<Longrightarrow> loop_step I c l (l\<lparr>stopped := True\<rparr>)"
| exit: "\<not> dead l \<Longrightarrow> running l \<Longrightarrow> stopped l \<Longrightarrow> loop_step I c l (l\<lparr>running := False\<rparr>)"
| refresh: "\<not> dead l \<Longrightarrow> running l \<Longrightarrow> tick l \<Longrightarrow> refreshTick I c (lworld l) = (r, w') \<Longrightarrow>
     loop_step I c l (l\<lparr>tick := False, lworld := w', refreshes := Suc (refreshes l), dead := panicked r\<rparr>)"
| user: "\<not> dead l \<Longrightarrow> GetProvider I c (lworld l) = (r, w') \<Longrightarrow>
     loop_step I c l (l\<lparr>lworld := w', dead := panicked r\<rparr>)"

definition loop_init :: "('s, 'p) idworld \<Rightarrow> ('s, 'p) loop" where
  "loop_init w = \<lparr>running = True, tick = False, stopped = False, lworld = w, refreshes = 0, fired = 0, dead = False\<rparr>"

definition loop_reach ::
  "('s, 'p, 'k) iam \<Rightarrow> IdentityProvider \<Rightarrow> ('s, 'p) loop \<Rightarrow> ('s, 'p) loop \<Rightarrow> bool" where
  "loop_reach I c = (loop_step I c)\<^sup>*\<^sup>*"

lemma loop_here: "loop_reach I c l0 l0"
  by (simp add: loop_reach_def)

lemma loop_next: "loop_reach I c l0 l \<Longrightarrow> loop_step I c l l' \<Longrightarrow> loop_reach I c l0 l'"
  unfolding loop_reach_def by (rule rtranclp.rtrancl_into_rtrancl)

definition loop_inv :: "('s, 'p) loop \<Rightarrow> bool" where
  "loop_inv l \<longleftrightarrow> (\<not> running l \<longrightarrow> stopped l) \<and>
     refreshes l + (if tick l then 1 else 0) \<le> fired l"

lemma loop_step_inv: "loop_step I c l l' \<Longrightarrow> loop_inv l \<Longrightarrow> loop_inv l'"
  by (induction rule: loop_step.induct) (auto simp: loop_inv_def split: if_splits)

interpretation loop_count: step_invariant "loop_step I c" loop_inv for I :: "('s, 'p, 'k) iam" and c
  by unfold_locales (rule loop_step_inv)

lemma loop_step_cached:
  assumes "loop_step I c l l'" and "cached (lworld l) = Some p"
  shows "cached (lworld l') = Some p"
  using assms
proof (induction rule: loop_step.induct)
  case (refresh l r w')
  then show ?case using refreshTick_result [OF refresh.hyps(4)] by simp
next
  case (user l r w')
  then show ?case by (auto simp: gp.hit)
qed simp_all

interpretation loop_cache: step_invariant "loop_step I c" "\<lambda>l. cached (lworld l) = Some p" for I :: "('s, 'p, 'k) iam" and c p
  by unfold_locales (rule loop_step_cached)

interpretation loop_exited: step_invariant "loop_step I c" "\<lambda>l. \<not> running l \<and> refreshes l = n" for I :: "('s, 'p, 'k) iam" and c n
  by unfold_locales (erule loop_step.cases; simp)

text \<open>
  C30: the refresh goroutine ends only because its stop channel was closed (an error of the refresh
  never ends it), handles at most one refresh per tick, refreshes nothing any more once it has
  ended, and never replaces the client that callers share.
\<close>

theorem refreshLoop_safe:
  assumes "loop_reach I c (loop_init w) l"
  shows "(running l \<or> stopped l) \<and> refreshes l \<le> fired l \<and>
    (\<forall>p. cached w = Some p \<longrightarrow> cached (lworld l) = Some p) \<and>
    (running l \<or> (\<forall>l'. loop_reach I c l l' \<longrightarrow> refreshes l' = refreshes l))"
proof -
  note run = assms [unfolded loop_reach_def]
  have "loop_inv l"
    using loop_count.kept [OF run] by (simp add: loop_inv_def loop_init_def)
  moreover have "\<forall>p. cached w = Some p \<longrightarrow> cached (lworld l) = Some p"
    using loop_cache.kept [OF run] by (simp add: loop_init_def)
  moreover have "refreshes l' = refreshes l" if "loop_reach I c l l'" "\<not> running l" for l'
    using loop_exited.kept [OF that(1) [unfolded loop_reach_def]] that(2) by blast
  ultimately show ?thesis
    by (fastforce simp: loop_inv_def split: if_splits)
qed

definition tickedLoop :: "(nat, nat) loop" where
  "tickedLoop = (loop_init iam0)\<lparr>tick := True, fired := 1\<rparr>"

lemma tickedLoop_reach: "loop_reach flakyIam passwordProvider (loop_init iam0) tickedLoop"
  unfolding tickedLoop_def
  by (rule loop_next [OF loop_here]) (use ticker [of "loop_init iam0"] in \<open>simp add: loop_init_def\<close>)

theorem refreshLoop_safe_witness:
  "loop_reach flakyIam passwordProvider (loop_init iam0) tickedLoop \<and> refreshes tickedLoop \<le> 1"
  using tickedLoop_reach refreshLoop_safe [OF tickedLoop_reach] by (simp add: tickedLoop_def)

text \<open>A running goroutine can end when stopped and goes on after a refresh, failed or not.\<close>

lemma refreshLoop_progress:
  assumes "running l" and "\<not> dead l"
  shows "(stopped l \<longrightarrow> loop_step I c l (l\<lparr>running := False\<rparr>)) \<and>
    (tick l \<longrightarrow> (\<exists>l'. loop_step I c l l' \<and> running l' \<and> \<not> tick l' \<and> refreshes l' = Suc (refreshes l)))"
proof (intro conjI impI)
  show "loop_step I c l (l\<lparr>running := False\<rparr>)" if "stopped l"
    using assms that by (blast intro: loop_step.exit)
  assume "tick l"
  obtain r w' where "refreshTick I c (lworld l) = (r, w')"
    by (cases "refreshTick I c (lworld l)")
  from loop_step.refresh [OF assms(2,1) \<open>tick l\<close> this]
  show "\<exists>l'. loop_step I c l l' \<and> running l' \<and> \<not> tick l' \<and> refreshes l' = Suc (refreshes l)"
    using assms(1)
    by (intro exI [of _ "l\<lparr>tick := False, lworld := w', refreshes := Suc (refreshes l), dead := panicked r\<rparr>"] conjI) simp_all
qed

end
