(* ===== verification/Service_Settings.thy ===== *)
theory Service_Settings
  imports Cloud_Config "HOL-Library.Signed_Division" "HOL-Library.Word"
begin

section \<open>Services, nodes and effective settings: \<open>pkg/elb/annotations.go\<close>\<close>

text \<open>
  The Kubernetes objects the balancer reads (the fields it uses of \<open>v1.Service\<close> and
  \<open>v1.Node\<close>) and the merge of the cloud configuration's defaults with a Service's annotations.
  Ports are only compared, printed and widened, so they are \<open>int\<close>; the affinity timeout is
  computed with and keeps its 32 bits. Annotation values are integers of Go's 64-bit \<open>int\<close>,
  which \<open>Atoi\<close> enforces.
\<close>

subsection \<open>Kubernetes objects\<close>

record ServicePort =
  Protocol :: string
  Port :: int
  NodePort :: int

record ClientIPConfig =
  TimeoutSeconds :: "32 word option" \<comment> \<open>\<open>*int32\<close>\<close>

record SessionAffinityConfig =
  ClientIP :: "ClientIPConfig option"

record Service =
  Namespace :: string
  ServiceName :: string
  Annotations :: "string \<rightharpoonup> string"
  Ports :: "ServicePort list"
  LoadBalancerIP :: string
  SessionAffinity :: string
  AffinityConfig :: "SessionAffinityConfig option"
  ExternalTrafficPolicy :: string
  HealthCheckNodePort :: int
  LoadBalancerSourceRanges :: "string list"

record NodeAddress =
  AddrType :: string
  Address :: string

record Node =
  NodeName :: string
  Addresses :: "NodeAddress list"

subsection \<open>Annotation keys\<close>

definition AnnotationPrefix :: string where
  "AnnotationPrefix = ''loadbalancer.opentelekomcloud.com/''"

definition AnnotationID where "AnnotationID = AnnotationPrefix @ ''id''"
definition AnnotationSubnetID where "AnnotationSubnetID = AnnotationPrefix @ ''subnet-id''"
definition AnnotationVpcID where "AnnotationVpcID = AnnotationPrefix @ ''vpc-id''"
definition AnnotationAvailabilityZones where
  "AnnotationAvailabilityZones = AnnotationPrefix @ ''availability-zones''"
definition AnnotationL4FlavorID where "AnnotationL4FlavorID = AnnotationPrefix @ ''l4-flavor-id''"
definition AnnotationLBAlgorithm where "AnnotationLBAlgorithm = AnnotationPrefix @ ''lb-algorithm''"
definition AnnotationEipIDs where "AnnotationEipIDs = AnnotationPrefix @ ''eip-ids''"
definition AnnotationEipBandwidth where "AnnotationEipBandwidth = AnnotationPrefix @ ''eip-bandwidth''"
definition AnnotationEipType where "AnnotationEipType = AnnotationPrefix @ ''eip-type''"
definition AnnotationEipKeep where "AnnotationEipKeep = AnnotationPrefix @ ''eip-keep''"
definition AnnotationIdleTimeout where "AnnotationIdleTimeout = AnnotationPrefix @ ''idle-timeout''"
definition AnnotationHealthCheckEnabled where
  "AnnotationHealthCheckEnabled = AnnotationPrefix @ ''health-check-enabled''"
definition AnnotationHealthCheckDelay where
  "AnnotationHealthCheckDelay = AnnotationPrefix @ ''health-check-delay''"
definition AnnotationHealthCheckTimeout where
  "AnnotationHealthCheckTimeout = AnnotationPrefix @ ''health-check-timeout''"
definition AnnotationHealthCheckMaxRetries where
  "AnnotationHealthCheckMaxRetries = AnnotationPrefix @ ''health-check-max-retries''"
definition AnnotationHealthCheckProtocol where
  "AnnotationHealthCheckProtocol = AnnotationPrefix @ ''health-check-protocol''"
definition AnnotationHealthCheckURLPath where
  "AnnotationHealthCheckURLPath = AnnotationPrefix @ ''health-check-url-path''"
definition AnnotationHealthCheckHTTPMethod where
  "AnnotationHealthCheckHTTPMethod = AnnotationPrefix @ ''health-check-http-method''"

lemmas annotation_defs =
  AnnotationPrefix_def AnnotationID_def AnnotationSubnetID_def AnnotationVpcID_def
  AnnotationAvailabilityZones_def AnnotationL4FlavorID_def AnnotationLBAlgorithm_def
  AnnotationEipIDs_def AnnotationEipBandwidth_def AnnotationEipType_def AnnotationEipKeep_def
  AnnotationIdleTimeout_def AnnotationHealthCheckEnabled_def AnnotationHealthCheckDelay_def
  AnnotationHealthCheckTimeout_def AnnotationHealthCheckMaxRetries_def
  AnnotationHealthCheckProtocol_def AnnotationHealthCheckURLPath_def
  AnnotationHealthCheckHTTPMethod_def

subsection \<open>Settings\<close>

record serviceSettings =
  LoadBalancerID :: string
  SubnetID :: string
  VpcID :: string
  AvailabilityZones :: "string list"
  L4FlavorID :: string
  LBAlgorithm :: string
  EipIDs :: "string list"
  EipBandwidth :: int
  EipType :: string
  EipKeep :: bool
  IdleTimeout :: int
  HealthCheckEnabled :: bool
  HealthCheckDelay :: int
  HealthCheckTimeout :: int
  HealthCheckMaxRetries :: int
  HealthCheckProtocol :: string
  HealthCheckURLPath :: string
  HealthCheckHTTPMethod :: string

text \<open>\<open>ann[key]\<close>, the empty string when absent.\<close>

definition annStr :: "(string \<rightharpoonup> string) \<Rightarrow> string \<Rightarrow> string" where
  "annStr ann key = (case ann key of None \<Rightarrow> '''' | Some v \<Rightarrow> v)"

definition splitTrim :: "string \<Rightarrow> string list" where
  "splitTrim v = filter (\<lambda>p. p \<noteq> '''') (map TrimSpace (split_on CHR '','' v))"

definition annBool :: "(string \<rightharpoonup> string) \<Rightarrow> string \<Rightarrow> bool \<Rightarrow> err + bool" where
  "annBool ann key d =
     (case ann key of None \<Rightarrow> Inr d
      | Some v \<Rightarrow> if v = '''' then Inr d
          else case ParseBool v of
                 Inl e \<Rightarrow> Inl (Wrapf ''invalid value %q for annotation %s: %w'' [v, key] e)
               | Inr b \<Rightarrow> Inr b)"

definition annInt :: "(string \<rightharpoonup> string) \<Rightarrow> string \<Rightarrow> int \<Rightarrow> err + int" where
  "annInt ann key d =
     (case ann key of None \<Rightarrow> Inr d
      | Some v \<Rightarrow> if v = '''' then Inr d
          else case Atoi v of
                 Inl e \<Rightarrow> Inl (Wrapf ''invalid value %q for annotation %s: %w'' [v, key] e)
               | Inr i \<Rightarrow> Inr i)"

text \<open>Sequencing of the merge's steps: \<open>if err != nil { return nil, err }\<close>.\<close>

definition bindS :: "err + 'a \<Rightarrow> ('a \<Rightarrow> err + 'b) \<Rightarrow> err + 'b" where
  "bindS m f = (case m of Inl e \<Rightarrow> Inl e | Inr x \<Rightarrow> f x)"

definition healthProtocols :: "string list" where
  "healthProtocols = [''TCP'', ''HTTP'', ''HTTPS'']"

definition httpMethods :: "string list" where
  "httpMethods = [''GET'', ''HEAD'', ''POST'', ''PUT'', ''DELETE'', ''TRACE'', ''OPTIONS'', ''CONNECT'', ''PATCH'']"

text \<open>The struct literal and the default algorithm (lines 103 to 116).\<close>

definition defaultSettings :: "LoadBalancerOpts \<Rightarrow> serviceSettings" where
  "defaultSettings d = \<lparr>LoadBalancerID = '''', SubnetID = def_SubnetID d, VpcID = def_VpcID d,
     AvailabilityZones = def_AvailabilityZones d, L4FlavorID = def_L4FlavorID d,
     LBAlgorithm = (if def_LBAlgorithm d = '''' then ''ROUND_ROBIN'' else def_LBAlgorithm d),
     EipIDs = [], EipBandwidth = 0, EipType = '''', EipKeep = False, IdleTimeout = 0,
     HealthCheckEnabled = def_HealthCheckEnabled d, HealthCheckDelay = def_HealthCheckDelay d,
     HealthCheckTimeout = def_HealthCheckTimeout d, HealthCheckMaxRetries = def_HealthCheckMaxRetries d,
     HealthCheckProtocol = '''', HealthCheckURLPath = '''', HealthCheckHTTPMethod = ''''\<rparr>"

text \<open>The string overrides (lines 118 to 139).\<close>

definition applyStringAnnotations :: "(string \<rightharpoonup> string) \<Rightarrow> serviceSettings \<Rightarrow> serviceSettings" where
  "applyStringAnnotations ann s =
     (let s = (let v = annStr ann AnnotationID in if v \<noteq> '''' then s\<lparr>LoadBalancerID := v\<rparr> else s);
          s = (let v = annStr ann AnnotationSubnetID in if v \<noteq> '''' then s\<lparr>SubnetID := v\<rparr> else s);
          s = (let v = annStr ann AnnotationVpcID in if v \<noteq> '''' then s\<lparr>VpcID := v\<rparr> else s);
          s = (let v = annStr ann AnnotationAvailabilityZones
               in if v \<noteq> '''' then s\<lparr>AvailabilityZones := splitTrim v\<rparr> else s);
          s = (let v = annStr ann AnnotationL4FlavorID in if v \<noteq> '''' then s\<lparr>L4FlavorID := v\<rparr> else s);
          s = (let v = annStr ann AnnotationLBAlgorithm in if v \<noteq> '''' then s\<lparr>LBAlgorithm := v\<rparr> else s);
          s = (let v = annStr ann AnnotationEipIDs in if v \<noteq> '''' then s\<lparr>EipIDs := splitTrim v\<rparr> else s)
      in s)"

text \<open>The EIP annotations and the idle timeout (lines 141 to 163).\<close>

definition applyEipAnnotations :: "(string \<rightharpoonup> string) \<Rightarrow> serviceSettings \<Rightarrow> err + serviceSettings" where
  "applyEipAnnotations ann s =
     bindS (annInt ann AnnotationEipBandwidth 0) (\<lambda>bw.
     if bw < 0 then
       Inl (Errorf ''invalid value %d for annotation %s: must be > 0'' [dec_int bw, AnnotationEipBandwidth])
     else if bw > 0 \<and> EipIDs s \<noteq> [] then
       Inl (Errorf ''annotations %s and %s are mutually exclusive'' [AnnotationEipIDs, AnnotationEipBandwidth])
     else
       let v = annStr ann AnnotationEipType;
           s = s\<lparr>EipBandwidth := bw, EipType := (if v \<noteq> '''' then v else ''5_bgp'')\<rparr>
       in bindS (annBool ann AnnotationEipKeep False) (\<lambda>keep.
          bindS (annInt ann AnnotationIdleTimeout 0) (\<lambda>idle.
          if idle < 0 then
            Inl (Errorf ''invalid value %d for annotation %s: must be >= 0'' [dec_int idle, AnnotationIdleTimeout])
          else Inr (s\<lparr>EipKeep := keep, IdleTimeout := idle\<rparr>))))"

text \<open>The health check annotations (lines 164 to 200).\<close>

definition applyHealthAnnotations :: "(string \<rightharpoonup> string) \<Rightarrow> serviceSettings \<Rightarrow> err + serviceSettings" where
  "applyHealthAnnotations ann s =
     bindS (annBool ann AnnotationHealthCheckEnabled (HealthCheckEnabled s)) (\<lambda>enabled.
     bindS (annInt ann AnnotationHealthCheckDelay (HealthCheckDelay s)) (\<lambda>delay.
     bindS (annInt ann AnnotationHealthCheckTimeout (HealthCheckTimeout s)) (\<lambda>timeout.
     bindS (annInt ann AnnotationHealthCheckMaxRetries (HealthCheckMaxRetries s)) (\<lambda>retries.
     bindS (let v = annStr ann AnnotationHealthCheckProtocol; proto = ToUpper v
            in if v = '''' then Inr (HealthCheckProtocol s)
               else if proto \<in> set healthProtocols then Inr proto
               else Inl (Errorf ''invalid value %q for annotation %s: must be TCP, HTTP or HTTPS''
                      [v, AnnotationHealthCheckProtocol])) (\<lambda>proto.
     bindS (let v = annStr ann AnnotationHealthCheckURLPath
            in if v = '''' then Inr (HealthCheckURLPath s)
               else if HasPrefix v ''/'' then Inr v
               else Inl (Errorf ''invalid value %q for annotation %s: must start with /''
                      [v, AnnotationHealthCheckURLPath])) (\<lambda>path.
     bindS (let v = annStr ann AnnotationHealthCheckHTTPMethod; m = ToUpper v
            in if v = '''' then Inr (HealthCheckHTTPMethod s)
               else if m \<in> set httpMethods then Inr m
               else Inl (Errorf ''invalid value %q for annotation %s: not a valid HTTP method''
                      [v, AnnotationHealthCheckHTTPMethod])) (\<lambda>m.
     Inr (s\<lparr>HealthCheckEnabled := enabled, HealthCheckDelay := delay, HealthCheckTimeout := timeout,
        HealthCheckMaxRetries := retries, HealthCheckProtocol := proto, HealthCheckURLPath := path,
        HealthCheckHTTPMethod := m\<rparr>))))))))"

definition settingsForService :: "LoadBalancerOpts \<Rightarrow> Service \<Rightarrow> err + serviceSettings" where
  "settingsForService d service =
     (let ann = Annotations service;
          s = applyStringAnnotations ann (defaultSettings d)
      in bindS (applyEipAnnotations ann s) (applyHealthAnnotations ann))"

subsection \<open>Splitting comma-separated lists\<close>

fun join_comma :: "string list \<Rightarrow> string" where
  "join_comma [] = []"
| "join_comma [p] = p"
| "join_comma (p # q # ps) = p @ CHR '','' # join_comma (q # ps)"

definition clean_item :: "string \<Rightarrow> bool" where
  "clean_item p \<longleftrightarrow> p \<noteq> '''' \<and> CHR '','' \<notin> set p \<and> TrimSpace p = p"

lemma split_on_no_sep: "c \<notin> set p \<Longrightarrow> split_on c p = [p]"
  by (induction p) auto

lemma split_on_sep: "c \<notin> set p \<Longrightarrow> split_on c (p @ c # s) = p # split_on c s"
  by (induction p) auto

lemma split_on_join: "ps \<noteq> [] \<Longrightarrow> \<forall>p \<in> set ps. CHR '','' \<notin> set p \<Longrightarrow> split_on CHR '','' (join_comma ps) = ps"
  by (induction ps rule: join_comma.induct) (auto simp: split_on_no_sep split_on_sep)

lemma splitTrim_items: "p \<in> set (splitTrim v) \<Longrightarrow> clean_item p"
  using split_on_pieces set_TrimSpace by (fastforce simp: splitTrim_def clean_item_def)

lemma splitTrim_Nil [simp]: "splitTrim '''' = []"
  by (simp add: splitTrim_def TrimSpace_def)

text \<open>Comma-separated annotations are read back exactly.\<close>

lemma splitTrim_roundtrip:
  assumes "\<forall>p \<in> set ps. clean_item p"
  shows "splitTrim (join_comma ps) = ps \<and> (\<forall>v. \<forall>p \<in> set (splitTrim v). clean_item p)"
proof -
  have "splitTrim (join_comma ps) = ps"
  proof (cases "ps = []")
    case False
    have "map TrimSpace ps = ps" and "filter (\<lambda>p. p \<noteq> '''') ps = ps"
      using assms by (auto simp: clean_item_def map_idI filter_id_conv)
    then show ?thesis
      using False assms by (simp add: splitTrim_def split_on_join clean_item_def)
  qed simp
  then show ?thesis using splitTrim_items by blast
qed

subsection \<open>Which annotations are accepted\<close>

lemma bindS_simps [simp]: "bindS (Inl e) f = Inl e" "bindS (Inr x) f = f x"
  by (simp_all add: bindS_def)

lemma bindS_InrE: "bindS m f = Inr y \<Longrightarrow> (\<And>x. m = Inr x \<Longrightarrow> f x = Inr y \<Longrightarrow> P) \<Longrightarrow> P"
  by (cases m) simp_all

lemma annInt_annStr:
  "annInt ann key d =
     (if annStr ann key = '''' then Inr d
      else case Atoi (annStr ann key) of
             Inl e \<Rightarrow> Inl (Wrapf ''invalid value %q for annotation %s: %w'' [annStr ann key, key] e)
           | Inr i \<Rightarrow> Inr i)"
  by (cases "ann key") (auto simp: annInt_def annStr_def split: sum.splits)

lemma annBool_annStr:
  "annBool ann key d =
     (if annStr ann key = '''' then Inr d
      else case ParseBool (annStr ann key) of
             Inl e \<Rightarrow> Inl (Wrapf ''invalid value %q for annotation %s: %w'' [annStr ann key, key] e)
           | Inr b \<Rightarrow> Inr b)"
  by (cases "ann key") (auto simp: annBool_def annStr_def split: sum.splits)

definition int_ok :: "string \<Rightarrow> bool" where
  "int_ok v \<longleftrightarrow> v = '''' \<or> (\<exists>i. Atoi v = Inr i)"

definition bool_ok :: "string \<Rightarrow> bool" where
  "bool_ok v \<longleftrightarrow> v = '''' \<or> (\<exists>b. ParseBool v = Inr b)"

definition int_of :: "string \<Rightarrow> int \<Rightarrow> int" where
  "int_of v d = (if v = '''' then d else case Atoi v of Inl e \<Rightarrow> d | Inr i \<Rightarrow> i)"

definition bool_of :: "string \<Rightarrow> bool \<Rightarrow> bool" where
  "bool_of v d = (if v = '''' then d else case ParseBool v of Inl e \<Rightarrow> d | Inr b \<Rightarrow> b)"

lemma annInt_iff: "annInt ann key d = Inr i \<longleftrightarrow> int_ok (annStr ann key) \<and> i = int_of (annStr ann key) d"
  by (auto simp: annInt_annStr int_ok_def int_of_def split: sum.splits)

lemma annBool_iff: "annBool ann key d = Inr b \<longleftrightarrow> bool_ok (annStr ann key) \<and> b = bool_of (annStr ann key) d"
  by (auto simp: annBool_annStr bool_ok_def bool_of_def split: sum.splits)

lemma annInt_Inr: "int_ok (annStr ann key) \<Longrightarrow> annInt ann key d = Inr (int_of (annStr ann key) d)"
  by (simp add: annInt_iff)

lemma annBool_Inr: "bool_ok (annStr ann key) \<Longrightarrow> annBool ann key d = Inr (bool_of (annStr ann key) d)"
  by (simp add: annBool_iff)

lemma annInt_bad: "\<not> int_ok (annStr ann key) \<Longrightarrow> \<exists>e. annInt ann key d = Inl e"
  by (cases "annInt ann key d") (auto simp: annInt_iff)

lemma annBool_bad: "\<not> bool_ok (annStr ann key) \<Longrightarrow> \<exists>e. annBool ann key d = Inl e"
  by (cases "annBool ann key d") (auto simp: annBool_iff)

text \<open>The specification: what \<open>docs/loadbalancer.md\<close> and the code accept.\<close>

definition annotations_ok :: "(string \<rightharpoonup> string) \<Rightarrow> bool" where
  "annotations_ok ann \<longleftrightarrow>
     (let v = annStr ann; bw = int_of (v AnnotationEipBandwidth) 0 in
      (\<forall>k \<in> {AnnotationEipBandwidth, AnnotationIdleTimeout, AnnotationHealthCheckDelay,
              AnnotationHealthCheckTimeout, AnnotationHealthCheckMaxRetries}. int_ok (v k)) \<and>
      bool_ok (v AnnotationEipKeep) \<and> bool_ok (v AnnotationHealthCheckEnabled) \<and>
      0 \<le> bw \<and> (0 < bw \<longrightarrow> splitTrim (v AnnotationEipIDs) = []) \<and>
      0 \<le> int_of (v AnnotationIdleTimeout) 0 \<and>
      (v AnnotationHealthCheckProtocol = '''' \<or> ToUpper (v AnnotationHealthCheckProtocol) \<in> set healthProtocols) \<and>
      (v AnnotationHealthCheckURLPath = '''' \<or> HasPrefix (v AnnotationHealthCheckURLPath) ''/'') \<and>
      (v AnnotationHealthCheckHTTPMethod = '''' \<or> ToUpper (v AnnotationHealthCheckHTTPMethod) \<in> set httpMethods))"

text \<open>The settings of an accepted Service, field by field.\<close>

definition override :: "string \<Rightarrow> string \<Rightarrow> string" where
  "override v d = (if v = '''' then d else v)"

definition mergedSettings :: "LoadBalancerOpts \<Rightarrow> (string \<rightharpoonup> string) \<Rightarrow> serviceSettings" where
  "mergedSettings d ann =
     (let v = annStr ann in
      \<lparr>LoadBalancerID = v AnnotationID,
       SubnetID = override (v AnnotationSubnetID) (def_SubnetID d),
       VpcID = override (v AnnotationVpcID) (def_VpcID d),
       AvailabilityZones = (if v AnnotationAvailabilityZones = '''' then def_AvailabilityZones d
                            else splitTrim (v AnnotationAvailabilityZones)),
       L4FlavorID = override (v AnnotationL4FlavorID) (def_L4FlavorID d),
       LBAlgorithm = override (v AnnotationLBAlgorithm) (override (def_LBAlgorithm d) ''ROUND_ROBIN''),
       EipIDs = splitTrim (v AnnotationEipIDs),
       EipBandwidth = int_of (v AnnotationEipBandwidth) 0,
       EipType = override (v AnnotationEipType) ''5_bgp'',
       EipKeep = bool_of (v AnnotationEipKeep) False,
       IdleTimeout = int_of (v AnnotationIdleTimeout) 0,
       HealthCheckEnabled = bool_of (v AnnotationHealthCheckEnabled) (def_HealthCheckEnabled d),
       HealthCheckDelay = int_of (v AnnotationHealthCheckDelay) (def_HealthCheckDelay d),
       HealthCheckTimeout = int_of (v AnnotationHealthCheckTimeout) (def_HealthCheckTimeout d),
       HealthCheckMaxRetries = int_of (v AnnotationHealthCheckMaxRetries) (def_HealthCheckMaxRetries d),
       HealthCheckProtocol = ToUpper (v AnnotationHealthCheckProtocol),
       HealthCheckURLPath = v AnnotationHealthCheckURLPath,
       HealthCheckHTTPMethod = ToUpper (v AnnotationHealthCheckHTTPMethod)\<rparr>)"

lemma override_Nil [simp]: "override v '''' = v"
  by (simp add: override_def)

text \<open>A conditional update as one update, so that the merge is rewritten without case splits.\<close>

lemma override_updates:
  "(if v \<noteq> '''' then s\<lparr>LoadBalancerID := v\<rparr> else s) = s\<lparr>LoadBalancerID := override v (LoadBalancerID s)\<rparr>"
  "(if v \<noteq> '''' then s\<lparr>SubnetID := v\<rparr> else s) = s\<lparr>SubnetID := override v (SubnetID s)\<rparr>"
  "(if v \<noteq> '''' then s\<lparr>VpcID := v\<rparr> else s) = s\<lparr>VpcID := override v (VpcID s)\<rparr>"
  "(if v \<noteq> '''' then s\<lparr>L4FlavorID := v\<rparr> else s) = s\<lparr>L4FlavorID := override v (L4FlavorID s)\<rparr>"
  "(if v \<noteq> '''' then s\<lparr>LBAlgorithm := v\<rparr> else s) = s\<lparr>LBAlgorithm := override v (LBAlgorithm s)\<rparr>"
  "(if v \<noteq> '''' then s\<lparr>AvailabilityZones := splitTrim v\<rparr> else s) = s\<lparr>AvailabilityZones := (if v = '''' then AvailabilityZones s else splitTrim v)\<rparr>"
  "(if v \<noteq> '''' then s\<lparr>EipIDs := splitTrim v\<rparr> else s) = s\<lparr>EipIDs := (if v = '''' then EipIDs s else splitTrim v)\<rparr>"
  by (simp_all add: override_def)

lemma applyStringAnnotations_eq:
  "applyStringAnnotations ann (defaultSettings d) = (defaultSettings d)\<lparr>
     LoadBalancerID := annStr ann AnnotationID,
     SubnetID := override (annStr ann AnnotationSubnetID) (def_SubnetID d),
     VpcID := override (annStr ann AnnotationVpcID) (def_VpcID d),
     AvailabilityZones := (if annStr ann AnnotationAvailabilityZones = '''' then def_AvailabilityZones d
                           else splitTrim (annStr ann AnnotationAvailabilityZones)),
     L4FlavorID := override (annStr ann AnnotationL4FlavorID) (def_L4FlavorID d),
     LBAlgorithm := override (annStr ann AnnotationLBAlgorithm) (override (def_LBAlgorithm d) ''ROUND_ROBIN''),
     EipIDs := splitTrim (annStr ann AnnotationEipIDs)\<rparr>"
  unfolding applyStringAnnotations_def Let_def override_updates
  by (simp add: defaultSettings_def override_def [symmetric])

lemma applyEipAnnotations_ok:
  assumes "int_ok (annStr ann AnnotationEipBandwidth)" "int_ok (annStr ann AnnotationIdleTimeout)"
    "bool_ok (annStr ann AnnotationEipKeep)" "0 \<le> int_of (annStr ann AnnotationEipBandwidth) 0"
    "0 < int_of (annStr ann AnnotationEipBandwidth) 0 \<longrightarrow> EipIDs s = []"
    "0 \<le> int_of (annStr ann AnnotationIdleTimeout) 0"
  shows "applyEipAnnotations ann s = Inr (s\<lparr>EipBandwidth := int_of (annStr ann AnnotationEipBandwidth) 0,
     EipType := override (annStr ann AnnotationEipType) ''5_bgp'',
     EipKeep := bool_of (annStr ann AnnotationEipKeep) False,
     IdleTimeout := int_of (annStr ann AnnotationIdleTimeout) 0\<rparr>)"
  using assms by (auto simp: applyEipAnnotations_def annInt_Inr annBool_Inr Let_def override_def)

lemma applyEipAnnotations_InrD:
  assumes "applyEipAnnotations ann s = Inr s'"
  shows "int_ok (annStr ann AnnotationEipBandwidth) \<and> int_ok (annStr ann AnnotationIdleTimeout) \<and>
    bool_ok (annStr ann AnnotationEipKeep) \<and> 0 \<le> int_of (annStr ann AnnotationEipBandwidth) 0 \<and>
    (0 < int_of (annStr ann AnnotationEipBandwidth) 0 \<longrightarrow> EipIDs s = []) \<and>
    0 \<le> int_of (annStr ann AnnotationIdleTimeout) 0"
  using assms
  by (auto simp: applyEipAnnotations_def annInt_iff annBool_iff Let_def elim!: bindS_InrE split: if_splits)

definition health_ok :: "(string \<rightharpoonup> string) \<Rightarrow> bool" where
  "health_ok ann \<longleftrightarrow>
     (\<forall>k \<in> {AnnotationHealthCheckDelay, AnnotationHealthCheckTimeout, AnnotationHealthCheckMaxRetries}.
        int_ok (annStr ann k)) \<and> bool_ok (annStr ann AnnotationHealthCheckEnabled) \<and>
     (annStr ann AnnotationHealthCheckProtocol = '''' \<or>
        ToUpper (annStr ann AnnotationHealthCheckProtocol) \<in> set healthProtocols) \<and>
     (annStr ann AnnotationHealthCheckURLPath = '''' \<or> HasPrefix (annStr ann AnnotationHealthCheckURLPath) ''/'') \<and>
     (annStr ann AnnotationHealthCheckHTTPMethod = '''' \<or>
        ToUpper (annStr ann AnnotationHealthCheckHTTPMethod) \<in> set httpMethods)"

lemma applyHealthAnnotations_ok:
  assumes "health_ok ann"
    and "HealthCheckProtocol s = ''''" "HealthCheckURLPath s = ''''" "HealthCheckHTTPMethod s = ''''"
  shows "applyHealthAnnotations ann s = Inr (s\<lparr>
     HealthCheckEnabled := bool_of (annStr ann AnnotationHealthCheckEnabled) (HealthCheckEnabled s),
     HealthCheckDelay := int_of (annStr ann AnnotationHealthCheckDelay) (HealthCheckDelay s),
     HealthCheckTimeout := int_of (annStr ann AnnotationHealthCheckTimeout) (HealthCheckTimeout s),
     HealthCheckMaxRetries := int_of (annStr ann AnnotationHealthCheckMaxRetries) (HealthCheckMaxRetries s),
     HealthCheckProtocol := ToUpper (annStr ann AnnotationHealthCheckProtocol),
     HealthCheckURLPath := annStr ann AnnotationHealthCheckURLPath,
     HealthCheckHTTPMethod := ToUpper (annStr ann AnnotationHealthCheckHTTPMethod)\<rparr>)"
  using assms
  by (auto simp: applyHealthAnnotations_def annInt_Inr annBool_Inr Let_def health_ok_def ToUpper_def)

lemma applyHealthAnnotations_InrD:
  "applyHealthAnnotations ann s = Inr s' \<Longrightarrow> health_ok ann"
  by (auto simp: applyHealthAnnotations_def annInt_iff annBool_iff Let_def health_ok_def
      elim!: bindS_InrE split: if_splits)

lemma annotations_ok_split:
  "annotations_ok ann \<longleftrightarrow> health_ok ann \<and>
     int_ok (annStr ann AnnotationEipBandwidth) \<and> int_ok (annStr ann AnnotationIdleTimeout) \<and>
     bool_ok (annStr ann AnnotationEipKeep) \<and> 0 \<le> int_of (annStr ann AnnotationEipBandwidth) 0 \<and>
     (0 < int_of (annStr ann AnnotationEipBandwidth) 0 \<longrightarrow> splitTrim (annStr ann AnnotationEipIDs) = []) \<and>
     0 \<le> int_of (annStr ann AnnotationIdleTimeout) 0"
  by (auto simp: annotations_ok_def health_ok_def Let_def)

lemma settings_iff:
  "settingsForService d service = Inr s \<longleftrightarrow>
     annotations_ok (Annotations service) \<and> s = mergedSettings d (Annotations service)"
proof -
  let ?ann = "Annotations service"
  let ?s1 = "applyStringAnnotations ?ann (defaultSettings d)"
  have ok: "settingsForService d service = Inr (mergedSettings d ?ann)" if "annotations_ok ?ann"
  proof -
    have "applyEipAnnotations ?ann ?s1 = Inr (?s1\<lparr>
        EipBandwidth := int_of (annStr ?ann AnnotationEipBandwidth) 0,
        EipType := override (annStr ?ann AnnotationEipType) ''5_bgp'',
        EipKeep := bool_of (annStr ?ann AnnotationEipKeep) False,
        IdleTimeout := int_of (annStr ?ann AnnotationIdleTimeout) 0\<rparr>)"
      using that by (intro applyEipAnnotations_ok)
        (simp_all add: annotations_ok_split applyStringAnnotations_eq)
    then have "settingsForService d service = applyHealthAnnotations ?ann (?s1\<lparr>
        EipBandwidth := int_of (annStr ?ann AnnotationEipBandwidth) 0,
        EipType := override (annStr ?ann AnnotationEipType) ''5_bgp'',
        EipKeep := bool_of (annStr ?ann AnnotationEipKeep) False,
        IdleTimeout := int_of (annStr ?ann AnnotationIdleTimeout) 0\<rparr>)"
      by (simp add: settingsForService_def Let_def)
    also have "\<dots> = Inr (mergedSettings d ?ann)"
      using that unfolding applyStringAnnotations_eq
      by (subst applyHealthAnnotations_ok)
        (simp_all add: annotations_ok_split defaultSettings_def mergedSettings_def Let_def)
    finally show ?thesis .
  qed
  have bad: "annotations_ok ?ann" if "settingsForService d service = Inr s'" for s'
    using that
    by (auto simp: settingsForService_def Let_def annotations_ok_split applyStringAnnotations_eq
        elim!: bindS_InrE dest: applyEipAnnotations_InrD applyHealthAnnotations_InrD)
  show ?thesis using ok bad by (metis Inr_inject)
qed

lemma settingsForService_InrD:
  assumes "settingsForService d service = Inr s"
  shows "annotations_ok (Annotations service)" "s = mergedSettings d (Annotations service)"
  using assms settings_iff by blast+

text \<open>
  C24: the merge of defaults and annotations accepts a Service exactly when its annotations are well
  formed (integers that fit 64 bits, booleans, a non-negative bandwidth and idle timeout, not both
  \<open>eip-ids\<close> and \<open>eip-bandwidth\<close>, a known probe protocol and HTTP method in any letter case, a path
  that starts with a slash), and then gives the field-by-field merge in which a non-empty annotation
  overrides the default; in every other case it is an error.
\<close>

theorem settingsForService_spec:
  "settingsForService d service = Inr s \<longleftrightarrow>
     annotations_ok (Annotations service) \<and> s = mergedSettings d (Annotations service)"
  by (rule settings_iff)

lemma annotations_ok_bounds:
  assumes "int_ok v"
  shows "int_of v d = d \<or> (- max_int64 - 1 \<le> int_of v d \<and> int_of v d \<le> max_int64)"
  using assms Atoi_bounds by (auto simp: int_ok_def int_of_def)

lemma annStr_cong: "annStr a = annStr b \<Longrightarrow> annotations_ok a = annotations_ok b \<and> mergedSettings d a = mergedSettings d b"
  by (simp add: annotations_ok_def mergedSettings_def)

text \<open>
  C36: what holds of settings that passed the merge: the bandwidth and the idle timeout are
  non-negative 64-bit numbers, a bandwidth excludes \<open>eip-ids\<close>, there is always a pool algorithm and
  an EIP type, the probe protocol and method are unset or one of the known ones, the path is unset or absolute, and
  no id of \<open>eip-ids\<close> is empty or untrimmed. Delay, timeout and retries of the health check are not
  constrained: the code accepts negative ones.
\<close>

theorem settings_valid:
  assumes "settingsForService d service = Inr s"
  shows "0 \<le> EipBandwidth s \<and> EipBandwidth s \<le> max_int64 \<and>
    0 \<le> IdleTimeout s \<and> IdleTimeout s \<le> max_int64 \<and>
    (EipBandwidth s = 0 \<or> EipIDs s = []) \<and> LBAlgorithm s \<noteq> '''' \<and> EipType s \<noteq> '''' \<and>
    HealthCheckProtocol s \<in> {'''', ''TCP'', ''HTTP'', ''HTTPS''} \<and>
    (HealthCheckURLPath s = '''' \<or> HasPrefix (HealthCheckURLPath s) ''/'') \<and>
    (HealthCheckHTTPMethod s = '''' \<or> HealthCheckHTTPMethod s \<in> set httpMethods) \<and>
    (\<forall>p \<in> set (EipIDs s). clean_item p)"
proof -
  let ?v = "annStr (Annotations service)"
  have ok: "annotations_ok (Annotations service)" and s: "s = mergedSettings d (Annotations service)"
    using settingsForService_InrD [OF assms] by blast+
  have "EipBandwidth s \<le> max_int64" "IdleTimeout s \<le> max_int64"
    using ok annotations_ok_bounds [of "?v AnnotationEipBandwidth" 0]
      annotations_ok_bounds [of "?v AnnotationIdleTimeout" 0]
    by (auto simp: s annotations_ok_split mergedSettings_def Let_def max_int64_def)
  then show ?thesis
    using ok splitTrim_items
    by (auto simp: s annotations_ok_split health_ok_def mergedSettings_def Let_def override_def
        healthProtocols_def ToUpper_def)
qed

definition plain_service :: "(string \<rightharpoonup> string) \<Rightarrow> Service" where
  "plain_service ann = \<lparr>Namespace = ''default'', ServiceName = ''web'', Annotations = ann, Ports = [],
     LoadBalancerIP = '''', SessionAffinity = '''', AffinityConfig = None,
     ExternalTrafficPolicy = '''', HealthCheckNodePort = 0, LoadBalancerSourceRanges = []\<rparr>"

theorem settings_valid_witness:
  "EipBandwidth (projr (settingsForService DefaultLoadBalancerOpts
     (plain_service [AnnotationEipBandwidth \<mapsto> ''100'', AnnotationHealthCheckProtocol \<mapsto> ''http'']))) = 100 \<and>
   HealthCheckProtocol (projr (settingsForService DefaultLoadBalancerOpts
     (plain_service [AnnotationEipBandwidth \<mapsto> ''100'', AnnotationHealthCheckProtocol \<mapsto> ''http'']))) \<in> {'''', ''TCP'', ''HTTP'', ''HTTPS''}"
proof -
  let ?sv = "plain_service [AnnotationEipBandwidth \<mapsto> ''100'', AnnotationHealthCheckProtocol \<mapsto> ''http'']"
  have bw: "map_option EipBandwidth (case settingsForService DefaultLoadBalancerOpts ?sv of Inl e \<Rightarrow> None | Inr s \<Rightarrow> Some s) = Some 100"
    by code_simp
  then obtain s where s: "settingsForService DefaultLoadBalancerOpts ?sv = Inr s" "EipBandwidth s = 100"
    by (cases "settingsForService DefaultLoadBalancerOpts ?sv") simp_all
  from settings_valid [OF s(1)] s show ?thesis by simp
qed

definition knownAnnotations :: "string set" where
  "knownAnnotations = {AnnotationID, AnnotationSubnetID, AnnotationVpcID, AnnotationAvailabilityZones,
      AnnotationL4FlavorID, AnnotationLBAlgorithm, AnnotationEipIDs, AnnotationEipBandwidth,
      AnnotationEipType, AnnotationEipKeep, AnnotationIdleTimeout, AnnotationHealthCheckEnabled,
      AnnotationHealthCheckDelay, AnnotationHealthCheckTimeout, AnnotationHealthCheckMaxRetries,
      AnnotationHealthCheckProtocol, AnnotationHealthCheckURLPath, AnnotationHealthCheckHTTPMethod}"

lemma agree_on_known:
  assumes "\<forall>k \<in> knownAnnotations. annStr a k = annStr b k"
  shows "annStr a AnnotationID = annStr b AnnotationID"
    "annStr a AnnotationSubnetID = annStr b AnnotationSubnetID"
    "annStr a AnnotationVpcID = annStr b AnnotationVpcID"
    "annStr a AnnotationAvailabilityZones = annStr b AnnotationAvailabilityZones"
    "annStr a AnnotationL4FlavorID = annStr b AnnotationL4FlavorID"
    "annStr a AnnotationLBAlgorithm = annStr b AnnotationLBAlgorithm"
    "annStr a AnnotationEipIDs = annStr b AnnotationEipIDs"
    "annStr a AnnotationEipBandwidth = annStr b AnnotationEipBandwidth"
    "annStr a AnnotationEipType = annStr b AnnotationEipType"
    "annStr a AnnotationEipKeep = annStr b AnnotationEipKeep"
    "annStr a AnnotationIdleTimeout = annStr b AnnotationIdleTimeout"
    "annStr a AnnotationHealthCheckEnabled = annStr b AnnotationHealthCheckEnabled"
    "annStr a AnnotationHealthCheckDelay = annStr b AnnotationHealthCheckDelay"
    "annStr a AnnotationHealthCheckTimeout = annStr b AnnotationHealthCheckTimeout"
    "annStr a AnnotationHealthCheckMaxRetries = annStr b AnnotationHealthCheckMaxRetries"
    "annStr a AnnotationHealthCheckProtocol = annStr b AnnotationHealthCheckProtocol"
    "annStr a AnnotationHealthCheckURLPath = annStr b AnnotationHealthCheckURLPath"
    "annStr a AnnotationHealthCheckHTTPMethod = annStr b AnnotationHealthCheckHTTPMethod"
  using assms by (simp_all add: knownAnnotations_def)

lemma applyStringAnnotations_cong:
  assumes "\<forall>k \<in> knownAnnotations. annStr a k = annStr b k"
  shows "applyStringAnnotations a = applyStringAnnotations b"
  by (rule ext) (simp only: applyStringAnnotations_def agree_on_known [OF assms])

lemma applyEipAnnotations_cong:
  assumes "\<forall>k \<in> knownAnnotations. annStr a k = annStr b k"
  shows "applyEipAnnotations a = applyEipAnnotations b"
  by (rule ext) (simp only: applyEipAnnotations_def annInt_annStr annBool_annStr agree_on_known [OF assms])

lemma applyHealthAnnotations_cong:
  assumes "\<forall>k \<in> knownAnnotations. annStr a k = annStr b k"
  shows "applyHealthAnnotations a = applyHealthAnnotations b"
  by (rule ext) (simp only: applyHealthAnnotations_def annInt_annStr annBool_annStr agree_on_known [OF assms])

text \<open>
  C37: the merge reads the eighteen documented annotations only, and an annotation that is present but
  empty counts as absent: Services that agree on the values read get the same result, error included.
\<close>

theorem settings_depend_on_known_annotations:
  assumes "\<forall>k \<in> knownAnnotations. annStr (Annotations s1) k = annStr (Annotations s2) k"
  shows "settingsForService d s1 = settingsForService d s2"
  unfolding settingsForService_def Let_def
  by (simp only: applyStringAnnotations_cong [OF assms] applyEipAnnotations_cong [OF assms]
      applyHealthAnnotations_cong [OF assms])

theorem settings_depend_on_known_annotations_witness:
  "settingsForService DefaultLoadBalancerOpts (plain_service [''team'' \<mapsto> ''blue'', AnnotationEipType \<mapsto> '''']) =
   settingsForService DefaultLoadBalancerOpts (plain_service Map.empty)"
proof (rule settings_depend_on_known_annotations)
  have same: "annStr (Annotations (plain_service [''team'' \<mapsto> ''blue'', AnnotationEipType \<mapsto> ''''])) k =
      annStr (Annotations (plain_service Map.empty)) k" if "hd k = CHR ''l''" for k
    using that by (auto simp: plain_service_def annStr_def)
  show "\<forall>k \<in> knownAnnotations. annStr (Annotations (plain_service [''team'' \<mapsto> ''blue'', AnnotationEipType \<mapsto> ''''])) k =
      annStr (Annotations (plain_service Map.empty)) k"
    by (intro ballI same) (auto simp: knownAnnotations_def annotation_defs)
qed

end
