(* ===== verification/Elb_Sdk.thy ===== *)
theory Elb_Sdk
  imports Service_Settings "HOL-Library.Multiset"
begin

section \<open>The boundary of \<open>pkg/elb\<close>: SDK objects, calls, waiting\<close>

text \<open>
  The balancer reaches the cloud through the SDK only. The SDK and the cloud behind it are not part
  of the repository: they are the parameter record \<open>env\<close>, one field per SDK function the code
  calls, each a function of the client handle \<open>'k\<close>, the arguments and the cloud's state \<open>'c\<close>. No law is
  built in: the cloud may fail, change by itself between calls, or answer anything.
  The objects are records of the fields the code reads.

  The world of a run is the cloud, the history of the calls made with their answers, the two
  local pointer variables that closures passed to the retry helpers assign, and the orders in which
  the Go runtime visits its maps: what holds of every world holds of every order.
\<close>

subsection \<open>Objects and request bodies\<close>

record PublicIpInfo =
  PublicIpID :: string
  PublicIpAddress :: string

record BalancerObj =
  lb_ID :: string
  lb_Name :: string
  lb_VipSubnetCidrID :: string
  lb_VipAddress :: string
  lb_PublicIps :: "PublicIpInfo list"
  lb_ProvisioningStatus :: string

record ListenerObj =
  ls_ID :: string
  ls_Name :: string
  ls_Protocol :: string
  ls_ProtocolPort :: int
  ls_DefaultPoolID :: string
  ls_IpGroupID :: string
  ls_IpGroupEnable :: "bool option"

record SessionPersistence =
  sp_Type :: string
  sp_PersistenceTimeout :: int

record PoolObj =
  pl_ID :: string
  pl_Name :: string
  pl_LBMethod :: string
  pl_Persistence :: "SessionPersistence option"
  pl_MonitorID :: string

record MemberObj =
  mb_ID :: string
  mb_Address :: string
  mb_ProtocolPort :: int

record MonitorObj =
  mo_ID :: string
  mo_Type :: string
  mo_MonitorPort :: int
  mo_Delay :: int
  mo_Timeout :: int
  mo_MaxRetries :: int
  mo_URLPath :: string
  mo_HTTPMethod :: string

record IpGroupObj =
  ig_ID :: string
  ig_Name :: string
  ig_IpList :: "string list"

record PublicIpOpts =
  pi_NetworkType :: string
  pi_Description :: string
  pi_BwName :: string
  pi_BwSize :: int
  pi_BwChargeMode :: string
  pi_BwShareType :: string

record LBCreateOpts =
  lc_Name :: string
  lc_Description :: string
  lc_VipSubnetCidrID :: string
  lc_VpcID :: string
  lc_AvailabilityZoneList :: "string list"
  lc_L4Flavor :: string
  lc_VipAddress :: string
  lc_PublicIpIDs :: "string list"
  lc_PublicIp :: "PublicIpOpts option"

record ListenerCreateOpts =
  nc_LoadbalancerID :: string
  nc_Name :: string
  nc_Protocol :: string
  nc_ProtocolPort :: int
  nc_KeepAliveTimeout :: int

record IpGroupUpdate =
  iu_IpGroupId :: string
  iu_Enable :: bool
  iu_Type :: string

record ListenerUpdateOpts =
  nu_KeepAliveTimeout :: int
  nu_IpGroup :: "IpGroupUpdate option"

record PoolCreateOpts =
  pc_ListenerID :: string
  pc_Name :: string
  pc_Protocol :: string
  pc_LBMethod :: string
  pc_Description :: string
  pc_Persistence :: "SessionPersistence option"

record PoolUpdateOpts =
  pu_LBMethod :: string
  pu_Persistence :: "SessionPersistence option"

record MemberCreateOpts =
  mc_Address :: string
  mc_ProtocolPort :: int
  mc_Name :: string
  mc_SubnetID :: string

record MonitorCreateOpts =
  oc_PoolID :: string
  oc_Name :: string
  oc_Type :: string
  oc_Delay :: int
  oc_Timeout :: int
  oc_MaxRetries :: int
  oc_URLPath :: string
  oc_HTTPMethod :: string
  oc_MonitorPort :: int

record MonitorUpdateOpts =
  ou_Delay :: int
  ou_Timeout :: int
  ou_MaxRetries :: int
  ou_URLPath :: string
  ou_HTTPMethod :: string

record IpGroupCreateOpts =
  gc_Name :: string
  gc_Description :: string
  gc_IpList :: "string list"

subsection \<open>The history\<close>

datatype call =
    LbList string "err + (err + BalancerObj list)"
  | LbGet string "err + BalancerObj"
  | LbCreate LBCreateOpts "err + BalancerObj"
  | LbDelete string "err + unit"
  | LsList string "err + (err + ListenerObj list)"
  | LsGet string "err + ListenerObj"
  | LsCreate ListenerCreateOpts "err + ListenerObj"
  | LsUpdate string ListenerUpdateOpts "err + ListenerObj"
  | LsDelete string "err + unit"
  | PlGet string "err + PoolObj"
  | PlCreate PoolCreateOpts "err + PoolObj"
  | PlUpdate string PoolUpdateOpts "PoolObj option \<times> err option"
  | PlDelete string "err + unit"
  | MbList string "err + (err + MemberObj list)"
  | MbCreate string MemberCreateOpts "err + MemberObj"
  | MbDelete string string "err + unit"
  | MoGet string "err + MonitorObj"
  | MoCreate MonitorCreateOpts "err + MonitorObj"
  | MoUpdate string MonitorUpdateOpts "err + MonitorObj"
  | MoDelete string "err + unit"
  | IgGet string "err + IpGroupObj"
  | IgCreate IpGroupCreateOpts "err + IpGroupObj"
  | IgUpdate string "string list" "err + unit"
  | IgDelete string "err + unit"
  | EipDelete string "err + unit"

text \<open>
  Go leaves open in which order \<open>range\<close> visits the keys of a map, and may choose anew each time: an order
  rearranges the keys in a way that depends on when they are visited.
\<close>

typedef map_order = "{f :: nat \<Rightarrow> string list \<Rightarrow> string list. \<forall>n keys. mset (f n keys) = mset keys}"
  morphisms visits Map_order
  by (rule exI [of _ "\<lambda>n keys. keys"]) simp

setup_lifting type_definition_map_order

lift_definition asListed :: map_order is "\<lambda>n keys. keys" by simp

lift_definition backwards :: map_order is "\<lambda>n keys. rev keys" by simp

lemma mset_visits [simp]: "mset (visits ord n keys) = mset keys"
  by transfer simp

record 'c world =
  cloud :: "'c"
  trace :: "call list"
  v_listener :: "ListenerObj option"
  v_pool :: "PoolObj option"
  goOrder :: map_order

definition rangeOrder :: "'c world \<Rightarrow> string list \<Rightarrow> string list" where
  "rangeOrder w keys = visits (goOrder w) (length (trace w)) keys"

lemma range_order: "mset (rangeOrder w keys) = mset keys"
  by (simp add: rangeOrder_def)

subsection \<open>The environment\<close>

record Backoff =
  bo_DurationMs :: nat
  bo_FactorTenths :: nat
  bo_Steps :: nat

text \<open>
  A Go call with results \<open>(T, error)\<close> is \<open>err + T\<close>, except \<open>pools.Update\<close>, whose pointer
  result the code uses even beside an error. A list call yields the pages, represented by what their
  extraction (\<open>ExtractListeners\<close> and its kin) gives: the items or an extraction error.
  \<open>wait.ExponentialBackoffWithContext\<close> and
  \<open>wait.PollUntilContextTimeout\<close> take the condition as a state-passing function; the context's
  cancellation is part of what they may do.
\<close>

record ('k, 'c) env =
  loadbalancers_List :: "'k \<Rightarrow> string \<Rightarrow> 'c \<Rightarrow> (err + (err + BalancerObj list)) \<times> 'c"
  loadbalancers_Get :: "'k \<Rightarrow> string \<Rightarrow> 'c \<Rightarrow> (err + BalancerObj) \<times> 'c"
  loadbalancers_Create :: "'k \<Rightarrow> LBCreateOpts \<Rightarrow> 'c \<Rightarrow> (err + BalancerObj) \<times> 'c"
  loadbalancers_Delete :: "'k \<Rightarrow> string \<Rightarrow> 'c \<Rightarrow> (err + unit) \<times> 'c"
  listeners_List :: "'k \<Rightarrow> string \<Rightarrow> 'c \<Rightarrow> (err + (err + ListenerObj list)) \<times> 'c"
  listeners_Get :: "'k \<Rightarrow> string \<Rightarrow> 'c \<Rightarrow> (err + ListenerObj) \<times> 'c"
  listeners_Create :: "'k \<Rightarrow> ListenerCreateOpts \<Rightarrow> 'c \<Rightarrow> (err + ListenerObj) \<times> 'c"
  listeners_Update :: "'k \<Rightarrow> string \<Rightarrow> ListenerUpdateOpts \<Rightarrow> 'c \<Rightarrow> (err + ListenerObj) \<times> 'c"
  listeners_Delete :: "'k \<Rightarrow> string \<Rightarrow> 'c \<Rightarrow> (err + unit) \<times> 'c"
  pools_Get :: "'k \<Rightarrow> string \<Rightarrow> 'c \<Rightarrow> (err + PoolObj) \<times> 'c"
  pools_Create :: "'k \<Rightarrow> PoolCreateOpts \<Rightarrow> 'c \<Rightarrow> (err + PoolObj) \<times> 'c"
  pools_Update :: "'k \<Rightarrow> string \<Rightarrow> PoolUpdateOpts \<Rightarrow> 'c \<Rightarrow> (PoolObj option \<times> err option) \<times> 'c"
  pools_Delete :: "'k \<Rightarrow> string \<Rightarrow> 'c \<Rightarrow> (err + unit) \<times> 'c"
  members_List :: "'k \<Rightarrow> string \<Rightarrow> 'c \<Rightarrow> (err + (err + MemberObj list)) \<times> 'c"
  members_Create :: "'k \<Rightarrow> string \<Rightarrow> MemberCreateOpts \<Rightarrow> 'c \<Rightarrow> (err + MemberObj) \<times> 'c"
  members_Delete :: "'k \<Rightarrow> string \<Rightarrow> string \<Rightarrow> 'c \<Rightarrow> (err + unit) \<times> 'c"
  monitors_Get :: "'k \<Rightarrow> string \<Rightarrow> 'c \<Rightarrow> (err + MonitorObj) \<times> 'c"
  monitors_Create :: "'k \<Rightarrow> MonitorCreateOpts \<Rightarrow> 'c \<Rightarrow> (err + MonitorObj) \<times> 'c"
  monitors_Update :: "'k \<Rightarrow> string \<Rightarrow> MonitorUpdateOpts \<Rightarrow> 'c \<Rightarrow> (err + MonitorObj) \<times> 'c"
  monitors_Delete :: "'k \<Rightarrow> string \<Rightarrow> 'c \<Rightarrow> (err + unit) \<times> 'c"
  ipgroups_Get :: "'k \<Rightarrow> string \<Rightarrow> 'c \<Rightarrow> (err + IpGroupObj) \<times> 'c"
  ipgroups_Create :: "'k \<Rightarrow> IpGroupCreateOpts \<Rightarrow> 'c \<Rightarrow> (err + IpGroupObj) \<times> 'c"
  ipgroups_Update :: "'k \<Rightarrow> string \<Rightarrow> string list \<Rightarrow> 'c \<Rightarrow> (err + unit) \<times> 'c"
  ipgroups_Delete :: "'k \<Rightarrow> string \<Rightarrow> 'c \<Rightarrow> (err + unit) \<times> 'c"
  eips_Delete :: "'k \<Rightarrow> string \<Rightarrow> 'c \<Rightarrow> (err + unit) \<times> 'c"
  exponentialBackoff :: "Backoff \<Rightarrow> ('c world, bool) go \<Rightarrow> ('c world, unit) go"
  pollUntilContextTimeout :: "nat \<Rightarrow> nat \<Rightarrow> bool \<Rightarrow> ('c world, bool) go \<Rightarrow> ('c world, unit) go"

subsection \<open>Making a call\<close>

definition sdkCall :: "('c \<Rightarrow> (err + 'a) \<times> 'c) \<Rightarrow> (err + 'a \<Rightarrow> call) \<Rightarrow> ('c world, 'a) go" where
  "sdkCall f ev = (\<lambda>w. case f (cloud w) of (r, c') \<Rightarrow>
     (case r of Inl e \<Rightarrow> Fail e | Inr x \<Rightarrow> Ok x, w\<lparr>cloud := c', trace := trace w @ [ev r]\<rparr>))"

definition lbList where "lbList E k name = sdkCall (loadbalancers_List E k name) (LbList name)"
definition lbGet where "lbGet E k i = sdkCall (loadbalancers_Get E k i) (LbGet i)"
definition lbCreate where "lbCreate E k opts = sdkCall (loadbalancers_Create E k opts) (LbCreate opts)"
definition lbDelete where "lbDelete E k i = sdkCall (loadbalancers_Delete E k i) (LbDelete i)"
definition lsList where "lsList E k i = sdkCall (listeners_List E k i) (LsList i)"
definition lsGet where "lsGet E k i = sdkCall (listeners_Get E k i) (LsGet i)"
definition lsCreate where "lsCreate E k opts = sdkCall (listeners_Create E k opts) (LsCreate opts)"
definition lsUpdate where "lsUpdate E k i opts = sdkCall (listeners_Update E k i opts) (LsUpdate i opts)"
definition lsDelete where "lsDelete E k i = sdkCall (listeners_Delete E k i) (LsDelete i)"
definition plGet where "plGet E k i = sdkCall (pools_Get E k i) (PlGet i)"
definition plCreate where "plCreate E k opts = sdkCall (pools_Create E k opts) (PlCreate opts)"
definition plDelete where "plDelete E k i = sdkCall (pools_Delete E k i) (PlDelete i)"
definition mbList where "mbList E k p = sdkCall (members_List E k p) (MbList p)"
definition mbCreate where "mbCreate E k p opts = sdkCall (members_Create E k p opts) (MbCreate p opts)"
definition mbDelete where "mbDelete E k p i = sdkCall (members_Delete E k p i) (MbDelete p i)"
definition moGet where "moGet E k i = sdkCall (monitors_Get E k i) (MoGet i)"
definition moCreate where "moCreate E k opts = sdkCall (monitors_Create E k opts) (MoCreate opts)"
definition moUpdate where "moUpdate E k i opts = sdkCall (monitors_Update E k i opts) (MoUpdate i opts)"
definition moDelete where "moDelete E k i = sdkCall (monitors_Delete E k i) (MoDelete i)"
definition igGet where "igGet E k i = sdkCall (ipgroups_Get E k i) (IgGet i)"
definition igCreate where "igCreate E k opts = sdkCall (ipgroups_Create E k opts) (IgCreate opts)"
definition igUpdate where "igUpdate E k i ips = sdkCall (ipgroups_Update E k i ips) (IgUpdate i ips)"
definition igDelete where "igDelete E k i = sdkCall (ipgroups_Delete E k i) (IgDelete i)"
definition eipDelete where "eipDelete E k i = sdkCall (eips_Delete E k i) (EipDelete i)"

lemmas sdk_defs =
  lbList_def lbGet_def lbCreate_def lbDelete_def lsList_def lsGet_def lsCreate_def lsUpdate_def
  lsDelete_def plGet_def plCreate_def plDelete_def mbList_def mbCreate_def mbDelete_def moGet_def
  moCreate_def moUpdate_def moDelete_def igGet_def igCreate_def igUpdate_def igDelete_def eipDelete_def

declare sdk_defs [THEN fun_cong, run]

lemma run_sdkCall [run]:
  "sdkCall f ev w = (case f (cloud w) of (r, c') \<Rightarrow>
     (case r of Inl e \<Rightarrow> Fail e | Inr x \<Rightarrow> Ok x, w\<lparr>cloud := c', trace := trace w @ [ev r]\<rparr>))"
  by (simp add: sdkCall_def)

text \<open>\<open>pool, err = pools.Update(client, i, opts).Extract(); return err\<close>, where \<open>pool\<close> is a variable
  of the enclosing function: the pointer result is assigned whatever the error is.\<close>

definition plUpdate :: "('k, 'c, 'z) env_scheme \<Rightarrow> 'k \<Rightarrow> string \<Rightarrow> PoolUpdateOpts \<Rightarrow> ('c world, unit) go" where
  "plUpdate E k i opts = (\<lambda>w. case pools_Update E k i opts (cloud w) of ((p, e), c') \<Rightarrow>
     (case e of None \<Rightarrow> Ok () | Some e' \<Rightarrow> Fail e',
      w\<lparr>cloud := c', trace := trace w @ [PlUpdate i opts (p, e)], v_pool := p\<rparr>))"

declare plUpdate_def [THEN fun_cong, run]

end
