(* ===== verification/Elb_Trace.thy ===== *)
theory Elb_Trace
  imports Elb_Sdk
begin

section \<open>Reasoning about the calls a run makes\<close>

text \<open>
  \<open>produces m Q\<close>: every run of \<open>m\<close> appends a list of calls to the history that satisfies
  \<open>Q\<close> together with the result, whatever the cloud answers. \<open>emits A m\<close> is the special case
  that every call appended satisfies \<open>A\<close>; its rules are collected in \<open>emits_rules\<close>.
\<close>

definition produces :: "('c world, 'a) go \<Rightarrow> (call list \<Rightarrow> 'a res \<Rightarrow> bool) \<Rightarrow> bool" where
  "produces m Q \<longleftrightarrow> (\<forall>w r w'. m w = (r, w') \<longrightarrow> (\<exists>es. trace w' = trace w @ es \<and> Q es r))"

definition emits :: "(call \<Rightarrow> bool) \<Rightarrow> ('c world, 'a) go \<Rightarrow> bool" where
  "emits A m \<longleftrightarrow> produces m (\<lambda>es _. \<forall>e \<in> set es. A e)"

named_theorems emits_rules "composition rules for emits"

subsection \<open>Rules for \<open>produces\<close>\<close>

lemma producesI: "(\<And>w r w'. m w = (r, w') \<Longrightarrow> \<exists>es. trace w' = trace w @ es \<and> Q es r) \<Longrightarrow> produces m Q"
  by (simp add: produces_def)

lemma producesE:
  assumes "produces m Q" and "m w = (r, w')"
  obtains es where "trace w' = trace w @ es" and "Q es r"
  using assms unfolding produces_def by blast

lemma produces_weaken: "produces m P \<Longrightarrow> (\<And>es r. P es r \<Longrightarrow> Q es r) \<Longrightarrow> produces m Q"
  unfolding produces_def by blast

lemma produces_conj: "produces m P \<Longrightarrow> produces m Q \<Longrightarrow> produces m (\<lambda>es r. P es r \<and> Q es r)"
  unfolding produces_def by (metis same_append_eq)

lemma produces_return: "Q [] (Ok x) \<Longrightarrow> produces (returnG x) Q"
  by (auto intro!: producesI)

lemma produces_fail: "Q [] (Fail e) \<Longrightarrow> produces (failG e) Q"
  by (auto intro!: producesI)

lemma produces_panic: "Q [] (Panicked s) \<Longrightarrow> produces (panicG s) Q"
  by (auto intro!: producesI)

lemma produces_sdkCall:
  "(\<And>e. Q [ev (Inl e)] (Fail e)) \<Longrightarrow> (\<And>x. Q [ev (Inr x)] (Ok x)) \<Longrightarrow> produces (sdkCall f ev) Q"
  by (rule producesI) (auto simp: sdkCall_def split: prod.splits sum.splits)

lemma produces_bind:
  assumes m: "produces m P"
    and f: "\<And>x es. P es (Ok x) \<Longrightarrow> produces (f x) (R x)"
    and ok: "\<And>es x es' r. P es (Ok x) \<Longrightarrow> R x es' r \<Longrightarrow> Q (es @ es') r"
    and fail: "\<And>es e. P es (Fail e) \<Longrightarrow> Q es (Fail e)"
    and panic: "\<And>es s. P es (Panicked s) \<Longrightarrow> Q es (Panicked s)"
  shows "produces (bindG m f) Q"
proof (rule producesI)
  fix w r w'
  assume "bindG m f w = (r, w')"
  then show "\<exists>es. trace w' = trace w @ es \<and> Q es r"
  proof (cases rule: bindG_cases)
    case (ok x w1)
    obtain es where es: "trace w1 = trace w @ es" "P es (Ok x)"
      using m ok(1) by (rule producesE)
    obtain es' where "trace w' = trace w1 @ es'" "R x es' r"
      using f [OF es(2)] ok(2) by (rule producesE)
    then show ?thesis using es assms(3) by (intro exI [of _ "es @ es'"]) simp
  next
    case (fail e)
    then show ?thesis using m assms(4) by (metis producesE)
  next
    case (panic s)
    then show ?thesis using m assms(5) by (metis producesE)
  qed
qed

lemma produces_catch:
  assumes m: "produces m P"
    and h: "\<And>e es. P es (Fail e) \<Longrightarrow> produces (h e) (R e)"
    and ok: "\<And>es x. P es (Ok x) \<Longrightarrow> Q es (Ok x)"
    and fail: "\<And>es e es' r. P es (Fail e) \<Longrightarrow> R e es' r \<Longrightarrow> Q (es @ es') r"
    and panic: "\<And>es s. P es (Panicked s) \<Longrightarrow> Q es (Panicked s)"
  shows "produces (catchG m h) Q"
proof (rule producesI)
  fix w r w'
  assume run: "catchG m h w = (r, w')"
  obtain r1 w1 where m1: "m w = (r1, w1)" by (cases "m w")
  obtain es where es: "trace w1 = trace w @ es" "P es r1"
    using m m1 by (rule producesE)
  show "\<exists>es. trace w' = trace w @ es \<and> Q es r"
  proof (cases r1)
    case (Fail e)
    then have "h e w1 = (r, w')" and P: "P es (Fail e)"
      using run m1 es by (simp_all add: catchG_def)
    then obtain es' where "trace w' = trace w1 @ es'" "R e es' r"
      using h by (metis producesE)
    then show ?thesis using es P assms(4) by (intro exI [of _ "es @ es'"]) simp
  qed (use run m1 es assms(3,5) in \<open>auto simp: catchG_def\<close>)
qed

lemma produces_wrap:
  assumes "produces m P" and "\<And>es x. P es (Ok x) \<Longrightarrow> Q es (Ok x)"
    and "\<And>es e. P es (Fail e) \<Longrightarrow> Q es (Fail (Wrapf fmt args e))"
    and "\<And>es s. P es (Panicked s) \<Longrightarrow> Q es (Panicked s)"
  shows "produces (wrapG fmt args m) Q"
  unfolding wrapG_def
  by (rule produces_catch [OF assms(1), where R = "\<lambda>e es r. es = [] \<and> r = Fail (Wrapf fmt args e)"])
    (use assms in \<open>auto intro: produces_fail\<close>)

subsection \<open>Rules for \<open>emits\<close>\<close>

lemma emitsD:
  assumes "emits A m" and "m w = (r, w')"
  obtains es where "trace w' = trace w @ es" and "\<forall>e \<in> set es. A e"
  using assms unfolding emits_def produces_def by blast

lemma emits_mono: "emits A m \<Longrightarrow> (\<And>e. A e \<Longrightarrow> B e) \<Longrightarrow> emits B m"
  unfolding emits_def by (erule produces_weaken) blast

lemma emits_return [emits_rules]: "emits A (returnG x)"
  by (simp add: emits_def produces_return)

lemma emits_fail [emits_rules]: "emits A (failG e)"
  by (simp add: emits_def produces_fail)

lemma emits_panic [emits_rules]: "emits A (panicG s)"
  by (simp add: emits_def produces_panic)

lemma emits_lift [emits_rules]: "emits A (liftG r)"
  by (cases r) (simp_all add: emits_rules)

lemma emits_deref [emits_rules]: "emits A (derefG p)"
  by (cases p) (simp_all add: emits_rules)

lemma emits_get [emits_rules]: "emits A (getG f)"
  by (auto simp: emits_def intro!: producesI)

lemma emits_modify: "(\<And>w. trace (f w) = trace w) \<Longrightarrow> emits A (modifyG f)"
  by (auto simp: emits_def intro!: producesI)

lemma emits_sdkCall: "(\<And>r. A (ev r)) \<Longrightarrow> emits A (sdkCall f ev)"
  unfolding emits_def by (rule produces_sdkCall) simp_all

lemma emits_plUpdate [emits_rules]: "(\<And>r. A (PlUpdate i opts r)) \<Longrightarrow> emits A (plUpdate E k i opts)"
  by (auto simp: emits_def plUpdate_def intro!: producesI split: prod.splits option.splits)

lemma emits_bind [emits_rules]:
  "emits A m \<Longrightarrow> (\<And>x. emits A (f x)) \<Longrightarrow> emits A (bindG m f)"
  unfolding emits_def by (rule produces_bind [where R = "\<lambda>_ es _. \<forall>e \<in> set es. A e"]) auto

lemma emits_bind_ok:
  assumes "emits A m" and "\<And>x w w'. m w = (Ok x, w') \<Longrightarrow> emits A (f x)"
  shows "emits A (bindG m f)"
proof -
  have "produces m (\<lambda>es r. (\<forall>e \<in> set es. A e) \<and> (\<forall>x. r = Ok x \<longrightarrow> emits A (f x)))"
  proof (rule producesI)
    fix w r w'
    assume run: "m w = (r, w')"
    with assms(1) obtain es where "trace w' = trace w @ es" "\<forall>e \<in> set es. A e"
      by (rule emitsD)
    then show "\<exists>es. trace w' = trace w @ es \<and> (\<forall>e \<in> set es. A e) \<and> (\<forall>x. r = Ok x \<longrightarrow> emits A (f x))"
      using assms(2) [of w _ w'] run by (intro exI [of _ es]) simp
  qed
  then have "produces (bindG m f) (\<lambda>es _. \<forall>e \<in> set es. A e)"
    by (rule produces_bind [where R = "\<lambda>_ es _. \<forall>e \<in> set es. A e"])
      (simp_all add: ball_Un emits_def)
  then show ?thesis by (simp add: emits_def)
qed

lemma emits_catch [emits_rules]:
  "emits A m \<Longrightarrow> (\<And>e. emits A (h e)) \<Longrightarrow> emits A (catchG m h)"
  unfolding emits_def by (rule produces_catch [where R = "\<lambda>_ es _. \<forall>e \<in> set es. A e"]) auto

lemma emits_wrap [emits_rules]: "emits A m \<Longrightarrow> emits A (wrapG fmt args m)"
  unfolding wrapG_def by (intro emits_rules)

lemma emits_each [emits_rules]: "(\<And>x. x \<in> set xs \<Longrightarrow> emits A (f x)) \<Longrightarrow> emits A (eachG f xs)"
  by (induction xs) (simp_all add: emits_rules)

lemma emits_if [emits_rules]: "(b \<Longrightarrow> emits A m) \<Longrightarrow> (\<not> b \<Longrightarrow> emits A n) \<Longrightarrow> emits A (if b then m else n)"
  by simp

lemma emits_option [emits_rules]:
  "(x = None \<Longrightarrow> emits A m) \<Longrightarrow> (\<And>y. x = Some y \<Longrightarrow> emits A (f y)) \<Longrightarrow>
   emits A (case x of None \<Rightarrow> m | Some y \<Rightarrow> f y)"
  by (cases x) simp_all

lemma emits_let [emits_rules]: "emits A (f x) \<Longrightarrow> emits A (let y = x in f y)"
  by simp

text \<open>One rule per SDK call.\<close>

lemma emits_calls [emits_rules]:
  "(\<And>r. A (LbList n r)) \<Longrightarrow> emits A (lbList E k n)"
  "(\<And>r. A (LbGet i r)) \<Longrightarrow> emits A (lbGet E k i)"
  "(\<And>r. A (LbCreate lo r)) \<Longrightarrow> emits A (lbCreate E k lo)"
  "(\<And>r. A (LbDelete i r)) \<Longrightarrow> emits A (lbDelete E k i)"
  "(\<And>r. A (LsList i r)) \<Longrightarrow> emits A (lsList E k i)"
  "(\<And>r. A (LsGet i r)) \<Longrightarrow> emits A (lsGet E k i)"
  "(\<And>r. A (LsCreate no r)) \<Longrightarrow> emits A (lsCreate E k no)"
  "(\<And>r. A (LsUpdate i nu r)) \<Longrightarrow> emits A (lsUpdate E k i nu)"
  "(\<And>r. A (LsDelete i r)) \<Longrightarrow> emits A (lsDelete E k i)"
  "(\<And>r. A (PlGet i r)) \<Longrightarrow> emits A (plGet E k i)"
  "(\<And>r. A (PlCreate po r)) \<Longrightarrow> emits A (plCreate E k po)"
  "(\<And>r. A (PlDelete i r)) \<Longrightarrow> emits A (plDelete E k i)"
  "(\<And>r. A (MbList i r)) \<Longrightarrow> emits A (mbList E k i)"
  "(\<And>r. A (MbCreate i mo r)) \<Longrightarrow> emits A (mbCreate E k i mo)"
  "(\<And>r. A (MbDelete i j r)) \<Longrightarrow> emits A (mbDelete E k i j)"
  "(\<And>r. A (MoGet i r)) \<Longrightarrow> emits A (moGet E k i)"
  "(\<And>r. A (MoCreate oo r)) \<Longrightarrow> emits A (moCreate E k oo)"
  "(\<And>r. A (MoUpdate i ou r)) \<Longrightarrow> emits A (moUpdate E k i ou)"
  "(\<And>r. A (MoDelete i r)) \<Longrightarrow> emits A (moDelete E k i)"
  "(\<And>r. A (IgGet i r)) \<Longrightarrow> emits A (igGet E k i)"
  "(\<And>r. A (IgCreate go r)) \<Longrightarrow> emits A (igCreate E k go)"
  "(\<And>r. A (IgUpdate i ips r)) \<Longrightarrow> emits A (igUpdate E k i ips)"
  "(\<And>r. A (IgDelete i r)) \<Longrightarrow> emits A (igDelete E k i)"
  "(\<And>r. A (EipDelete i r)) \<Longrightarrow> emits A (eipDelete E k i)"
  by (simp_all add: sdk_defs emits_sdkCall)

end
