(* ===== verification/Elb_Wait.thy ===== *)
theory Elb_Wait
  imports Elb_Trace
begin

section \<open>Retrying and waiting\<close>

text \<open>
  The error classification of \<open>elb.go\<close> and its three waiting helpers \<open>waitForActive\<close>,
  \<open>retryOnConflict\<close> and \<open>mutate\<close>, with the documented contract of the \<open>wait\<close> package they
  use as a locale: the condition is called a bounded number of times until it is done or fails, and
  when the library gives up it returns its own timeout error or the context's error.
\<close>

subsection \<open>Error classification\<close>

text \<open>\<open>errors.As\<close> looks through the \<open>%w\<close> wrappers.\<close>

fun isNotFound :: "err \<Rightarrow> bool" where
  "isNotFound (Http n) = (n = 404)"
| "isNotFound ResourceNotFound = True"
| "isNotFound (Wrapf fmt args e) = isNotFound e"
| "isNotFound _ = False"

fun isConflict :: "err \<Rightarrow> bool" where
  "isConflict (Http n) = (n = 409)"
| "isConflict (Wrapf fmt args e) = isConflict e"
| "isConflict _ = False"

fun isBadRequest :: "err \<Rightarrow> bool" where
  "isBadRequest (Http n) = (n = 400)"
| "isBadRequest (Wrapf fmt args e) = isBadRequest e"
| "isBadRequest _ = False"

lemma error_classes_disjoint:
  "\<not> (isNotFound e \<and> isConflict e) \<and> \<not> (isNotFound e \<and> isBadRequest e) \<and> \<not> (isConflict e \<and> isBadRequest e)"
  by (induction e) auto

text \<open>\<open>err != nil && !isNotFound(err)\<close>: an error handler that takes "gone" for success.\<close>

definition ignoreNotFound :: "string \<Rightarrow> string list \<Rightarrow> ('w, unit) go \<Rightarrow> ('w, unit) go" where
  "ignoreNotFound fmt args m = catchG m (\<lambda>e. if isNotFound e then returnG () else failG (Wrapf fmt args e))"

lemma emits_ignoreNotFound [emits_rules]: "emits A m \<Longrightarrow> emits A (ignoreNotFound fmt args m)"
  unfolding ignoreNotFound_def by (intro emits_rules)

subsection \<open>The helpers\<close>

definition statusActive :: string where "statusActive = ''ACTIVE''"
definition statusError :: string where "statusError = ''ERROR''"
definition activePollIntervalMs :: nat where "activePollIntervalMs = 3000"
definition activePollTimeoutMs :: nat where "activePollTimeoutMs = 300000"

definition activeCond :: "('k, 'c) env \<Rightarrow> 'k \<Rightarrow> string \<Rightarrow> ('c world, bool) go" where
  "activeCond E k lbID =
     bindG (lbGet E k lbID) (\<lambda>balancer.
       if lb_ProvisioningStatus balancer = statusActive then returnG True
       else if lb_ProvisioningStatus balancer = statusError then
         failG (Errorf ''load balancer %s is in ERROR state'' [lbID])
       else returnG False)"

definition waitForActive :: "('k, 'c) env \<Rightarrow> 'k \<Rightarrow> string \<Rightarrow> ('c world, unit) go" where
  "waitForActive E k lbID =
     pollUntilContextTimeout E activePollIntervalMs activePollTimeoutMs True (activeCond E k lbID)"

definition retryCond :: "('w, unit) go \<Rightarrow> ('w, bool) go" where
  "retryCond fn = catchG (bindG fn (\<lambda>_. returnG True)) (\<lambda>e. if isConflict e then returnG False else failG e)"

definition conflictBackoff :: Backoff where
  "conflictBackoff = \<lparr>bo_DurationMs = 2000, bo_FactorTenths = 15, bo_Steps = 6\<rparr>"

definition retryOnConflict :: "('k, 'c) env \<Rightarrow> string \<Rightarrow> ('c world, unit) go \<Rightarrow> ('c world, unit) go" where
  "retryOnConflict E lbID fn = exponentialBackoff E conflictBackoff (retryCond fn)"

definition mutate :: "('k, 'c) env \<Rightarrow> 'k \<Rightarrow> string \<Rightarrow> ('c world, unit) go \<Rightarrow> ('c world, unit) go" where
  "mutate E k lbID fn = bindG (retryOnConflict E lbID fn) (\<lambda>_. waitForActive E k lbID)"

subsection \<open>The contract of the \<open>wait\<close> package\<close>

text \<open>\<open>attempts n e cond\<close> calls the condition at most \<open>n\<close> times and gives up with \<open>e\<close>.\<close>

fun attempts :: "nat \<Rightarrow> err \<Rightarrow> ('w, bool) go \<Rightarrow> ('w, unit) go" where
  "attempts 0 e cond = failG e"
| "attempts (Suc n) e cond = bindG cond (\<lambda>ok. if ok then returnG () else attempts n e cond)"

lemma run_attempts [run]:
  "attempts 0 e cond w = (Fail e, w)"
  "attempts (Suc n) e cond w = bindG cond (\<lambda>ok. if ok then returnG () else attempts n e cond) w"
  "attempts (numeral k) e cond w =
     bindG cond (\<lambda>ok. if ok then returnG () else attempts (pred_numeral k) e cond) w"
  by (simp_all add: numeral_eq_Suc)

declare activeCond_def [THEN fun_cong, run] waitForActive_def [THEN fun_cong, run]
  retryCond_def [THEN fun_cong, run] retryOnConflict_def [THEN fun_cong, run]
  mutate_def [THEN fun_cong, run] ignoreNotFound_def [THEN fun_cong, run]
  activePollIntervalMs_def [run] activePollTimeoutMs_def [run] conflictBackoff_def [run]
  statusActive_def [run] statusError_def [run]

definition gaveUp :: "err \<Rightarrow> bool" where
  "gaveUp e \<longleftrightarrow> e = WaitTimeout \<or> e = CtxDone"

lemma gaveUp_class: "gaveUp e \<Longrightarrow> \<not> isNotFound e \<and> \<not> isConflict e \<and> \<not> isBadRequest e"
  by (auto simp: gaveUp_def)

lemma attempts_emits: "emits A cond \<Longrightarrow> emits A (attempts n e cond)"
  by (induction n) (auto intro!: emits_rules)

lemma attempts_count:
  assumes "produces cond (\<lambda>es _. length es \<le> c)"
  shows "produces (attempts n e cond) (\<lambda>es _. length es \<le> n * c)"
proof (induction n)
  case 0
  show ?case by (auto intro: produces_fail)
next
  case (Suc n)
  show ?case
    unfolding attempts.simps
    by (rule produces_bind [OF assms, where R = "\<lambda>ok es r. length es \<le> n * c"])
      (use Suc in \<open>auto intro: produces_return\<close>)
qed

text \<open>When the attempts succeed, the last call of the condition said so.\<close>

lemma attempts_Ok:
  assumes "attempts n e cond w = (Ok (), w')"
  shows "\<exists>w1. cond w1 = (Ok True, w')"
  using assms
  by (induction n arbitrary: w) (auto elim!: bindG_OkE split: if_splits)

lemma attempts_Fail:
  assumes "attempts n e cond w = (Fail e', w')"
  shows "e' = e \<or> (\<exists>w1. cond w1 = (Fail e', w'))"
  using assms
  by (induction n arbitrary: w) (auto elim!: bindG_cases split: if_splits)

lemma attempts_invariant:
  assumes "\<And>w r w'. I w \<Longrightarrow> cond w = (r, w') \<Longrightarrow> I w'" and "I w" and "attempts n e cond w = (r, w')"
  shows "I w'"
  using assms(2,3)
proof (induction n arbitrary: w)
  case (Suc n)
  from Suc.prems(2) [unfolded attempts.simps] show ?case
    by (cases rule: bindG_cases) (use Suc assms(1) in \<open>auto split: if_splits\<close>)
qed simp

locale wait_contract =
  fixes E :: "('k, 'c) env"
  assumes backoff_attempts:
      "\<exists>n e. n \<le> bo_Steps b \<and> gaveUp e \<and> exponentialBackoff E b cond w = attempts n e cond w"
    and poll_attempts:
      "\<exists>n e. (immediate \<longrightarrow> 0 < n) \<and> gaveUp e \<and>
         pollUntilContextTimeout E interval timeout immediate cond w = attempts n e cond w"
begin

lemma backoffE:
  obtains n e where "n \<le> bo_Steps b" and "gaveUp e"
    and "exponentialBackoff E b cond w = attempts n e cond w"
  using backoff_attempts by blast

lemma pollE:
  obtains n e where "gaveUp e"
    and "pollUntilContextTimeout E interval timeout immediate cond w = attempts n e cond w"
  using poll_attempts by blast

lemma backoff_emits:
  assumes "emits A cond"
  shows "emits A (exponentialBackoff E b cond)"
  unfolding emits_def
proof (rule producesI)
  fix w r w'
  assume "exponentialBackoff E b cond w = (r, w')"
  then obtain n e where "attempts n e cond w = (r, w')" by (metis backoffE)
  with attempts_emits [OF assms] obtain es where "trace w' = trace w @ es" "\<forall>e \<in> set es. A e"
    by (rule emitsD)
  then show "\<exists>es. trace w' = trace w @ es \<and> (\<forall>e \<in> set es. A e)" by blast
qed

lemma poll_emits:
  assumes "emits A cond"
  shows "emits A (pollUntilContextTimeout E i t im cond)"
  unfolding emits_def
proof (rule producesI)
  fix w r w'
  assume "pollUntilContextTimeout E i t im cond w = (r, w')"
  then obtain n e where "attempts n e cond w = (r, w')" by (metis pollE)
  with attempts_emits [OF assms] obtain es where "trace w' = trace w @ es" "\<forall>e \<in> set es. A e"
    by (rule emitsD)
  then show "\<exists>es. trace w' = trace w @ es \<and> (\<forall>e \<in> set es. A e)" by blast
qed

lemma retry_emits: "emits A fn \<Longrightarrow> emits A (retryOnConflict E lbID fn)"
  unfolding retryOnConflict_def retryCond_def by (intro backoff_emits emits_rules)

lemma active_emits: "(\<And>r. A (LbGet lbID r)) \<Longrightarrow> emits A (waitForActive E k lbID)"
  unfolding waitForActive_def activeCond_def by (intro poll_emits emits_rules)

lemma mutate_emits: "emits A fn \<Longrightarrow> (\<And>r. A (LbGet lbID r)) \<Longrightarrow> emits A (mutate E k lbID fn)"
  unfolding mutate_def by (intro retry_emits active_emits emits_rules)

lemma retryE:
  assumes "retryOnConflict E lbID fn w = (r, w')"
  obtains n e where "n \<le> 6" and "gaveUp e" and "attempts n e (retryCond fn) w = (r, w')"
  using assms backoffE [of conflictBackoff "retryCond fn" w]
  unfolding retryOnConflict_def by (metis Backoff.select_convs(3) conflictBackoff_def)

lemma activeE:
  assumes "waitForActive E k lbID w = (r, w')"
  obtains n e where "gaveUp e" and "attempts n e (activeCond E k lbID) w = (r, w')"
  using assms pollE unfolding waitForActive_def by metis

lemma retry_count:
  assumes "produces fn (\<lambda>es _. length es \<le> c)"
  shows "produces (retryOnConflict E lbID fn) (\<lambda>es _. length es \<le> 6 * c)"
proof (rule producesI)
  fix w r w'
  assume run: "retryOnConflict E lbID fn w = (r, w')"
  obtain n e where n: "n \<le> 6" "attempts n e (retryCond fn) w = (r, w')"
    using run by (rule retryE)
  have cond: "produces (retryCond fn) (\<lambda>es _. length es \<le> c)"
    unfolding retryCond_def
    by (rule produces_catch [where P = "\<lambda>es _. length es \<le> c" and R = "\<lambda>_ es _. es = []"])
      (auto intro!: produces_bind [OF assms, where R = "\<lambda>_ es _. es = []"] intro: produces_return produces_fail)
  obtain es where "trace w' = trace w @ es" "length es \<le> n * c"
    using attempts_count [OF cond] n(2) by (rule producesE)
  then show "\<exists>es. trace w' = trace w @ es \<and> length es \<le> 6 * c"
    using n(1) by (meson le_trans mult_le_mono1)
qed

lemma retry_Ok:
  assumes "retryOnConflict E lbID fn w = (Ok (), w')"
  shows "\<exists>w1. fn w1 = (Ok (), w')"
proof -
  obtain n e where "attempts n e (retryCond fn) w = (Ok (), w')"
    using assms by (rule retryE)
  then obtain w1 where "retryCond fn w1 = (Ok True, w')"
    by (blast dest: attempts_Ok)
  then have "fn w1 = (Ok (), w')"
    by (auto simp: retryCond_def catchG_def bindG_def returnG_def failG_def
        split: prod.splits res.splits if_splits)
  then show ?thesis by blast
qed

lemma retry_Fail:
  assumes "retryOnConflict E lbID fn w = (Fail e, w')"
  shows "gaveUp e \<or> (\<not> isConflict e \<and> (\<exists>w1. fn w1 = (Fail e, w')))"
proof -
  obtain n e' where n: "gaveUp e'" "attempts n e' (retryCond fn) w = (Fail e, w')"
    using assms by (rule retryE)
  from attempts_Fail [OF n(2)] show ?thesis
    using n(1) by (auto simp: retryCond_def catchG_def bindG_def split: prod.splits res.splits if_splits)
qed

lemma active_Ok:
  assumes "waitForActive E k lbID w = (Ok (), w')"
  shows "\<exists>es b. trace w' = es @ [LbGet lbID (Inr b)] \<and> lb_ProvisioningStatus b = statusActive"
proof -
  obtain n e where "attempts n e (activeCond E k lbID) w = (Ok (), w')"
    using assms by (rule activeE)
  then obtain w1 where "activeCond E k lbID w1 = (Ok True, w')"
    by (blast dest: attempts_Ok)
  then show ?thesis
    by (auto simp: activeCond_def lbGet_def sdkCall_def bindG_def
        split: prod.splits res.splits if_splits sum.splits)
qed

lemma active_vars:
  assumes "waitForActive E k lbID w = (r, w')"
  shows "v_listener w' = v_listener w \<and> v_pool w' = v_pool w"
proof -
  obtain n e where run: "attempts n e (activeCond E k lbID) w = (r, w')"
    using assms by (rule activeE)
  show ?thesis
    by (rule attempts_invariant [OF _ _ run, where I = "\<lambda>u. v_listener u = v_listener w \<and> v_pool u = v_pool w"])
      (auto simp: activeCond_def lbGet_def sdkCall_def bindG_def split: prod.splits res.splits if_splits sum.splits)
qed

lemma mutate_Ok:
  assumes "mutate E k lbID fn w = (Ok (), w')"
  obtains w1 w2 where "fn w1 = (Ok (), w2)" and "waitForActive E k lbID w2 = (Ok (), w')"
proof -
  obtain u w2 where "retryOnConflict E lbID fn w = (Ok u, w2)" "waitForActive E k lbID w2 = (Ok (), w')"
    using assms unfolding mutate_def by (rule bindG_OkE)
  then show ?thesis using retry_Ok that by fastforce
qed

text \<open>After a successful mutation the variables are what the last, successful attempt left.\<close>

lemma mutate_Ok_vars:
  assumes "mutate E k lbID fn w = (Ok (), w')" and "\<And>w1 w2. fn w1 = (Ok (), w2) \<Longrightarrow> P (v_listener w2) (v_pool w2)"
  shows "P (v_listener w') (v_pool w')"
proof -
  obtain w1 w2 where "fn w1 = (Ok (), w2)" "waitForActive E k lbID w2 = (Ok (), w')"
    using assms(1) by (rule mutate_Ok)
  then show ?thesis using assms(2) by (simp add: active_vars)
qed

end

text \<open>A context that is never cancelled: all steps of the backoff are used.\<close>

locale patient_wait = wait_contract +
  assumes all_steps: "exponentialBackoff E b cond w = attempts (bo_Steps b) WaitTimeout cond w"

end
