(* ===== verification/Elb_Helpers.thy ===== *)
theory Elb_Helpers
  imports Elb_Wait
begin

section \<open>The pure helpers of \<open>pkg/elb\<close>\<close>

text \<open>
  Names and keys, port validation, node addresses, the published status, session persistence, the
  wanted health probe, and the comparison of source ranges. Each has its specification as a property.
\<close>

subsection \<open>Names and keys\<close>

definition lbNamePrefix :: string where "lbNamePrefix = ''kube_service''"
definition maxResourceNameLength :: nat where "maxResourceNameLength = 255"

definition cutString :: "string \<Rightarrow> nat \<Rightarrow> string" where
  "cutString s n = (if length s > n then take n s else s)"

definition GetLoadBalancerName :: "string \<Rightarrow> Service \<Rightarrow> string" where
  "GetLoadBalancerName clusterName service =
     cutString (lbNamePrefix @ ''_'' @ clusterName @ ''_'' @ Namespace service @ ''_'' @ ServiceName service)
       maxResourceNameLength"

text \<open>\<open>cutString(fmt.Sprintf("%s_%s_%d", name, port.Protocol, port.Port), maxResourceNameLength)\<close>, the
  name of every listener, pool, monitor and IP group.\<close>

definition resourceName :: "string \<Rightarrow> ServicePort \<Rightarrow> string" where
  "resourceName name port =
     cutString (name @ ''_'' @ Protocol port @ ''_'' @ dec_int (Port port)) maxResourceNameLength"

definition portKey :: "ServicePort \<Rightarrow> string" where
  "portKey port = Protocol port @ ''/'' @ dec_int (Port port)"

definition listenerKey :: "ListenerObj \<Rightarrow> string" where
  "listenerKey l = ls_Protocol l @ ''/'' @ dec_int (ls_ProtocolPort l)"

definition listenersByKey :: "ListenerObj list \<Rightarrow> (string \<rightharpoonup> ListenerObj)" where
  "listenersByKey items = foldl (\<lambda>m l. m(listenerKey l \<mapsto> l)) Map.empty items"

definition memberKey :: "string \<Rightarrow> int \<Rightarrow> string" where
  "memberKey addr p = addr @ '':'' @ dec_int p"

lemma length_cutString [simp]: "length (cutString s n) = min (length s) n"
  by (simp add: cutString_def)

lemma cutString_short: "length s \<le> n \<Longrightarrow> cutString s n = s"
  by (simp add: cutString_def)

lemma prefix_cutString: "prefix p (cutString s n) \<longleftrightarrow> prefix p s \<and> length p \<le> min (length s) n"
proof
  assume p: "prefix p (cutString s n)"
  have "prefix (cutString s n) s"
    by (simp add: cutString_def take_is_prefix)
  with p show "prefix p s \<and> length p \<le> min (length s) n"
    using prefix_length_le [OF p] by (auto intro: prefix_order.trans)
next
  assume "prefix p s \<and> length p \<le> min (length s) n"
  then show "prefix p (cutString s n)"
    by (auto simp: cutString_def prefix_def)
qed

lemma portKey_inject: "portKey p = portKey q \<longleftrightarrow> Protocol p = Protocol q \<and> Port p = Port q"
  by (simp add: portKey_def sep_dec_int_inject)

lemma portKey_listenerKey:
  "portKey p = listenerKey l \<longleftrightarrow> Protocol p = ls_Protocol l \<and> Port p = ls_ProtocolPort l"
  by (simp add: portKey_def listenerKey_def sep_dec_int_inject)

lemma listenerKey_portKey:
  "listenerKey l = portKey p \<longleftrightarrow> ls_Protocol l = Protocol p \<and> ls_ProtocolPort l = Port p"
  by (simp add: portKey_def listenerKey_def sep_dec_int_inject)

lemma memberKey_inject [simp]: "memberKey a p = memberKey b q \<longleftrightarrow> a = b \<and> p = q"
  by (simp add: memberKey_def sep_dec_int_inject)

lemma listenersByKey_snoc:
  "listenersByKey (ls @ [l]) = (listenersByKey ls)(listenerKey l \<mapsto> l)"
  by (simp add: listenersByKey_def)

lemma listenersByKey_Some: "listenersByKey ls key = Some l \<Longrightarrow> l \<in> set ls \<and> listenerKey l = key"
  by (induction ls rule: rev_induct) (auto simp: listenersByKey_snoc listenersByKey_def [of "[]"] split: if_splits)

lemma listenersByKey_None: "listenersByKey ls key = None \<longleftrightarrow> (\<forall>l \<in> set ls. listenerKey l \<noteq> key)"
  by (induction ls rule: rev_induct) (auto simp: listenersByKey_snoc listenersByKey_def [of "[]"])

subsection \<open>Validation, addresses, status\<close>

definition validatePorts :: "Service \<Rightarrow> err + unit" where
  "validatePorts service =
     (case filter (\<lambda>port. Protocol port \<noteq> ''TCP'' \<and> Protocol port \<noteq> ''UDP'') (Ports service) of
        [] \<Rightarrow> Inr ()
      | port # _ \<Rightarrow> Inl (Errorf ''protocol %s of port %d is not supported by ELB (only TCP and UDP)''
          [Protocol port, dec_int (Port port)]))"

text \<open>The loop of \<open>nodeAddress\<close>: the first non-empty internal address returns at once; \<open>external\<close>
  is the variable of that name.\<close>

fun scanAddresses :: "NodeAddress list \<Rightarrow> string \<Rightarrow> string option \<times> string" where
  "scanAddresses [] external = (None, external)"
| "scanAddresses (addr # addrs) external =
     (if AddrType addr = ''InternalIP'' then
        (if Address addr \<noteq> '''' then (Some (Address addr), external) else scanAddresses addrs external)
      else if AddrType addr = ''ExternalIP'' then
        scanAddresses addrs (if external = '''' then Address addr else external)
      else scanAddresses addrs external)"

definition nodeAddress :: "Node \<Rightarrow> err + string" where
  "nodeAddress node =
     (case scanAddresses (Addresses node) '''' of
        (Some a, _) \<Rightarrow> Inr a
      | (None, external) \<Rightarrow>
          if external \<noteq> '''' then Inr external
          else Inl (Errorf ''node %s has no internal or external IP address'' [NodeName node]))"

record LoadBalancerStatus =
  Ingress :: "string list"

definition lbStatus :: "BalancerObj \<Rightarrow> LoadBalancerStatus" where
  "lbStatus balancer =
     (let ips = filter (\<lambda>a. a \<noteq> '''') (map PublicIpAddress (lb_PublicIps balancer))
      in \<lparr>Ingress = (if ips = [] \<and> lb_VipAddress balancer \<noteq> '''' then [lb_VipAddress balancer] else ips)\<rparr>)"

subsection \<open>Session persistence\<close>

text \<open>\<open>int((*t + 59) / 60)\<close> clamped to 1..60, with the addition on \<open>int32\<close> and Go's division, which
  truncates.\<close>

definition timeoutMinutes :: "32 word \<Rightarrow> int" where
  "timeoutMinutes t =
     (let minutes = sint (t + 59) sdiv 60;
          minutes = (if minutes < 1 then 1 else minutes)
      in if minutes > 60 then 60 else minutes)"

definition affinityTimeout :: "Service \<Rightarrow> 32 word option" where
  "affinityTimeout service =
     (case AffinityConfig service of None \<Rightarrow> None
      | Some cfg \<Rightarrow> (case ClientIP cfg of None \<Rightarrow> None | Some c \<Rightarrow> TimeoutSeconds c))"

definition desiredPersistence :: "Service \<Rightarrow> SessionPersistence option" where
  "desiredPersistence service =
     (if SessionAffinity service \<noteq> ''ClientIP'' then None
      else Some \<lparr>sp_Type = ''SOURCE_IP'',
        sp_PersistenceTimeout = (case affinityTimeout service of None \<Rightarrow> 0 | Some t \<Rightarrow> timeoutMinutes t)\<rparr>)"

definition persistenceEqual :: "SessionPersistence option \<Rightarrow> SessionPersistence option \<Rightarrow> bool" where
  "persistenceEqual a b =
     (case (a, b) of
        (Some x, Some y) \<Rightarrow> sp_Type x = sp_Type y \<and> sp_PersistenceTimeout x = sp_PersistenceTimeout y
      | _ \<Rightarrow> a = None \<and> b = None)"

lemma persistenceEqual_iff [simp]: "persistenceEqual a b \<longleftrightarrow> a = b"
  by (auto simp: persistenceEqual_def split: option.splits)

subsection \<open>The wanted health probe\<close>

record Probe =
  pr_Type :: string
  pr_Port :: int
  pr_URLPath :: string
  pr_HTTPMethod :: string

definition desiredProbe :: "serviceSettings \<Rightarrow> Service \<Rightarrow> ServicePort \<Rightarrow> Probe" where
  "desiredProbe settings service port =
     (if Protocol port = ''UDP'' then
        \<lparr>pr_Type = ''UDP_CONNECT'', pr_Port = 0, pr_URLPath = '''', pr_HTTPMethod = ''''\<rparr>
      else if ExternalTrafficPolicy service = ''Local'' \<and> HealthCheckNodePort service > 0 then
        \<lparr>pr_Type = ''HTTP'', pr_Port = HealthCheckNodePort service, pr_URLPath = ''/healthz'', pr_HTTPMethod = ''GET''\<rparr>
      else if HealthCheckProtocol settings = ''HTTP'' \<or> HealthCheckProtocol settings = ''HTTPS'' then
        \<lparr>pr_Type = HealthCheckProtocol settings, pr_Port = 0,
         pr_URLPath = (if HealthCheckURLPath settings = '''' then ''/'' else HealthCheckURLPath settings),
         pr_HTTPMethod = (if HealthCheckHTTPMethod settings = '''' then ''GET'' else HealthCheckHTTPMethod settings)\<rparr>
      else \<lparr>pr_Type = ''TCP'', pr_Port = 0, pr_URLPath = '''', pr_HTTPMethod = ''''\<rparr>)"

subsection \<open>Source ranges\<close>

definition normalizeRanges :: "string list \<Rightarrow> string list" where
  "normalizeRanges ranges = filter (\<lambda>r. r \<noteq> '''') (map TrimSpace ranges)"

text \<open>\<open>[]IpGroupOption{{Ip: r}, ...}\<close> is the list of its addresses.\<close>

definition ipList :: "string list \<Rightarrow> string list" where
  "ipList ranges = ranges"

definition ipListEqual :: "string list \<Rightarrow> string list \<Rightarrow> bool" where
  "ipListEqual current ranges \<longleftrightarrow>
     length current = length ranges \<and> list_all (\<lambda>r. r \<in> set current) ranges"

subsection \<open>Ownership by name\<close>

text \<open>
  A Service owns the listeners and IP groups whose name starts with the balancer's name and an
  underscore.
\<close>

definition owned :: "string \<Rightarrow> string \<Rightarrow> bool" where
  "owned name resource \<longleftrightarrow> HasPrefix resource (name @ ''_'')"

text \<open>
  C38: a resource the provider names itself is recognised as its own exactly when the balancer's name
  is shorter than 255 bytes. A longer name fills the whole resource name, so the listeners and IP
  groups of such a Service are never taken for its own again (and never cleaned up as stale or on a
  shared balancer).
\<close>

theorem resource_owned_iff: "owned name (resourceName name port) \<longleftrightarrow> length name < 255"
proof -
  have "dec_int (Port port) \<noteq> []"
    by (auto simp: dec_int_def)
  then show ?thesis
    by (auto simp: owned_def HasPrefix_def resourceName_def prefix_cutString maxResourceNameLength_def)
qed

lemma split_label:
  assumes "c \<notin> set a" and "c \<notin> set b"
  shows "prefix (a @ c # s) (b @ c # t) \<longleftrightarrow> a = b \<and> prefix s t"
  using assms
proof (induction a arbitrary: b)
  case Nil
  then show ?case by (cases b) auto
next
  case (Cons x a)
  then show ?case by (cases b) auto
qed

lemma split_label_eq:
  assumes "c \<notin> set a" and "c \<notin> set b"
  shows "a @ c # s = b @ c # t \<longleftrightarrow> a = b \<and> s = t"
  using split_label [OF assms] by (metis append_Cons append_eq_append_conv2 prefix_order.eq_iff same_append_eq)

text \<open>Namespaces and Service names are DNS labels: they hold no underscore.\<close>

definition k8s_names :: "Service \<Rightarrow> bool" where
  "k8s_names s \<longleftrightarrow> CHR ''_'' \<notin> set (Namespace s) \<and> CHR ''_'' \<notin> set (ServiceName s)"

definition fullName :: "string \<Rightarrow> Service \<Rightarrow> string" where
  "fullName clusterName s =
     lbNamePrefix @ ''_'' @ clusterName @ ''_'' @ Namespace s @ ''_'' @ ServiceName s"

lemma GetLoadBalancerName_full: "GetLoadBalancerName clusterName s = cutString (fullName clusterName s) 255"
  by (simp add: GetLoadBalancerName_def fullName_def maxResourceNameLength_def)

lemma fullName_owned:
  assumes "k8s_names s1" and "k8s_names s2"
    and "prefix (fullName c s1 @ ''_'') (fullName c s2 @ CHR ''_'' # rest)"
  shows "Namespace s1 = Namespace s2 \<and> ServiceName s1 = ServiceName s2"
  using assms split_label [of "CHR ''_''"]
  by (auto simp: fullName_def k8s_names_def)

lemma owned_unique:
  assumes "k8s_names s1" and "k8s_names s2"
    and "length (fullName c s1) < 255" and "length (fullName c s2) < 255"
    and "owned (GetLoadBalancerName c s1) (resourceName (GetLoadBalancerName c s2) port)"
  shows "Namespace s1 = Namespace s2 \<and> ServiceName s1 = ServiceName s2"
proof (rule fullName_owned [OF assms(1,2)])
  have "GetLoadBalancerName c s1 = fullName c s1" "GetLoadBalancerName c s2 = fullName c s2"
    using assms(3,4) by (simp_all add: GetLoadBalancerName_full cutString_short)
  with assms(5) show "prefix (fullName c s1 @ ''_'')
      (fullName c s2 @ CHR ''_'' # (Protocol port @ ''_'' @ dec_int (Port port)))"
    by (auto simp: owned_def HasPrefix_def resourceName_def prefix_cutString)
qed

text \<open>
  C23: within one cluster, Services never own each other's resources: when a resource created for one
  Service carries the ownership prefix of another, the two are the same Service, provided the names
  fit. So Services that share a balancer do not delete each other's listeners.
\<close>

theorem ownership_exclusive:
  assumes "k8s_names s1" and "k8s_names s2"
    and "length (fullName c s1) < 255" and "length (fullName c s2) < 255"
    and "owned (GetLoadBalancerName c s1) (resourceName (GetLoadBalancerName c s2) port)"
  shows "Namespace s1 = Namespace s2 \<and> ServiceName s1 = ServiceName s2"
  using assms by (rule owned_unique)

text \<open>
  Across clusters they are not: the cluster's name may hold underscores, so the Service \<open>a\<close> of namespace \<open>n\<close>
  in cluster \<open>c\<close> owns what the Services of namespace \<open>a\<close> in cluster \<open>c_n\<close> create.
\<close>

lemma cross_cluster_ownership:
  assumes "Namespace s2 = ServiceName s1"
    and "length (fullName c s1) < 255"
  shows "owned (GetLoadBalancerName c s1) (resourceName (GetLoadBalancerName (c @ ''_'' @ Namespace s1) s2) port)"
proof -
  have full: "fullName (c @ ''_'' @ Namespace s1) s2 = fullName c s1 @ ''_'' @ ServiceName s2"
    using assms(1) by (simp add: fullName_def)
  have "GetLoadBalancerName c s1 = fullName c s1" using assms(2) by (simp add: GetLoadBalancerName_full cutString_short)
  moreover obtain n where n: "255 - length (fullName c s1) = Suc n" using assms(2) by (cases "255 - length (fullName c s1)") auto
  ultimately show ?thesis
    using assms(2) unfolding owned_def HasPrefix_def resourceName_def GetLoadBalancerName_full full
    by (auto simp: prefix_cutString cutString_def maxResourceNameLength_def n)
qed

definition web_service :: "ServicePort list \<Rightarrow> Service" where
  "web_service ports = (plain_service Map.empty)\<lparr>Ports := ports\<rparr>"

definition port80 :: ServicePort where
  "port80 = \<lparr>Protocol = ''TCP'', Port = 80, NodePort = 30080\<rparr>"

theorem ownership_exclusive_witness:
  "owned (GetLoadBalancerName ''c'' (web_service [])) (resourceName (GetLoadBalancerName ''c'' (web_service [port80])) port80) \<and>
   Namespace (web_service []) = Namespace (web_service [port80])"
proof -
  have o1: "owned (GetLoadBalancerName ''c'' (web_service [])) (resourceName (GetLoadBalancerName ''c'' (web_service [port80])) port80)"
    by code_simp
  have k: "k8s_names (web_service [])" "k8s_names (web_service [port80])"
    by (simp_all add: k8s_names_def web_service_def plain_service_def)
  have l: "length (fullName ''c'' (web_service [])) < 255" "length (fullName ''c'' (web_service [port80])) < 255"
    by (simp_all add: fullName_def web_service_def plain_service_def lbNamePrefix_def)
  from ownership_exclusive [OF k l o1] o1 show ?thesis by simp
qed

text \<open>Names of Services that fit into 255 bytes are equal only for the same namespace and name.\<close>

lemma GetLoadBalancerName_injective:
  assumes "k8s_names s1" and "k8s_names s2"
    and "length (fullName c s1) \<le> 255" and "length (fullName c s2) \<le> 255"
    and "GetLoadBalancerName c s1 = GetLoadBalancerName c s2"
  shows "Namespace s1 = Namespace s2 \<and> ServiceName s1 = ServiceName s2"
proof (rule fullName_owned [OF assms(1,2)])
  show "prefix (fullName c s1 @ ''_'') (fullName c s2 @ CHR ''_'' # [])"
    using assms(3-5) by (simp add: GetLoadBalancerName_full cutString_short)
qed

text \<open>
  Past 255 bytes it does not: for a cluster name that fills the limit all Services of the cluster
  get one and the same balancer name, so they are taken for one Service.
\<close>

lemma GetLoadBalancerName_collision:
  "\<exists>c. \<forall>s1 s2. GetLoadBalancerName c s1 = GetLoadBalancerName c s2"
proof (intro exI allI)
  fix s1 s2
  show "GetLoadBalancerName (replicate 242 CHR ''c'') s1 = GetLoadBalancerName (replicate 242 CHR ''c'') s2"
    by (simp add: GetLoadBalancerName_full fullName_def cutString_def lbNamePrefix_def)
qed

subsection \<open>Keys\<close>

text \<open>The lookup finds a listener with exactly the protocol and port if there is one.\<close>

lemma listenersByKey_spec:
  "case listenersByKey ls (portKey port) of
     None \<Rightarrow> \<not> (\<exists>l \<in> set ls. ls_Protocol l = Protocol port \<and> ls_ProtocolPort l = Port port)
   | Some l \<Rightarrow> l \<in> set ls \<and> ls_Protocol l = Protocol port \<and> ls_ProtocolPort l = Port port"
  using listenersByKey_Some listenersByKey_None
  by (fastforce simp: listenerKey_portKey split: option.splits)

subsection \<open>Ports, addresses, status\<close>

lemma validatePorts_iff:
  "validatePorts service = Inr () \<longleftrightarrow> (\<forall>p \<in> set (Ports service). Protocol p \<in> {''TCP'', ''UDP''})"
  by (auto simp: validatePorts_def filter_empty_conv split: list.splits dest!: filter_eq_ConsD)

abbreviation usable :: "string \<Rightarrow> NodeAddress \<Rightarrow> bool" where
  "usable ty a \<equiv> AddrType a = ty \<and> Address a \<noteq> ''''"

lemma scan_internal:
  "filter (usable ''InternalIP'') as = a # rest \<Longrightarrow> fst (scanAddresses as ext) = Some (Address a)"
  by (induction as arbitrary: ext) (auto split: if_splits)

lemma scan_external:
  "filter (usable ''InternalIP'') as = [] \<Longrightarrow> scanAddresses as ext =
     (None, if ext \<noteq> '''' then ext
            else case filter (usable ''ExternalIP'') as of a # _ \<Rightarrow> Address a | [] \<Rightarrow> '''')"
  by (induction as arbitrary: ext) (auto split: if_splits)

text \<open>The first non-empty internal address, else the first non-empty external one.\<close>

lemma nodeAddress_spec:
  "nodeAddress node =
     (case filter (\<lambda>a. Address a \<noteq> '''') (filter (\<lambda>a. AddrType a = ''InternalIP'') (Addresses node)) @
           filter (\<lambda>a. Address a \<noteq> '''') (filter (\<lambda>a. AddrType a = ''ExternalIP'') (Addresses node)) of
        a # _ \<Rightarrow> Inr (Address a)
      | [] \<Rightarrow> Inl (Errorf ''node %s has no internal or external IP address'' [NodeName node]))"
proof (cases "filter (usable ''InternalIP'') (Addresses node)")
  case (Cons a rest)
  then show ?thesis
    using scan_internal [OF Cons, of "''''"]
    by (auto simp: nodeAddress_def split: prod.splits)
next
  case Nil
  show ?thesis
  proof (cases "filter (usable ''ExternalIP'') (Addresses node)")
    case (Cons b rest)
    then have "Address b \<noteq> ''''" by (auto dest!: filter_eq_ConsD)
    with Nil Cons show ?thesis by (simp add: nodeAddress_def scan_external)
  qed (simp add: nodeAddress_def scan_external Nil)
qed

text \<open>
  The published status prefers public addresses: it lists the non-empty EIP addresses in order, or
  the private VIP when there is none; it never publishes an empty address, and is empty only when the
  balancer has no address at all.
\<close>

lemma lbStatus_spec:
  "'''' \<notin> set (Ingress (lbStatus b)) \<and>
   (if \<exists>p \<in> set (lb_PublicIps b). PublicIpAddress p \<noteq> ''''
    then set (Ingress (lbStatus b)) = PublicIpAddress ` set (lb_PublicIps b) - {''''}
    else Ingress (lbStatus b) = (if lb_VipAddress b = '''' then [] else [lb_VipAddress b]))"
  by (auto simp: lbStatus_def Let_def filter_empty_conv)

subsection \<open>Persistence timeout\<close>

lemma sdiv_nonneg: "0 \<le> (a::int) \<Longrightarrow> a sdiv 60 = a div 60"
  by (simp add: signed_divide_int_def sgn_if)

lemma sint_plus59:
  assumes "0 \<le> sint (t :: 32 word)" and "sint t \<le> 2147483588"
  shows "sint (t + 59) = sint t + 59"
  using assms by (simp add: signed_take_bit_int_eq_self_iff sint_word_ariths)

text \<open>
  C39: the persistence timeout sent to the balancer is always between 1 and 60 minutes; for every
  timeout below 2147483589 seconds it is the requested time rounded up to minutes, cut off at an hour,
  so it is never shorter than requested up to one hour. For the last 59 values of the type the
  addition wraps around and the timeout becomes one minute.
\<close>

theorem timeoutMinutes_spec:
  "1 \<le> timeoutMinutes t \<and> timeoutMinutes t \<le> 60 \<and>
   (0 \<le> sint t \<and> sint t \<le> 2147483588 \<longrightarrow>
      timeoutMinutes t = max 1 (min 60 ((sint t + 59) div 60)) \<and>
      (sint t \<le> 3600 \<longrightarrow> sint t \<le> 60 * timeoutMinutes t \<and> 60 * timeoutMinutes t < max 61 (sint t + 60))) \<and>
   timeoutMinutes 2147483589 = 1"
proof -
  have wrap: "timeoutMinutes 2147483589 = 1"
    by code_simp
  have "timeoutMinutes t = max 1 (min 60 ((sint t + 59) div 60)) \<and>
      (sint t \<le> 3600 \<longrightarrow> sint t \<le> 60 * timeoutMinutes t \<and> 60 * timeoutMinutes t < max 61 (sint t + 60))"
    if "0 \<le> sint t" "sint t \<le> 2147483588"
  proof -
    have "timeoutMinutes t = max 1 (min 60 ((sint t + 59) div 60))"
      using that by (simp add: timeoutMinutes_def Let_def sint_plus59 sdiv_nonneg)
    moreover have "60 * ((sint t + 59) div 60) \<le> sint t + 59" "sint t + 59 < 60 * ((sint t + 59) div 60) + 60"
      by presburger+
    ultimately show ?thesis using that by (auto simp: max_def min_def)
  qed
  with wrap show ?thesis
    by (auto simp: timeoutMinutes_def Let_def)
qed

theorem timeoutMinutes_spec_witness:
  "timeoutMinutes 600 = 10 \<and> timeoutMinutes 7200 = 60"
proof -
  have s: "sint (600 :: 32 word) = 600" "sint (7200 :: 32 word) = 7200" by simp_all
  show ?thesis
    using timeoutMinutes_spec [of 600] timeoutMinutes_spec [of 7200] by (simp add: s)
qed

subsection \<open>Comparison of source ranges\<close>

lemma ipListEqual_exact:
  assumes "distinct ranges" and "ipListEqual current ranges"
  shows "mset current = mset ranges"
proof -
  have sub: "set ranges \<subseteq> set current" and len: "length current = length ranges"
    using assms(2) by (auto simp: ipListEqual_def list_all_iff)
  have "card (set current) \<le> card (set ranges)"
    using len assms(1) by (metis card_length distinct_card)
  then have eq: "set ranges = set current"
    using sub by (metis card_seteq finite_set)
  then have "distinct current"
    using len assms(1) by (metis card_distinct distinct_card)
  then show ?thesis using eq assms(1) by (simp add: set_eq_iff_mset_eq_distinct)
qed

text \<open>
  C40: for source ranges without duplicates the comparison with an IP group is exact: it holds just
  when the group has the same addresses. With a duplicate it may hold for a group with an address
  that the Service does not list.
\<close>

theorem ipListEqual_spec:
  "(distinct ranges \<longrightarrow> (ipListEqual current ranges \<longleftrightarrow> mset current = mset ranges)) \<and>
   (a \<noteq> b \<longrightarrow> ipListEqual [a, b] [a, a] \<and> b \<notin> set [a, a])"
proof -
  have "mset current = mset ranges" if "distinct ranges" "ipListEqual current ranges"
    using that by (rule ipListEqual_exact)
  moreover have "ipListEqual current ranges" if "mset current = mset ranges"
    using mset_eq_length [OF that] mset_eq_setD [OF that] by (simp add: ipListEqual_def list_all_iff)
  moreover have "ipListEqual [a, b] [a, a]"
    by (simp add: ipListEqual_def)
  ultimately show ?thesis by auto
qed

theorem ipListEqual_spec_witness:
  "ipListEqual [''10.0.0.0/8'', ''0.0.0.0/0''] [''10.0.0.0/8'', ''10.0.0.0/8''] \<and>
   ipListEqual [''b'', ''a''] [''a'', ''b'']"
  using ipListEqual_spec [of "[]" "[]" "''10.0.0.0/8''" "''0.0.0.0/0''"]
    ipListEqual_spec [of "[''a'', ''b'']" "[''b'', ''a'']" "[]" "[]"]
  by simp

text \<open>The probe follows the port and the traffic policy; HTTP probes have an absolute path.\<close>

lemma desiredProbe_spec:
  assumes "settingsForService d service = Inr s"
  shows "(pr_Type (desiredProbe s service port) = ''UDP_CONNECT'' \<longleftrightarrow> Protocol port = ''UDP'') \<and>
    pr_Type (desiredProbe s service port) \<in> {''UDP_CONNECT'', ''TCP'', ''HTTP'', ''HTTPS''} \<and>
    (pr_Port (desiredProbe s service port) \<noteq> 0 \<longrightarrow> Protocol port \<noteq> ''UDP'' \<and>
       ExternalTrafficPolicy service = ''Local'' \<and> pr_Port (desiredProbe s service port) = HealthCheckNodePort service) \<and>
    (if pr_Type (desiredProbe s service port) \<in> {''HTTP'', ''HTTPS''}
     then HasPrefix (pr_URLPath (desiredProbe s service port)) ''/'' \<and> pr_HTTPMethod (desiredProbe s service port) \<noteq> ''''
     else pr_URLPath (desiredProbe s service port) = '''' \<and> pr_HTTPMethod (desiredProbe s service port) = '''')"
proof -
  have "HealthCheckURLPath s = '''' \<or> HasPrefix (HealthCheckURLPath s) ''/''"
    "HealthCheckProtocol s \<in> {'''', ''TCP'', ''HTTP'', ''HTTPS''}"
    using settingsForService_InrD [OF assms]
    by (auto simp: annotations_ok_split health_ok_def mergedSettings_def Let_def healthProtocols_def ToUpper_def)
  then show ?thesis
    by (auto simp: desiredProbe_def HasPrefix_def)
qed

end
