(* ===== verification/Elb_Lookup.thy ===== *)
theory Elb_Lookup
  imports Elb_Helpers
begin

section \<open>Lookups\<close>

text \<open>
  \<open>findLoadBalancer\<close>, \<open>findPoolForListener\<close>, \<open>listListeners\<close> and \<open>listMembers\<close>: the read-only
  part of \<open>elb.go\<close>. A pointer that may be nil is an option.
\<close>

text \<open>A get whose "not found" is no error: \<open>if isNotFound(err) { return nil, nil }\<close>.\<close>

definition getOrNone :: "string \<Rightarrow> string list \<Rightarrow> ('w, 'a) go \<Rightarrow> ('w, 'a option) go" where
  "getOrNone fmt args m =
     catchG (bindG m (\<lambda>x. returnG (Some x)))
       (\<lambda>e. if isNotFound e then returnG None else failG (Wrapf fmt args e))"

lemma emits_getOrNone [emits_rules]: "emits A m \<Longrightarrow> emits A (getOrNone fmt args m)"
  unfolding getOrNone_def by (intro emits_rules)

definition findLoadBalancer ::
  "('k, 'c) env \<Rightarrow> 'k \<Rightarrow> serviceSettings \<Rightarrow> string \<Rightarrow> ('c world, BalancerObj option) go" where
  "findLoadBalancer E k settings name =
     (if LoadBalancerID settings \<noteq> '''' then
        getOrNone ''failed to get load balancer %s: %w'' [LoadBalancerID settings]
          (lbGet E k (LoadBalancerID settings))
      else
        bindG (wrapG ''failed to list load balancers: %w'' [] (lbList E k name)) (\<lambda>pages.
        bindG (liftG pages) (\<lambda>items.
        returnG (find (\<lambda>b. lb_Name b = name) items))))"

definition findPoolForListener :: "('k, 'c) env \<Rightarrow> 'k \<Rightarrow> string \<Rightarrow> ('c world, PoolObj option) go" where
  "findPoolForListener E k listenerID =
     bindG (wrapG ''failed to get listener %s: %w'' [listenerID] (lsGet E k listenerID)) (\<lambda>listener.
     if ls_DefaultPoolID listener = '''' then returnG None
     else getOrNone ''failed to get pool %s: %w'' [ls_DefaultPoolID listener]
            (plGet E k (ls_DefaultPoolID listener)))"

definition listListeners :: "('k, 'c) env \<Rightarrow> 'k \<Rightarrow> string \<Rightarrow> ('c world, ListenerObj list) go" where
  "listListeners E k lbID =
     bindG (wrapG ''failed to list listeners of load balancer %s: %w'' [lbID] (lsList E k lbID)) liftG"

definition listMembers :: "('k, 'c) env \<Rightarrow> 'k \<Rightarrow> string \<Rightarrow> ('c world, MemberObj list) go" where
  "listMembers E k poolID =
     bindG (wrapG ''failed to list members of pool %s: %w'' [poolID] (mbList E k poolID)) liftG"

declare getOrNone_def [THEN fun_cong, run] findLoadBalancer_def [THEN fun_cong, run]
  findPoolForListener_def [THEN fun_cong, run] listListeners_def [THEN fun_cong, run]
  listMembers_def [THEN fun_cong, run]

end
