(* ===== verification/Elb_Policy.thy ===== *)
theory Elb_Policy
  imports Elb_Lookup
begin

section \<open>Histories that follow a policy\<close>

text \<open>
  A policy \<open>J S e\<close> says whether the call \<open>e\<close> may be made when \<open>S\<close> is the set of calls made
  before it, answers included. \<open>follows J H m\<close>: started with a history that contains \<open>H\<close>, every call
  \<open>m\<close> makes is allowed by \<open>J\<close> at the moment it is made, whatever the cloud answers. \<open>known m Q\<close>: after
  a successful \<open>m\<close>, \<open>Q\<close> holds of its result and the history. The rules compose along the program
  text.
\<close>

fun obeys :: "(call set \<Rightarrow> call \<Rightarrow> bool) \<Rightarrow> call set \<Rightarrow> call list \<Rightarrow> bool" where
  "obeys J S [] \<longleftrightarrow> True"
| "obeys J S (e # es) \<longleftrightarrow> J S e \<and> obeys J (insert e S) es"

definition follows :: "(call set \<Rightarrow> call \<Rightarrow> bool) \<Rightarrow> call set \<Rightarrow> ('c world, 'a) go \<Rightarrow> bool" where
  "follows J H m \<longleftrightarrow> (\<forall>w r w'. H \<subseteq> set (trace w) \<longrightarrow> m w = (r, w') \<longrightarrow>
     (\<exists>es. trace w' = trace w @ es \<and> obeys J (set (trace w)) es))"

definition known :: "('c world, 'a) go \<Rightarrow> ('a \<Rightarrow> call set \<Rightarrow> bool) \<Rightarrow> bool" where
  "known m Q \<longleftrightarrow> (\<forall>w x w'. m w = (Ok x, w') \<longrightarrow> Q x (set (trace w')))"

lemma obeys_append: "obeys J S (es @ es') \<longleftrightarrow> obeys J S es \<and> obeys J (S \<union> set es) es'"
  by (induction es arbitrary: S) auto

lemma obeys_all: "(\<And>S' e. S \<subseteq> S' \<Longrightarrow> e \<in> set es \<Longrightarrow> J S' e) \<Longrightarrow> obeys J S es"
proof (induction es arbitrary: S)
  case (Cons e es)
  have "obeys J (insert e S) es"
    by (rule Cons.IH) (use Cons.prems in auto)
  then show ?case using Cons.prems [of S e] by simp
qed simp

text \<open>What a policy says of the last call of a history, and of any call in it.\<close>

lemma obeys_at:
  assumes "obeys J S es" and "i < length es"
  shows "J (S \<union> set (take i es)) (es ! i)"
proof -
  have "obeys J S (take i es @ es ! i # drop (Suc i) es)"
    using assms by (simp flip: id_take_nth_drop)
  then show ?thesis by (simp add: obeys_append)
qed

lemma obeys_mem:
  assumes "obeys J S es" and "e \<in> set es"
  shows "\<exists>es1 es2. es = es1 @ e # es2 \<and> J (S \<union> set es1) e"
proof -
  obtain es1 es2 where "es = es1 @ e # es2" using assms(2) by (auto simp: in_set_conv_decomp)
  then show ?thesis using assms(1) by (auto simp: obeys_append)
qed

lemma followsI:
  "(\<And>w r w'. H \<subseteq> set (trace w) \<Longrightarrow> m w = (r, w') \<Longrightarrow>
     \<exists>es. trace w' = trace w @ es \<and> obeys J (set (trace w)) es) \<Longrightarrow> follows J H m"
  by (simp add: follows_def)

lemma followsE:
  assumes "follows J H m" and "m w = (r, w')" and "H \<subseteq> set (trace w)"
  obtains es where "trace w' = trace w @ es" and "obeys J (set (trace w)) es"
  using assms unfolding follows_def by blast

lemma knownI: "(\<And>w x w'. m w = (Ok x, w') \<Longrightarrow> Q x (set (trace w'))) \<Longrightarrow> known m Q"
  by (simp add: known_def)

lemma knownD: "known m Q \<Longrightarrow> m w = (Ok x, w') \<Longrightarrow> Q x (set (trace w'))"
  by (simp add: known_def)

subsection \<open>Rules\<close>

lemma follows_mono: "follows J H m \<Longrightarrow> H \<subseteq> H' \<Longrightarrow> follows J H' m"
  unfolding follows_def by blast

lemma follows_emits:
  assumes "emits A m" and "\<And>S e. H \<subseteq> S \<Longrightarrow> A e \<Longrightarrow> J S e"
  shows "follows J H m"
proof (rule followsI)
  fix w r w'
  assume H: "H \<subseteq> set (trace w)" and run: "m w = (r, w')"
  obtain es where "trace w' = trace w @ es" "\<forall>e \<in> set es. A e"
    using assms(1) run by (rule emitsD)
  moreover then have "obeys J (set (trace w)) es"
    using assms(2) H by (intro obeys_all) blast
  ultimately show "\<exists>es. trace w' = trace w @ es \<and> obeys J (set (trace w)) es" by blast
qed

lemma follows_weaken: "follows J H m \<Longrightarrow> (\<And>S e. J S e \<Longrightarrow> J' S e) \<Longrightarrow> follows J' H m"
proof -
  assume J: "\<And>S e. J S e \<Longrightarrow> J' S e"
  have "obeys J S es \<Longrightarrow> obeys J' S es" for S es
    by (induction es arbitrary: S) (auto intro: J)
  then show "follows J H m \<Longrightarrow> follows J' H m" unfolding follows_def by blast
qed

lemma follows_quiet: "emits (\<lambda>_. False) m \<Longrightarrow> follows J H m"
  by (rule follows_emits) simp_all

lemma follows_return: "follows J H (returnG x)"
  by (rule follows_quiet) (rule emits_rules)

lemma follows_fail: "follows J H (failG e)"
  by (rule follows_quiet) (rule emits_rules)

lemma follows_known_bind:
  assumes m: "follows J H m" and q: "known m Q"
    and f: "\<And>x H'. H \<subseteq> H' \<Longrightarrow> Q x H' \<Longrightarrow> follows J H' (f x)"
  shows "follows J H (bindG m f)"
proof (rule followsI)
  fix w r w'
  assume H: "H \<subseteq> set (trace w)" and run: "bindG m f w = (r, w')"
  from run show "\<exists>es. trace w' = trace w @ es \<and> obeys J (set (trace w)) es"
  proof (cases rule: bindG_cases)
    case (ok x w1)
    obtain es where es: "trace w1 = trace w @ es" "obeys J (set (trace w)) es"
      using m ok(1) H by (rule followsE)
    have "follows J (set (trace w1)) (f x)"
      by (rule f) (use H es knownD [OF q ok(1)] in auto)
    then obtain es' where "trace w' = trace w1 @ es'" "obeys J (set (trace w1)) es'"
      using ok(2) by (rule followsE) simp
    then show ?thesis using es by (intro exI [of _ "es @ es'"]) (simp add: obeys_append)
  qed (use m H in \<open>blast elim: followsE\<close>)+
qed

lemma follows_bind:
  assumes "follows J H m" and "\<And>x H'. H \<subseteq> H' \<Longrightarrow> follows J H' (f x)"
  shows "follows J H (bindG m f)"
  by (rule follows_known_bind [OF assms(1), where Q = "\<lambda>_ _. True"]) (use assms(2) in \<open>auto simp: known_def\<close>)

lemma follows_catch:
  assumes m: "follows J H m" and h: "\<And>e H'. H \<subseteq> H' \<Longrightarrow> follows J H' (h e)"
  shows "follows J H (catchG m h)"
proof (rule followsI)
  fix w r w'
  assume H: "H \<subseteq> set (trace w)" and run: "catchG m h w = (r, w')"
  obtain r1 w1 where m1: "m w = (r1, w1)" by (cases "m w")
  obtain es where es: "trace w1 = trace w @ es" "obeys J (set (trace w)) es"
    using m m1 H by (rule followsE)
  show "\<exists>es. trace w' = trace w @ es \<and> obeys J (set (trace w)) es"
  proof (cases r1)
    case (Fail e)
    then have "h e w1 = (r, w')" using run m1 by (simp add: catchG_def)
    moreover have "follows J (set (trace w1)) (h e)" by (rule h) (use H es in auto)
    ultimately obtain es' where "trace w' = trace w1 @ es'" "obeys J (set (trace w1)) es'"
      using followsE by blast
    then show ?thesis using es by (intro exI [of _ "es @ es'"]) (simp add: obeys_append)
  qed (use run m1 es in \<open>auto simp: catchG_def\<close>)
qed

lemma follows_wrap: "follows J H m \<Longrightarrow> follows J H (wrapG fmt args m)"
  unfolding wrapG_def by (intro follows_catch follows_fail)

lemma follows_ignoreNotFound: "follows J H m \<Longrightarrow> follows J H (ignoreNotFound fmt args m)"
  unfolding ignoreNotFound_def by (intro follows_catch) (simp_all add: follows_fail follows_return)

lemma follows_getOrNone: "follows J H m \<Longrightarrow> follows J H (getOrNone fmt args m)"
  unfolding getOrNone_def by (intro follows_catch follows_bind) (simp_all add: follows_fail follows_return)

lemma follows_each: "(\<And>x H'. x \<in> set xs \<Longrightarrow> H \<subseteq> H' \<Longrightarrow> follows J H' (f x)) \<Longrightarrow> follows J H (eachG f xs)"
proof (induction xs arbitrary: H)
  case (Cons x xs)
  show ?case
    unfolding eachG.simps
  proof (rule follows_bind)
    show "follows J H (f x)" by (rule Cons.prems) simp_all
    show "follows J H' (eachG f xs)" if "H \<subseteq> H'" for H'
      by (rule Cons.IH) (use Cons.prems that in auto)
  qed
qed (simp add: follows_return)

subsection \<open>What the reading operations show\<close>

lemma known_wrap: "known m Q \<Longrightarrow> known (wrapG fmt args m) Q"
  by (auto simp: known_def dest: wrapG_OkE)

lemma known_lift: "known m (\<lambda>r S. \<forall>x. r = Inr x \<longrightarrow> Q x S) \<Longrightarrow> known (bindG m liftG) Q"
  by (auto simp: known_def liftG_def elim!: bindG_OkE split: sum.splits)

lemma known_sdkCall: "(\<And>S x. ev (Inr x) \<in> S \<Longrightarrow> Q x S) \<Longrightarrow> known (sdkCall f ev) Q"
  by (rule knownI) (auto simp: sdkCall_def split: prod.splits sum.splits)

lemma known_getOrNone:
  assumes "known m Q"
  shows "known (getOrNone fmt args m) (\<lambda>r S. \<forall>x. r = Some x \<longrightarrow> Q x S)"
proof (rule knownI, intro allI impI)
  fix w r w' x
  assume "getOrNone fmt args m w = (Ok r, w')" and "r = Some x"
  then have "m w = (Ok x, w')"
    by (auto simp: getOrNone_def catchG_def bindG_def returnG_def failG_def
        split: prod.splits res.splits if_splits)
  then show "Q x (set (trace w'))" using assms by (rule knownD [rotated])
qed

lemma known_listListeners: "known (listListeners E k i) (\<lambda>ls S. LsList i (Inr (Inr ls)) \<in> S)"
  unfolding listListeners_def lsList_def by (rule known_lift, rule known_wrap, rule known_sdkCall) auto

lemma known_listMembers: "known (listMembers E k i) (\<lambda>ms S. MbList i (Inr (Inr ms)) \<in> S)"
  unfolding listMembers_def mbList_def by (rule known_lift, rule known_wrap, rule known_sdkCall) auto

text \<open>The balancer a run works on: the answer to the id annotation, or a listed one of the wanted name.\<close>

definition the_balancer :: "serviceSettings \<Rightarrow> string \<Rightarrow> call set \<Rightarrow> BalancerObj \<Rightarrow> bool" where
  "the_balancer settings name S b \<longleftrightarrow>
     (if LoadBalancerID settings \<noteq> '''' then LbGet (LoadBalancerID settings) (Inr b) \<in> S
      else \<exists>bs. LbList name (Inr (Inr bs)) \<in> S \<and> b \<in> set bs \<and> lb_Name b = name)"

definition no_balancer :: "serviceSettings \<Rightarrow> string \<Rightarrow> call set \<Rightarrow> bool" where
  "no_balancer settings name S \<longleftrightarrow>
     (LoadBalancerID settings = '''' \<longrightarrow> (\<exists>bs. LbList name (Inr (Inr bs)) \<in> S \<and> (\<forall>b \<in> set bs. lb_Name b \<noteq> name)))"

definition pool_of :: "string \<Rightarrow> call set \<Rightarrow> PoolObj \<Rightarrow> bool" where
  "pool_of listenerID S p \<longleftrightarrow> (\<exists>l. LsGet listenerID (Inr l) \<in> S \<and> ls_DefaultPoolID l \<noteq> '''' \<and>
     PlGet (ls_DefaultPoolID l) (Inr p) \<in> S)"

lemma the_balancer_mono: "the_balancer settings name S b \<Longrightarrow> S \<subseteq> S' \<Longrightarrow> the_balancer settings name S' b"
  by (auto simp: the_balancer_def split: if_splits)

lemma pool_of_mono: "pool_of i S p \<Longrightarrow> S \<subseteq> S' \<Longrightarrow> pool_of i S' p"
  by (auto simp: pool_of_def)

lemma sdkCall_shows: "sdkCall f ev w = (Ok x, w') \<Longrightarrow> ev (Inr x) \<in> set (trace w')"
  by (auto simp: sdkCall_def split: prod.splits sum.splits)

lemma known_findLoadBalancer:
  "known (findLoadBalancer E k settings name) (\<lambda>r S.
     case r of Some b \<Rightarrow> the_balancer settings name S b | None \<Rightarrow> no_balancer settings name S)"
proof (cases "LoadBalancerID settings = ''''")
  case False
  have "known (getOrNone fmt args (lbGet E k i)) (\<lambda>r S. \<forall>x. r = Some x \<longrightarrow> LbGet i (Inr x) \<in> S)" for fmt args i
    unfolding lbGet_def by (rule known_getOrNone, rule known_sdkCall)
  with False show ?thesis
    by (auto simp: findLoadBalancer_def known_def the_balancer_def no_balancer_def split: option.splits)
next
  case True
  show ?thesis
  proof (rule knownI)
    fix w r w'
    assume "findLoadBalancer E k settings name w = (Ok r, w')"
    then obtain items where "LbList name (Inr (Inr items)) \<in> set (trace w')"
      and r: "r = find (\<lambda>b. lb_Name b = name) items"
      using True by (auto simp: findLoadBalancer_def lbList_def liftG_def elim!: bindG_OkE
          dest!: wrapG_OkE sdkCall_shows split: sum.splits)
    then show "case r of Some b \<Rightarrow> the_balancer settings name (set (trace w')) b
        | None \<Rightarrow> no_balancer settings name (set (trace w'))"
      using True by (auto simp: the_balancer_def no_balancer_def find_None_iff find_Some_iff
          split: option.splits intro: nth_mem)
  qed
qed

lemma known_findPool: "known (findPoolForListener E k i) (\<lambda>r S. \<forall>p. r = Some p \<longrightarrow> pool_of i S p)"
proof (rule knownI, intro allI impI)
  fix w r w' p
  assume "findPoolForListener E k i w = (Ok r, w')" and r: "r = Some p"
  then obtain l w1 where l: "lsGet E k i w = (Ok l, w1)"
    and p: "(if ls_DefaultPoolID l = '''' then returnG None
       else getOrNone ''failed to get pool %s: %w'' [ls_DefaultPoolID l] (plGet E k (ls_DefaultPoolID l))) w1 = (Ok r, w')"
    unfolding findPoolForListener_def by (blast elim: bindG_OkE dest: wrapG_OkE)
  have d: "ls_DefaultPoolID l \<noteq> ''''"
    using p r by auto
  have "known (getOrNone ''failed to get pool %s: %w'' [ls_DefaultPoolID l] (plGet E k (ls_DefaultPoolID l)))
      (\<lambda>r S. \<forall>x. r = Some x \<longrightarrow> PlGet (ls_DefaultPoolID l) (Inr x) \<in> S)"
    unfolding plGet_def by (rule known_getOrNone, rule known_sdkCall)
  then have "PlGet (ls_DefaultPoolID l) (Inr p) \<in> set (trace w')"
    using p d r by (auto dest: knownD)
  moreover have "LsGet i (Inr l) \<in> set (trace w1)"
    using l by (auto simp: lsGet_def dest: sdkCall_shows)
  moreover have "set (trace w1) \<subseteq> set (trace w')"
  proof -
    have "emits (\<lambda>_. True) (getOrNone ''failed to get pool %s: %w'' [ls_DefaultPoolID l] (plGet E k (ls_DefaultPoolID l)))"
      by (intro emits_rules) simp
    then show ?thesis using p d by (auto elim: emitsD)
  qed
  ultimately show "pool_of i (set (trace w')) p"
    using d by (auto simp: pool_of_def)
qed

subsection \<open>Reading only\<close>

fun read_only :: "call \<Rightarrow> bool" where
  "read_only (LbList _ _) = True"
| "read_only (LbGet _ _) = True"
| "read_only (LsList _ _) = True"
| "read_only (LsGet _ _) = True"
| "read_only (PlGet _ _) = True"
| "read_only (MbList _ _) = True"
| "read_only (MoGet _ _) = True"
| "read_only (IgGet _ _) = True"
| "read_only _ = False"

lemma reads [emits_rules]:
  "emits read_only (findLoadBalancer E k settings name)"
  "emits read_only (findPoolForListener E k i)"
  "emits read_only (listListeners E k i)"
  "emits read_only (listMembers E k i)"
  by (auto simp: findLoadBalancer_def findPoolForListener_def listListeners_def listMembers_def intro!: emits_rules)

subsection \<open>Under the contract of the \<open>wait\<close> package\<close>

lemma follows_attempts: "(\<And>H'. H \<subseteq> H' \<Longrightarrow> follows J H' cond) \<Longrightarrow> follows J H (attempts n e cond)"
proof (induction n arbitrary: H)
  case (Suc n)
  show ?case
    unfolding attempts.simps
  proof (rule follows_bind)
    show "follows J H cond" by (rule Suc.prems) simp
    show "follows J H' (if ok then returnG () else attempts n e cond)" if "H \<subseteq> H'" for ok H'
      using Suc.IH Suc.prems that by (simp add: follows_return)
  qed
qed (simp add: follows_fail)

context wait_contract begin

lemma follows_backoff:
  assumes "follows J H cond"
  shows "follows J H (exponentialBackoff E b cond)"
proof (rule followsI)
  fix w r w'
  assume H: "H \<subseteq> set (trace w)" and run: "exponentialBackoff E b cond w = (r, w')"
  obtain n e where "attempts n e cond w = (r, w')" using run by (metis backoffE)
  then show "\<exists>es. trace w' = trace w @ es \<and> obeys J (set (trace w)) es"
    using follows_attempts [OF follows_mono [OF assms]] H by (blast elim: followsE)
qed

lemma follows_retry: "follows J H fn \<Longrightarrow> follows J H (retryOnConflict E i fn)"
  unfolding retryOnConflict_def retryCond_def
  by (rule follows_backoff, rule follows_catch, erule follows_bind)
    (simp_all add: follows_return follows_fail)

lemma active_reads: "emits read_only (waitForActive E k i)"
  by (rule active_emits) simp

lemma follows_mutate:
  assumes "follows J H fn" and "\<And>S e. read_only e \<Longrightarrow> J S e"
  shows "follows J H (mutate E k i fn)"
  unfolding mutate_def
  by (rule follows_bind [OF follows_retry [OF assms(1)]], rule follows_emits [OF active_reads]) (rule assms(2))

text \<open>
  A deletion that is retried, with or without a wait for the balancer, and tolerates "not found"
  leaves evidence that the object is gone.
\<close>

lemma retry_delete_evidence:
  assumes "retryOnConflict E i (sdkCall f ev) w = (r, w')" and "r = Ok () \<or> (\<exists>e. r = Fail e \<and> isNotFound e)"
  shows "\<exists>x. ev x \<in> set (trace w') \<and> (x = Inr () \<or> (\<exists>e. x = Inl e \<and> isNotFound e))"
  using assms(2)
proof (elim disjE exE conjE)
  assume "r = Ok ()"
  then obtain w1 where "sdkCall f ev w1 = (Ok (), w')"
    using retry_Ok assms(1) by metis
  then have "ev (Inr ()) \<in> set (trace w')" by (rule sdkCall_shows)
  then show ?thesis by (intro exI [of _ "Inr ()"]) simp
next
  fix e assume e: "r = Fail e" "isNotFound e"
  then have "\<not> gaveUp e" using gaveUp_class by blast
  then obtain w1 where "sdkCall f ev w1 = (Fail e, w')"
    using retry_Fail assms(1) e(1) by metis
  then have "ev (Inl e) \<in> set (trace w')"
    by (auto simp: sdkCall_def split: prod.splits sum.splits)
  then show ?thesis using e(2) by (intro exI [of _ "Inl e"]) simp
qed

lemma ignoreNotFound_OkE:
  assumes "ignoreNotFound fmt args m w = (Ok x, w')"
  obtains r where "m w = (r, w')" and "r = Ok () \<or> (\<exists>e. r = Fail e \<and> isNotFound e)"
  using assms
  by (auto simp: ignoreNotFound_def catchG_def returnG_def failG_def split: prod.splits res.splits if_splits)

lemma known_retried_delete:
  "known (ignoreNotFound fmt args (retryOnConflict E i (sdkCall f ev)))
     (\<lambda>_ S. \<exists>r. ev r \<in> S \<and> (r = Inr () \<or> (\<exists>e. r = Inl e \<and> isNotFound e)))"
  by (rule knownI, erule ignoreNotFound_OkE) (rule retry_delete_evidence)

lemma known_mutated_delete:
  "known (ignoreNotFound fmt args (mutate E k i (sdkCall f ev)))
     (\<lambda>_ S. \<exists>r. ev r \<in> S \<and> (r = Inr () \<or> (\<exists>e. r = Inl e \<and> isNotFound e)))"
proof (rule knownI)
  fix w x w'
  assume "ignoreNotFound fmt args (mutate E k i (sdkCall f ev)) w = (Ok x, w')"
  then obtain r where run: "mutate E k i (sdkCall f ev) w = (r, w')"
    and r: "r = Ok () \<or> (\<exists>e. r = Fail e \<and> isNotFound e)" by (rule ignoreNotFound_OkE)
  from run [unfolded mutate_def]
  show "\<exists>r. ev r \<in> set (trace w') \<and> (r = Inr () \<or> (\<exists>e. r = Inl e \<and> isNotFound e))"
  proof (cases rule: bindG_cases)
    case (ok u w1)
    obtain x where x: "ev x \<in> set (trace w1)" "x = Inr () \<or> (\<exists>e. x = Inl e \<and> isNotFound e)"
      using retry_delete_evidence [OF ok(1)] by auto
    obtain es where "trace w' = trace w1 @ es"
      using active_reads ok(2) by (rule emitsD)
    then show ?thesis using x by auto
  next
    case (fail e)
    then show ?thesis using retry_delete_evidence [OF fail(1)] r by simp
  next
    case (panic s)
    then show ?thesis using r by simp
  qed
qed

end

end
