(* ===== verification/Elb_Ip_Groups.thy ===== *)
theory Elb_Ip_Groups
  imports Elb_Lookup
begin

section \<open>IP address groups: \<open>pkg/elb/ipgroups.go\<close>\<close>

text \<open>
  The whitelist of a listener: \<open>reconcileIPGroup\<close> (created, updated in place, re-enabled or
  disabled), \<open>attachIPGroup\<close> and \<open>deleteIPGroup\<close>.
\<close>

definition attachIPGroup ::
  "('k, 'c) env \<Rightarrow> 'k \<Rightarrow> string \<Rightarrow> string \<Rightarrow> string \<Rightarrow> ('c world, unit) go" where
  "attachIPGroup E k lbID listenerID groupID =
     wrapG ''failed to attach ipgroup %s to listener %s: %w'' [groupID, listenerID]
       (mutate E k lbID
         (bindG (lsUpdate E k listenerID \<lparr>nu_KeepAliveTimeout = 0,
             nu_IpGroup = Some \<lparr>iu_IpGroupId = groupID, iu_Enable = True, iu_Type = ''white''\<rparr>\<rparr>)
           (\<lambda>_. returnG ())))"

definition reconcileIPGroup ::
  "('k, 'c) env \<Rightarrow> 'k \<Rightarrow> string \<Rightarrow> ListenerObj \<Rightarrow> string \<Rightarrow> Service \<Rightarrow> ServicePort \<Rightarrow> ('c world, unit) go" where
  "reconcileIPGroup E k lbID listener name service port =
     (let ranges = normalizeRanges (LoadBalancerSourceRanges service);
          groupName = resourceName name port;
          attachedID = ls_IpGroupID listener;
          getGroup = getOrNone ''failed to get ipgroup %s: %w'' [attachedID] (igGet E k attachedID);
          createGroup =
            bindG (wrapG ''failed to create ipgroup for listener %s: %w'' [ls_ID listener]
              (igCreate E k \<lparr>gc_Name = groupName,
                 gc_Description = ''Kubernetes service '' @ Namespace service @ ''/'' @ ServiceName service,
                 gc_IpList = ipList ranges\<rparr>)) (\<lambda>grp.
            attachIPGroup E k lbID (ls_ID listener) (ig_ID grp))
      in if ranges = [] then
           if attachedID = '''' then returnG ()
           else bindG getGroup (\<lambda>g. case g of
               None \<Rightarrow> returnG ()
             | Some grp \<Rightarrow>
                 if ig_Name grp \<noteq> groupName \<or> ls_IpGroupEnable listener \<noteq> Some True then returnG ()
                 else wrapG ''failed to disable ipgroup on listener %s: %w'' [ls_ID listener]
                   (mutate E k lbID
                     (bindG (lsUpdate E k (ls_ID listener) \<lparr>nu_KeepAliveTimeout = 0,
                         nu_IpGroup = Some \<lparr>iu_IpGroupId = attachedID, iu_Enable = False, iu_Type = ''''\<rparr>\<rparr>)
                       (\<lambda>_. returnG ()))))
         else if attachedID \<noteq> '''' then
           bindG getGroup (\<lambda>g. case g of
               None \<Rightarrow> createGroup
             | Some grp \<Rightarrow>
                 if ig_Name grp \<noteq> groupName then
                   failG (Errorf ''listener %s already has a foreign ipgroup %s; remove it or drop loadBalancerSourceRanges''
                     [ls_ID listener, ig_ID grp])
                 else
                   bindG (if ipListEqual (ig_IpList grp) ranges then returnG ()
                          else wrapG ''failed to update ipgroup %s: %w'' [ig_ID grp]
                            (retryOnConflict E lbID (igUpdate E k (ig_ID grp) (ipList ranges)))) (\<lambda>_.
                   if ls_IpGroupEnable listener \<noteq> Some True
                   then attachIPGroup E k lbID (ls_ID listener) (ig_ID grp)
                   else returnG ()))
         else createGroup)"

definition deleteIPGroup ::
  "('k, 'c) env \<Rightarrow> 'k \<Rightarrow> string \<Rightarrow> string \<Rightarrow> string \<Rightarrow> ('c world, unit) go" where
  "deleteIPGroup E k lbID groupID name =
     (if groupID = '''' then returnG ()
      else bindG (getOrNone ''failed to get ipgroup %s: %w'' [groupID] (igGet E k groupID)) (\<lambda>g. case g of
          None \<Rightarrow> returnG ()
        | Some grp \<Rightarrow>
            if \<not> HasPrefix (ig_Name grp) (name @ ''_'') then returnG ()
            else wrapG ''failed to delete ipgroup %s: %w'' [groupID]
              (retryOnConflict E lbID
                (catchG (igDelete E k groupID) (\<lambda>e. if isNotFound e then returnG () else failG e)))))"

declare attachIPGroup_def [THEN fun_cong, run] reconcileIPGroup_def [THEN fun_cong, run]
  deleteIPGroup_def [THEN fun_cong, run]

end
