(* ===== verification/Elb_Pools.thy ===== *)
theory Elb_Pools
  imports Elb_Ip_Groups "HOL-Library.AList"
begin

section \<open>Listeners, pools, members and monitors\<close>

text \<open>
  The operations of \<open>elb.go\<close> on one listener and what hangs on it: \<open>createListener\<close>,
  \<open>ensurePool\<close>, \<open>reconcileMembers\<close>, \<open>reconcileMonitor\<close>, \<open>deleteListener\<close>. A Go map that is
  ranged over is an association list with distinct keys; the order of the range is the
  environment's. A variable that a retried closure assigns is the world's \<open>v_listener\<close> or
  \<open>v_pool\<close>, and using it when it is nil is a panic.
\<close>

subsection \<open>Listeners and pools\<close>

definition createListener ::
  "('k, 'c) env \<Rightarrow> 'k \<Rightarrow> string \<Rightarrow> string \<Rightarrow> serviceSettings \<Rightarrow> ServicePort \<Rightarrow> ('c world, ListenerObj option) go" where
  "createListener E k lbID name settings port =
     bindG (modifyG (\<lambda>w. w\<lparr>v_listener := None\<rparr>)) (\<lambda>_.
     bindG (wrapG ''failed to create listener for port %d: %w'' [dec_int (Port port)]
       (mutate E k lbID
         (bindG (lsCreate E k \<lparr>nc_LoadbalancerID = lbID, nc_Name = resourceName name port,
             nc_Protocol = Protocol port, nc_ProtocolPort = Port port,
             nc_KeepAliveTimeout = IdleTimeout settings\<rparr>)
           (\<lambda>l. modifyG (\<lambda>w. w\<lparr>v_listener := Some l\<rparr>))))) (\<lambda>_.
     getG v_listener))"

definition derefPool :: "('c world, PoolObj) go" where
  "derefPool = bindG (getG v_pool) derefG"

definition ensurePool ::
  "('k, 'c) env \<Rightarrow> 'k \<Rightarrow> string \<Rightarrow> ListenerObj \<Rightarrow> string \<Rightarrow> serviceSettings \<Rightarrow> Service \<Rightarrow> ServicePort \<Rightarrow>
   ('c world, PoolObj) go" where
  "ensurePool E k lbID listener name settings service port =
     (let persistence = desiredPersistence service
      in if ls_DefaultPoolID listener \<noteq> '''' then
           bindG (wrapG ''failed to get pool %s: %w'' [ls_DefaultPoolID listener]
             (plGet E k (ls_DefaultPoolID listener))) (\<lambda>pool.
           if pl_LBMethod pool \<noteq> LBAlgorithm settings \<or>
              (persistence \<noteq> None \<and> \<not> persistenceEqual (pl_Persistence pool) persistence) then
             bindG (modifyG (\<lambda>w. w\<lparr>v_pool := Some pool\<rparr>)) (\<lambda>_.
             bindG (catchG
               (mutate E k lbID
                 (bindG derefPool (\<lambda>p. plUpdate E k (pl_ID p)
                   \<lparr>pu_LBMethod = LBAlgorithm settings, pu_Persistence = persistence\<rparr>)))
               (\<lambda>e. bindG derefPool (\<lambda>p. failG (Wrapf ''failed to update pool %s: %w'' [pl_ID p] e)))) (\<lambda>_.
             derefPool))
           else returnG pool)
         else
           bindG (modifyG (\<lambda>w. w\<lparr>v_pool := None\<rparr>)) (\<lambda>_.
           bindG (wrapG ''failed to create pool for listener %s: %w'' [ls_ID listener]
             (mutate E k lbID
               (bindG (plCreate E k \<lparr>pc_ListenerID = ls_ID listener, pc_Name = resourceName name port,
                   pc_Protocol = Protocol port, pc_LBMethod = LBAlgorithm settings,
                   pc_Description = ''Kubernetes service '' @ Namespace service @ ''/'' @ ServiceName service,
                   pc_Persistence = persistence\<rparr>)
                 (\<lambda>p. modifyG (\<lambda>w. w\<lparr>v_pool := Some p\<rparr>))))) (\<lambda>_.
           derefPool)))"

subsection \<open>Members\<close>

text \<open>The maps \<open>wanted\<close> (key to node) and \<open>have\<close> (key to member id), built by assignment in order.\<close>

definition wantedMembers :: "int \<Rightarrow> Node list \<Rightarrow> (string \<times> Node) list" where
  "wantedMembers nodePort nodes =
     foldl (\<lambda>m node. case nodeAddress node of
         Inl _ \<Rightarrow> m
       | Inr addr \<Rightarrow> AList.update (memberKey addr nodePort) node m) [] nodes"

definition haveMembers :: "MemberObj list \<Rightarrow> (string \<times> string) list" where
  "haveMembers existing =
     foldl (\<lambda>m x. AList.update (memberKey (mb_Address x) (mb_ProtocolPort x)) (mb_ID x) m) [] existing"

definition addMember ::
  "('k, 'c) env \<Rightarrow> 'k \<Rightarrow> BalancerObj \<Rightarrow> string \<Rightarrow> int \<Rightarrow> (string \<times> Node) list \<Rightarrow> (string \<times> string) list \<Rightarrow> string \<Rightarrow>
   ('c world, unit) go" where
  "addMember E k balancer poolID nodePort wanted present key =
     (case map_of present key of Some _ \<Rightarrow> returnG ()
      | None \<Rightarrow> (case map_of wanted key of None \<Rightarrow> returnG ()
         | Some node \<Rightarrow>
             let addr = (case nodeAddress node of Inr a \<Rightarrow> a | Inl _ \<Rightarrow> '''')
             in wrapG ''failed to add member %s to pool %s: %w'' [key, poolID]
                  (mutate E k (lb_ID balancer)
                    (bindG (mbCreate E k poolID \<lparr>mc_Address = addr, mc_ProtocolPort = nodePort,
                        mc_Name = cutString (NodeName node) maxResourceNameLength,
                        mc_SubnetID = lb_VipSubnetCidrID balancer\<rparr>) (\<lambda>_. returnG ())))))"

definition removeMember ::
  "('k, 'c) env \<Rightarrow> 'k \<Rightarrow> BalancerObj \<Rightarrow> string \<Rightarrow> (string \<times> Node) list \<Rightarrow> (string \<times> string) list \<Rightarrow> string \<Rightarrow>
   ('c world, unit) go" where
  "removeMember E k balancer poolID wanted present key =
     (case map_of wanted key of Some _ \<Rightarrow> returnG ()
      | None \<Rightarrow> (case map_of present key of None \<Rightarrow> returnG ()
         | Some memberID \<Rightarrow>
             ignoreNotFound ''failed to remove member %s from pool %s: %w'' [key, poolID]
               (mutate E k (lb_ID balancer) (mbDelete E k poolID memberID))))"

definition reconcileMembers ::
  "('k, 'c) env \<Rightarrow> 'k \<Rightarrow> BalancerObj \<Rightarrow> string \<Rightarrow> int \<Rightarrow> Node list \<Rightarrow> ('c world, unit) go" where
  "reconcileMembers E k balancer poolID nodePort nodes =
     (if nodePort = 0 then
        failG (Errorf ''service has no NodePort allocated; cannot add members to pool %s'' [poolID])
      else
        bindG (listMembers E k poolID) (\<lambda>existing.
        let wanted = wantedMembers nodePort nodes; present = haveMembers existing
        in if wanted = [] then failG (Errorf ''no usable node addresses for pool %s'' [poolID])
           else
             bindG (getG (\<lambda>w. rangeOrder w (map fst wanted))) (\<lambda>keys.
             bindG (eachG (addMember E k balancer poolID nodePort wanted present) keys) (\<lambda>_.
             bindG (getG (\<lambda>w. rangeOrder w (map fst present))) (\<lambda>keys'.
             eachG (removeMember E k balancer poolID wanted present) keys')))))"

subsection \<open>Health monitors\<close>

definition createMonitor ::
  "('k, 'c) env \<Rightarrow> 'k \<Rightarrow> string \<Rightarrow> PoolObj \<Rightarrow> string \<Rightarrow> serviceSettings \<Rightarrow> ServicePort \<Rightarrow> Probe \<Rightarrow> ('c world, unit) go" where
  "createMonitor E k lbID pool name settings port probe =
     wrapG ''failed to create monitor for pool %s: %w'' [pl_ID pool]
       (mutate E k lbID
         (bindG (moCreate E k \<lparr>oc_PoolID = pl_ID pool, oc_Name = resourceName name port,
             oc_Type = pr_Type probe, oc_Delay = HealthCheckDelay settings,
             oc_Timeout = HealthCheckTimeout settings, oc_MaxRetries = HealthCheckMaxRetries settings,
             oc_URLPath = pr_URLPath probe, oc_HTTPMethod = pr_HTTPMethod probe,
             oc_MonitorPort = pr_Port probe\<rparr>) (\<lambda>_. returnG ())))"

definition reconcileMonitor ::
  "('k, 'c) env \<Rightarrow> 'k \<Rightarrow> string \<Rightarrow> PoolObj \<Rightarrow> string \<Rightarrow> serviceSettings \<Rightarrow> Service \<Rightarrow> ServicePort \<Rightarrow>
   ('c world, unit) go" where
  "reconcileMonitor E k lbID pool name settings service port =
     (let probe = desiredProbe settings service port; monitorID = pl_MonitorID pool
      in if \<not> HealthCheckEnabled settings then
           if monitorID = '''' then returnG ()
           else ignoreNotFound ''failed to delete monitor %s: %w'' [monitorID]
                  (mutate E k lbID (moDelete E k monitorID))
         else if monitorID = '''' then createMonitor E k lbID pool name settings port probe
         else
           bindG (wrapG ''failed to get monitor %s: %w'' [monitorID] (moGet E k monitorID)) (\<lambda>monitor.
           if mo_Type monitor \<noteq> pr_Type probe \<or> mo_MonitorPort monitor \<noteq> pr_Port probe then
             bindG (ignoreNotFound ''failed to delete monitor %s for recreation: %w'' [monitorID]
               (mutate E k lbID (moDelete E k monitorID))) (\<lambda>_.
             createMonitor E k lbID pool name settings port probe)
           else if mo_Delay monitor = HealthCheckDelay settings \<and>
               mo_Timeout monitor = HealthCheckTimeout settings \<and>
               mo_MaxRetries monitor = HealthCheckMaxRetries settings \<and>
               mo_URLPath monitor = pr_URLPath probe \<and> mo_HTTPMethod monitor = pr_HTTPMethod probe then
             returnG ()
           else
             wrapG ''failed to update monitor %s: %w'' [monitorID]
               (mutate E k lbID
                 (bindG (moUpdate E k monitorID \<lparr>ou_Delay = HealthCheckDelay settings,
                     ou_Timeout = HealthCheckTimeout settings, ou_MaxRetries = HealthCheckMaxRetries settings,
                     ou_URLPath = pr_URLPath probe, ou_HTTPMethod = pr_HTTPMethod probe\<rparr>)
                   (\<lambda>_. returnG ())))))"

subsection \<open>Tearing a listener down\<close>

definition deletePool :: "('k, 'c) env \<Rightarrow> 'k \<Rightarrow> string \<Rightarrow> PoolObj \<Rightarrow> ('c world, unit) go" where
  "deletePool E k lbID pool =
     bindG (if pl_MonitorID pool \<noteq> '''' then
        ignoreNotFound ''failed to delete monitor %s: %w'' [pl_MonitorID pool]
          (mutate E k lbID (moDelete E k (pl_MonitorID pool)))
      else returnG ()) (\<lambda>_.
     bindG (listMembers E k (pl_ID pool)) (\<lambda>existing.
     bindG (eachG (\<lambda>m. ignoreNotFound ''failed to delete member %s: %w'' [mb_ID m]
         (mutate E k lbID (mbDelete E k (pl_ID pool) (mb_ID m)))) existing) (\<lambda>_.
     ignoreNotFound ''failed to delete pool %s: %w'' [pl_ID pool]
       (mutate E k lbID (plDelete E k (pl_ID pool))))))"

definition deleteListener ::
  "('k, 'c) env \<Rightarrow> 'k \<Rightarrow> string \<Rightarrow> string \<Rightarrow> ListenerObj \<Rightarrow> ('c world, unit) go" where
  "deleteListener E k lbID name listener =
     bindG (findPoolForListener E k (ls_ID listener)) (\<lambda>pool.
     bindG (case pool of None \<Rightarrow> returnG () | Some p \<Rightarrow> deletePool E k lbID p) (\<lambda>_.
     bindG (ignoreNotFound ''failed to delete listener %s: %w'' [ls_ID listener]
       (mutate E k lbID (lsDelete E k (ls_ID listener)))) (\<lambda>_.
     deleteIPGroup E k lbID (ls_IpGroupID listener) name)))"

declare createListener_def [THEN fun_cong, run] derefPool_def [THEN fun_cong, run]
  ensurePool_def [THEN fun_cong, run] addMember_def [THEN fun_cong, run] removeMember_def [THEN fun_cong, run]
  reconcileMembers_def [THEN fun_cong, run] createMonitor_def [THEN fun_cong, run]
  reconcileMonitor_def [THEN fun_cong, run] deletePool_def [THEN fun_cong, run]
  deleteListener_def [THEN fun_cong, run] wantedMembers_def [run] haveMembers_def [run]

end
