(* ===== verification/Load_Balancer.thy ===== *)
theory Load_Balancer
  imports Elb_Pools
begin

section \<open>The load balancer interface: \<open>pkg/elb/elb.go\<close>\<close>

text \<open>
  The struct \<open>LoadBalancer\<close> and the methods Kubernetes calls: \<open>GetLoadBalancer\<close>,
  \<open>EnsureLoadBalancer\<close> with the reconciliation loop, \<open>UpdateLoadBalancer\<close> and
  \<open>EnsureLoadBalancerDeleted\<close> with the release of EIPs. The client constructors are fields of the
  struct in the source and in the model.
\<close>

record ('k, 'c) LoadBalancer =
  opts :: LoadBalancerOpts
  newClient :: "('c world, 'k) go"
  newNetworkClient :: "('c world, 'k) go"

definition GetLoadBalancer ::
  "('k, 'c) env \<Rightarrow> ('k, 'c) LoadBalancer \<Rightarrow> string \<Rightarrow> Service \<Rightarrow> ('c world, LoadBalancerStatus option) go" where
  "GetLoadBalancer E lb clusterName service =
     bindG (liftG (settingsForService (opts lb) service)) (\<lambda>settings.
     bindG (newClient lb) (\<lambda>k.
     bindG (findLoadBalancer E k settings (GetLoadBalancerName clusterName service)) (\<lambda>balancer.
     returnG (map_option lbStatus balancer))))"

subsection \<open>Creation\<close>

definition createLoadBalancer ::
  "('k, 'c) env \<Rightarrow> 'k \<Rightarrow> serviceSettings \<Rightarrow> string \<Rightarrow> Service \<Rightarrow> ('c world, BalancerObj) go" where
  "createLoadBalancer E k settings name service =
     (if SubnetID settings = '''' then
        failG (Errorf ''cannot create load balancer for service %s/%s: subnet-id is not set (config [LoadBalancer] subnet-id or annotation %s)''
          [Namespace service, ServiceName service, AnnotationSubnetID])
      else if AvailabilityZones settings = [] then
        failG (Errorf ''cannot create load balancer for service %s/%s: no availability zones set (config [LoadBalancer] availability-zone or annotation %s)''
          [Namespace service, ServiceName service, AnnotationAvailabilityZones])
      else
        let description = ''Kubernetes service '' @ Namespace service @ ''/'' @ ServiceName service
        in wrapG ''failed to create load balancer: %w'' []
          (lbCreate E k \<lparr>lc_Name = name, lc_Description = description,
             lc_VipSubnetCidrID = SubnetID settings, lc_VpcID = VpcID settings,
             lc_AvailabilityZoneList = AvailabilityZones settings, lc_L4Flavor = L4FlavorID settings,
             lc_VipAddress = LoadBalancerIP service, lc_PublicIpIDs = EipIDs settings,
             lc_PublicIp = (if EipBandwidth settings > 0 then
               Some \<lparr>pi_NetworkType = EipType settings, pi_Description = description,
                 pi_BwName = cutString name 64, pi_BwSize = EipBandwidth settings,
                 pi_BwChargeMode = ''traffic'', pi_BwShareType = ''PER''\<rparr>
               else None)\<rparr>))"

subsection \<open>Reconciliation\<close>

text \<open>The body of the loop over the Service's ports.\<close>

definition reconcilePort ::
  "('k, 'c) env \<Rightarrow> 'k \<Rightarrow> BalancerObj \<Rightarrow> string \<Rightarrow> serviceSettings \<Rightarrow> Service \<Rightarrow> Node list \<Rightarrow>
   (string \<rightharpoonup> ListenerObj) \<Rightarrow> ServicePort \<Rightarrow> ('c world, unit) go" where
  "reconcilePort E k balancer name settings service nodes byKey port =
     bindG (case byKey (portKey port) of
         None \<Rightarrow> bindG (createListener E k (lb_ID balancer) name settings port) derefG
       | Some listener \<Rightarrow>
           if IdleTimeout settings > 0 then
             bindG (wrapG ''failed to update listener %s: %w'' [ls_ID listener]
               (mutate E k (lb_ID balancer)
                 (bindG (lsUpdate E k (ls_ID listener)
                     \<lparr>nu_KeepAliveTimeout = IdleTimeout settings, nu_IpGroup = None\<rparr>) (\<lambda>_. returnG ()))))
               (\<lambda>_. returnG listener)
           else returnG listener) (\<lambda>listener.
     bindG (reconcileIPGroup E k (lb_ID balancer) listener name service port) (\<lambda>_.
     bindG (ensurePool E k (lb_ID balancer) listener name settings service port) (\<lambda>pool.
     bindG (reconcileMembers E k balancer (pl_ID pool) (NodePort port) nodes) (\<lambda>_.
     reconcileMonitor E k (lb_ID balancer) pool name settings service port))))"

definition reconcile ::
  "('k, 'c) env \<Rightarrow> 'k \<Rightarrow> BalancerObj \<Rightarrow> string \<Rightarrow> serviceSettings \<Rightarrow> Service \<Rightarrow> Node list \<Rightarrow> ('c world, unit) go" where
  "reconcile E k balancer name settings service nodes =
     bindG (listListeners E k (lb_ID balancer)) (\<lambda>existing.
     bindG (eachG (reconcilePort E k balancer name settings service nodes (listenersByKey existing)) (Ports service)) (\<lambda>_.
     eachG (\<lambda>listener.
       if \<not> HasPrefix (ls_Name listener) (name @ ''_'') then returnG ()
       else if listenerKey listener \<in> set (map portKey (Ports service)) then returnG ()
       else deleteListener E k (lb_ID balancer) name listener) existing))"

definition EnsureLoadBalancer ::
  "('k, 'c) env \<Rightarrow> ('k, 'c) LoadBalancer \<Rightarrow> string \<Rightarrow> Service \<Rightarrow> Node list \<Rightarrow> ('c world, LoadBalancerStatus) go" where
  "EnsureLoadBalancer E lb clusterName service nodes =
     (if Ports service = [] then
        failG (Errorf ''no ports provided for load balancer service %s/%s'' [Namespace service, ServiceName service])
      else
        bindG (liftG (validatePorts service)) (\<lambda>_.
        if nodes = [] then
          failG (Errorf ''no nodes available for load balancer service %s/%s'' [Namespace service, ServiceName service])
        else
          bindG (liftG (settingsForService (opts lb) service)) (\<lambda>settings.
          bindG (newClient lb) (\<lambda>k.
          let name = GetLoadBalancerName clusterName service in
          bindG (findLoadBalancer E k settings name) (\<lambda>found.
          bindG (case found of
              Some balancer \<Rightarrow> returnG balancer
            | None \<Rightarrow>
                if LoadBalancerID settings \<noteq> '''' then
                  failG (Errorf ''load balancer %q referenced by annotation %s not found''
                    [LoadBalancerID settings, AnnotationID])
                else createLoadBalancer E k settings name service) (\<lambda>balancer.
          bindG (waitForActive E k (lb_ID balancer)) (\<lambda>_.
          bindG (reconcile E k balancer name settings service nodes) (\<lambda>_.
          bindG (wrapG ''failed to get load balancer after reconcile: %w'' [] (lbGet E k (lb_ID balancer))) (\<lambda>balancer'.
          returnG (lbStatus balancer'))))))))))"

subsection \<open>Node changes\<close>

definition UpdateLoadBalancer ::
  "('k, 'c) env \<Rightarrow> ('k, 'c) LoadBalancer \<Rightarrow> string \<Rightarrow> Service \<Rightarrow> Node list \<Rightarrow> ('c world, unit) go" where
  "UpdateLoadBalancer E lb clusterName service nodes =
     bindG (liftG (settingsForService (opts lb) service)) (\<lambda>settings.
     bindG (newClient lb) (\<lambda>k.
     bindG (findLoadBalancer E k settings (GetLoadBalancerName clusterName service)) (\<lambda>found. case found of
         None \<Rightarrow> failG (Errorf ''load balancer for service %s/%s not found'' [Namespace service, ServiceName service])
       | Some balancer \<Rightarrow>
           bindG (listListeners E k (lb_ID balancer)) (\<lambda>existing.
           eachG (\<lambda>port. case listenersByKey existing (portKey port) of
               None \<Rightarrow> failG (Errorf ''listener for port %s/%d of service %s/%s not found''
                   [Protocol port, dec_int (Port port), Namespace service, ServiceName service])
             | Some listener \<Rightarrow>
                 bindG (findPoolForListener E k (ls_ID listener)) (\<lambda>p. case p of
                     None \<Rightarrow> failG (Errorf ''pool for listener %s not found'' [ls_ID listener])
                   | Some pool \<Rightarrow> reconcileMembers E k balancer (pl_ID pool) (NodePort port) nodes))
             (Ports service)))))"

subsection \<open>Deletion\<close>

text \<open>The retried closure turns a bad request or a conflict of a still-bound EIP into a conflict.\<close>

definition releaseEip :: "('k, 'c) env \<Rightarrow> 'k \<Rightarrow> PublicIpInfo \<Rightarrow> ('c world, unit) go" where
  "releaseEip E nk eip =
     (if PublicIpID eip = '''' then returnG ()
      else ignoreNotFound ''failed to release EIP %s (%s): %w'' [PublicIpID eip, PublicIpAddress eip]
        (retryOnConflict E (PublicIpID eip)
          (catchG (eipDelete E nk (PublicIpID eip))
            (\<lambda>e. if isConflict e \<or> isBadRequest e then failG (Http 409) else failG e))))"

definition releaseEips :: "('k, 'c) env \<Rightarrow> ('k, 'c) LoadBalancer \<Rightarrow> PublicIpInfo list \<Rightarrow> ('c world, unit) go" where
  "releaseEips E lb eipInfos =
     (if eipInfos = [] then returnG ()
      else bindG (newNetworkClient lb) (\<lambda>nk. eachG (releaseEip E nk) eipInfos))"

text \<open>
  \<open>EnsureLoadBalancerDeleted\<close> in three parts: the lookup, the loop over the listeners of the balancer
  found, and the end a balancer that is not shared comes to.
\<close>

definition destroyBalancer ::
  "('k, 'c) env \<Rightarrow> ('k, 'c) LoadBalancer \<Rightarrow> 'k \<Rightarrow> serviceSettings \<Rightarrow> BalancerObj \<Rightarrow> ('c world, unit) go" where
  "destroyBalancer E lb k settings balancer =
     bindG (ignoreNotFound ''failed to delete load balancer %s: %w'' [lb_ID balancer]
       (retryOnConflict E (lb_ID balancer) (lbDelete E k (lb_ID balancer)))) (\<lambda>_.
     if EipBandwidth settings > 0 \<and> \<not> EipKeep settings
     then releaseEips E lb (lb_PublicIps balancer) else returnG ())"

definition deleteBalancer ::
  "('k, 'c) env \<Rightarrow> ('k, 'c) LoadBalancer \<Rightarrow> 'k \<Rightarrow> serviceSettings \<Rightarrow> string \<Rightarrow> BalancerObj \<Rightarrow> ('c world, unit) go" where
  "deleteBalancer E lb k settings name balancer =
     (let shared = LoadBalancerID settings \<noteq> '''' in
      bindG (listListeners E k (lb_ID balancer)) (\<lambda>existing.
      bindG (eachG (\<lambda>listener.
          if shared \<and> \<not> HasPrefix (ls_Name listener) (name @ ''_'') then returnG ()
          else deleteListener E k (lb_ID balancer) name listener) existing) (\<lambda>_.
      if shared then returnG () else destroyBalancer E lb k settings balancer)))"

definition EnsureLoadBalancerDeleted ::
  "('k, 'c) env \<Rightarrow> ('k, 'c) LoadBalancer \<Rightarrow> string \<Rightarrow> Service \<Rightarrow> ('c world, unit) go" where
  "EnsureLoadBalancerDeleted E lb clusterName service =
     bindG (liftG (settingsForService (opts lb) service)) (\<lambda>settings.
     bindG (newClient lb) (\<lambda>k.
     let name = GetLoadBalancerName clusterName service in
     bindG (findLoadBalancer E k settings name) (\<lambda>found. case found of
         None \<Rightarrow> returnG ()
       | Some balancer \<Rightarrow> deleteBalancer E lb k settings name balancer)))"

declare GetLoadBalancer_def [THEN fun_cong, run] createLoadBalancer_def [THEN fun_cong, run]
  reconcilePort_def [THEN fun_cong, run] reconcile_def [THEN fun_cong, run]
  EnsureLoadBalancer_def [THEN fun_cong, run] UpdateLoadBalancer_def [THEN fun_cong, run]
  releaseEip_def [THEN fun_cong, run] releaseEips_def [THEN fun_cong, run]
  EnsureLoadBalancerDeleted_def [THEN fun_cong, run] deleteBalancer_def [THEN fun_cong, run]
  destroyBalancer_def [THEN fun_cong, run]

end
