(* ===== verification/Elb_Teardown.thy ===== *)
theory Elb_Teardown
  imports Elb_Policy Load_Balancer
begin

section \<open>Tearing listeners down\<close>

text \<open>
  What \<open>deleteListener\<close> and its parts may do, for any set \<open>T\<close> of listeners that may be torn down
  (a set known from the history so far): monitor, members and pool of such a listener, the listener, and
  after it its IP group if it carries the Service's name.
\<close>

definition gone :: "err + unit \<Rightarrow> bool" where
  "gone r \<longleftrightarrow> r = Inr () \<or> (\<exists>e. r = Inl e \<and> isNotFound e)"

definition stable :: "(call set \<Rightarrow> 'a \<Rightarrow> bool) \<Rightarrow> bool" where
  "stable T \<longleftrightarrow> (\<forall>S S' x. T S x \<longrightarrow> S \<subseteq> S' \<longrightarrow> T S' x)"

lemma stable_mono: "stable T \<Longrightarrow> T S x \<Longrightarrow> S \<subseteq> S' \<Longrightarrow> T S' x"
  by (simp add: stable_def)

fun teardown :: "(call set \<Rightarrow> ListenerObj \<Rightarrow> bool) \<Rightarrow> string \<Rightarrow> call set \<Rightarrow> call \<Rightarrow> bool" where
  "teardown T name S (MoDelete i _) \<longleftrightarrow> (\<exists>l p. T S l \<and> pool_of (ls_ID l) S p \<and> pl_MonitorID p = i)"
| "teardown T name S (MbDelete j i _) \<longleftrightarrow>
     (\<exists>l p ms m. T S l \<and> pool_of (ls_ID l) S p \<and> pl_ID p = j \<and>
        MbList j (Inr (Inr ms)) \<in> S \<and> m \<in> set ms \<and> mb_ID m = i)"
| "teardown T name S (PlDelete i _) \<longleftrightarrow> (\<exists>l p. T S l \<and> pool_of (ls_ID l) S p \<and> pl_ID p = i)"
| "teardown T name S (LsDelete i _) \<longleftrightarrow> (\<exists>l. T S l \<and> ls_ID l = i)"
| "teardown T name S (IgDelete i _) \<longleftrightarrow>
     (\<exists>l r g. T S l \<and> ls_IpGroupID l = i \<and> LsDelete (ls_ID l) r \<in> S \<and> gone r \<and>
        IgGet i (Inr g) \<in> S \<and> owned name (ig_Name g))"
| "teardown T name S e \<longleftrightarrow> read_only e"

lemma teardown_reads: "read_only e \<Longrightarrow> teardown T name S e"
  by (cases e) simp_all

context wait_contract begin

text \<open>The shape every deletion of a sub-resource has.\<close>

lemma follows_delete:
  assumes "\<And>S r. H \<subseteq> S \<Longrightarrow> teardown T name S (ev r)"
  shows "follows (teardown T name) H
    (ignoreNotFound fmt args (mutate E k i (sdkCall f ev)))"
proof (intro follows_ignoreNotFound follows_mutate)
  show "follows (teardown T name) H (sdkCall f ev)"
    by (rule follows_emits [where A = "\<lambda>e. \<exists>r. e = ev r"]) (use assms in \<open>auto intro: emits_sdkCall\<close>)
qed (rule teardown_reads)

lemma teardown_follows_reads: "emits read_only m \<Longrightarrow> follows (teardown T name) H m"
  by (erule follows_emits) (rule teardown_reads)

lemma deletePool_follows:
  assumes T: "stable T" and l: "T H l" and p: "pool_of (ls_ID l) H p"
  shows "follows (teardown T name) H (deletePool E k lbID p)"
  unfolding deletePool_def
proof (rule follows_bind)
  show "follows (teardown T name) H
      (if pl_MonitorID p \<noteq> '''' then ignoreNotFound ''failed to delete monitor %s: %w'' [pl_MonitorID p]
         (mutate E k lbID (moDelete E k (pl_MonitorID p))) else returnG ())"
    using l p unfolding moDelete_def
    by (auto intro!: follows_delete follows_return exI [of _ l] exI [of _ p] intro: stable_mono [OF T] pool_of_mono)
next
  fix H1 x assume H1: "H \<subseteq> H1"
  show "follows (teardown T name) H1
      (bindG (listMembers E k (pl_ID p)) (\<lambda>existing.
       bindG (eachG (\<lambda>m. ignoreNotFound ''failed to delete member %s: %w'' [mb_ID m]
         (mutate E k lbID (mbDelete E k (pl_ID p) (mb_ID m)))) existing) (\<lambda>_.
       ignoreNotFound ''failed to delete pool %s: %w'' [pl_ID p] (mutate E k lbID (plDelete E k (pl_ID p))))))"
  proof (rule follows_known_bind [OF teardown_follows_reads [OF reads(4)] known_listMembers], rule follows_bind)
    fix ms H2 assume H2: "H1 \<subseteq> H2" and ms: "MbList (pl_ID p) (Inr (Inr ms)) \<in> H2"
    note l2 = stable_mono [OF T l order_trans [OF H1 H2]] and p2 = pool_of_mono [OF p order_trans [OF H1 H2]]
    show "follows (teardown T name) H2
        (eachG (\<lambda>m. ignoreNotFound ''failed to delete member %s: %w'' [mb_ID m]
         (mutate E k lbID (mbDelete E k (pl_ID p) (mb_ID m)))) ms)"
      unfolding mbDelete_def
    proof (rule follows_each, rule follows_delete)
      fix m H3 S r assume "m \<in> set ms" "H2 \<subseteq> H3" "H3 \<subseteq> S"
      then show "teardown T name S (MbDelete (pl_ID p) (mb_ID m) r)"
        using l2 p2 ms unfolding teardown.simps by (blast intro: stable_mono [OF T] pool_of_mono)
    qed
    fix H3 assume "H2 \<subseteq> H3"
    then show "follows (teardown T name) H3 (ignoreNotFound ''failed to delete pool %s: %w'' [pl_ID p]
        (mutate E k lbID (plDelete E k (pl_ID p))))"
      using l2 p2 unfolding plDelete_def
      by (intro follows_delete) (auto intro!: exI [of _ l] exI [of _ p] intro: stable_mono [OF T] pool_of_mono)
  qed
qed

lemma deleteIPGroup_follows:
  assumes T: "stable T" and l: "T H l" and gone: "LsDelete (ls_ID l) r \<in> H" "gone r"
  shows "follows (teardown T name) H (deleteIPGroup E k lbID (ls_IpGroupID l) name)"
proof (cases "ls_IpGroupID l = ''''")
  case True
  then show ?thesis by (simp add: deleteIPGroup_def follows_return)
next
  case False
  show ?thesis
    unfolding deleteIPGroup_def if_not_P [OF False]
  proof (rule follows_known_bind)
    let ?get = "getOrNone ''failed to get ipgroup %s: %w'' [ls_IpGroupID l] (igGet E k (ls_IpGroupID l))"
    show "follows (teardown T name) H ?get"
      by (intro teardown_follows_reads emits_rules) simp
    show "known ?get (\<lambda>g S. \<forall>x. g = Some x \<longrightarrow> IgGet (ls_IpGroupID l) (Inr x) \<in> S)"
      unfolding igGet_def by (rule known_getOrNone, rule known_sdkCall)
    fix g H1 assume H1: "H \<subseteq> H1" and g: "\<forall>x. g = Some x \<longrightarrow> IgGet (ls_IpGroupID l) (Inr x) \<in> H1"
    have del: "follows (teardown T name) H1 (igDelete E k (ls_IpGroupID l))"
      if "g = Some x" "owned name (ig_Name x)" for x
    proof (rule follows_emits [where A = "\<lambda>e. \<exists>r. e = IgDelete (ls_IpGroupID l) r"])
      show "emits (\<lambda>e. \<exists>r. e = IgDelete (ls_IpGroupID l) r) (igDelete E k (ls_IpGroupID l))"
        by (intro emits_rules) blast
      fix S e assume S: "H1 \<subseteq> S" and "\<exists>r. e = IgDelete (ls_IpGroupID l) r"
      then obtain r' where e: "e = IgDelete (ls_IpGroupID l) r'" by blast
      show "teardown T name S e"
        unfolding e teardown.simps
        by (rule exI [of _ l], rule exI [of _ r], rule exI [of _ x])
          (use stable_mono [OF T l order_trans [OF H1 S]] gone g that H1 S in auto)
    qed
    show "follows (teardown T name) H1 (case g of
          None \<Rightarrow> returnG ()
        | Some grp \<Rightarrow>
            if \<not> HasPrefix (ig_Name grp) (name @ ''_'') then returnG ()
            else wrapG ''failed to delete ipgroup %s: %w'' [ls_IpGroupID l]
              (retryOnConflict E lbID (catchG (igDelete E k (ls_IpGroupID l))
                 (\<lambda>e. if isNotFound e then returnG () else failG e))))"
      using del by (auto simp: owned_def split: option.splits intro!: follows_return follows_fail follows_wrap
          follows_retry follows_catch)
  qed
qed

lemma deleteListener_follows:
  assumes T: "stable T" and l: "T H l"
  shows "follows (teardown T name) H (deleteListener E k lbID name l)"
  unfolding deleteListener_def
proof (rule follows_known_bind [OF teardown_follows_reads [OF reads(2)] known_findPool], rule follows_bind)
  fix p H1 assume H1: "H \<subseteq> H1" and p: "\<forall>x. p = Some x \<longrightarrow> pool_of (ls_ID l) H1 x"
  show "follows (teardown T name) H1 (case p of None \<Rightarrow> returnG () | Some p \<Rightarrow> deletePool E k lbID p)"
    using p stable_mono [OF T l H1] by (auto intro: follows_return deletePool_follows [OF T] split: option.split)
  fix H2 assume H2: "H1 \<subseteq> H2"
  note l2 = stable_mono [OF T l order_trans [OF H1 H2]]
  show "follows (teardown T name) H2
      (bindG (ignoreNotFound ''failed to delete listener %s: %w'' [ls_ID l] (mutate E k lbID (lsDelete E k (ls_ID l))))
        (\<lambda>_. deleteIPGroup E k lbID (ls_IpGroupID l) name))"
  proof (rule follows_known_bind)
    show "follows (teardown T name) H2
        (ignoreNotFound ''failed to delete listener %s: %w'' [ls_ID l] (mutate E k lbID (lsDelete E k (ls_ID l))))"
      unfolding lsDelete_def by (rule follows_delete) (use l2 in \<open>auto intro: stable_mono [OF T]\<close>)
    show "known (ignoreNotFound ''failed to delete listener %s: %w'' [ls_ID l] (mutate E k lbID (lsDelete E k (ls_ID l))))
        (\<lambda>_ S. \<exists>r. LsDelete (ls_ID l) r \<in> S \<and> gone r)"
      unfolding lsDelete_def gone_def by (rule known_mutated_delete)
    fix x H3 assume "H2 \<subseteq> H3" and "\<exists>r. LsDelete (ls_ID l) r \<in> H3 \<and> gone r"
    then show "follows (teardown T name) H3 (deleteIPGroup E k lbID (ls_IpGroupID l) name)"
      using stable_mono [OF T l2] by (blast intro: deleteIPGroup_follows [OF T])
  qed
qed

end

end
