(* ===== verification/Fake_Elb.thy ===== *)
theory Fake_Elb
  imports Elb_Wait "HOL-Library.AList"
begin

section \<open>The in-memory ELB of the tests: \<open>pkg/elb/fake_elb_test.go\<close>\<close>

text \<open>
  \<open>fakeELB\<close>, the server behind the repository's lifecycle tests, as a concrete environment. Each
  handler is a function on the server's state; the maps are association lists, ranged over in
  insertion order. What the SDK sends and decodes is represented by the option and object records.
  The two clients are the two URL prefixes the server tells apart.

  The environment \<open>fake_env\<close> adds the waiting functions of a context that is never cancelled, as
  the tests have it, and interprets the contracts of \<open>Elb_Wait\<close>.
\<close>

record FakeListener =
  fl_obj :: ListenerObj
  fl_loadbalancer_id :: string
  fl_keepalive :: int

record FakeMonitor =
  fm_obj :: MonitorObj
  fm_pool_id :: string

record fakeELB =
  nextID :: int
  loadBalancers :: "(string \<times> BalancerObj) list"
  listeners :: "(string \<times> FakeListener) list"
  pools :: "(string \<times> PoolObj) list"
  monitors :: "(string \<times> FakeMonitor) list"
  members :: "(string \<times> (string \<times> MemberObj) list) list"
  eips :: "(string \<times> string) list"
  ipGroups :: "(string \<times> IpGroupObj) list"

datatype fakeClient = ElbClient | NetworkClient

definition newFakeELB :: fakeELB where
  "newFakeELB = \<lparr>nextID = 0, loadBalancers = [], listeners = [], pools = [], monitors = [],
     members = [], eips = [], ipGroups = []\<rparr>"

text \<open>\<open>fmt.Sprintf("%s-%04d", prefix, f.nextID)\<close> after the increment.\<close>

definition genID :: "string \<Rightarrow> int \<Rightarrow> string" where
  "genID pre n = pre @ ''-'' @ replicate (4 - length (dec_int n)) (CHR ''0'') @ dec_int n"

text \<open>The answers shared by the handlers: 404, a lookup, a deletion.\<close>

definition getItem :: "(string \<times> 'a) list \<Rightarrow> string \<Rightarrow> err + 'a" where
  "getItem m i = (case map_of m i of None \<Rightarrow> Inl (Http 404) | Some x \<Rightarrow> Inr x)"

definition delItem :: "(string \<times> 'a) list \<Rightarrow> string \<Rightarrow> (err + unit) \<times> (string \<times> 'a) list" where
  "delItem m i = (case map_of m i of None \<Rightarrow> (Inl (Http 404), m) | Some _ \<Rightarrow> (Inr (), AList.delete i m))"

definition onElb :: "fakeClient \<Rightarrow> ('c \<Rightarrow> (err + 'a) \<times> 'c) \<Rightarrow> 'c \<Rightarrow> (err + 'a) \<times> 'c" where
  "onElb k f s = (if k = ElbClient then f s else (Inl (Http 404), s))"

subsection \<open>Load balancers and EIPs\<close>

definition fake_lbCreate :: "LBCreateOpts \<Rightarrow> fakeELB \<Rightarrow> (err + BalancerObj) \<times> fakeELB" where
  "fake_lbCreate opts s =
     (let n = nextID s + 1; i = genID ''lb'' n;
          vip = (if lc_VipAddress opts = '''' then ''192.168.0.100'' else lc_VipAddress opts);
          n' = (case lc_PublicIp opts of None \<Rightarrow> n | Some _ \<Rightarrow> n + 1);
          newEips = (case lc_PublicIp opts of None \<Rightarrow> []
             | Some _ \<Rightarrow> [(genID ''eip'' n', ''80.158.0.'' @ dec_int n')]);
          body = \<lparr>lb_ID = i, lb_Name = lc_Name opts, lb_VipSubnetCidrID = lc_VipSubnetCidrID opts,
             lb_VipAddress = vip,
             lb_PublicIps = map (\<lambda>(e, a). \<lparr>PublicIpID = e, PublicIpAddress = a\<rparr>) newEips,
             lb_ProvisioningStatus = ''ACTIVE''\<rparr>
      in (Inr body, s\<lparr>nextID := n', loadBalancers := loadBalancers s @ [(i, body)], eips := eips s @ newEips\<rparr>))"

definition fake_lbList :: "string \<Rightarrow> fakeELB \<Rightarrow> (err + (err + BalancerObj list)) \<times> fakeELB" where
  "fake_lbList name s =
     (Inr (Inr (filter (\<lambda>b. name = '''' \<or> lb_Name b = name) (map snd (loadBalancers s)))), s)"

definition fake_lbDelete :: "string \<Rightarrow> fakeELB \<Rightarrow> (err + unit) \<times> fakeELB" where
  "fake_lbDelete i s = (case delItem (loadBalancers s) i of (r, m) \<Rightarrow> (r, s\<lparr>loadBalancers := m\<rparr>))"

definition fake_eipDelete :: "string \<Rightarrow> fakeELB \<Rightarrow> (err + unit) \<times> fakeELB" where
  "fake_eipDelete i s = (case delItem (eips s) i of (r, m) \<Rightarrow> (r, s\<lparr>eips := m\<rparr>))"

subsection \<open>Listeners\<close>

definition fake_lsCreate :: "ListenerCreateOpts \<Rightarrow> fakeELB \<Rightarrow> (err + ListenerObj) \<times> fakeELB" where
  "fake_lsCreate opts s =
     (let n = nextID s + 1; i = genID ''listener'' n;
          body = \<lparr>ls_ID = i, ls_Name = nc_Name opts, ls_Protocol = nc_Protocol opts,
             ls_ProtocolPort = nc_ProtocolPort opts, ls_DefaultPoolID = '''', ls_IpGroupID = '''',
             ls_IpGroupEnable = None\<rparr>;
          l = \<lparr>fl_obj = body, fl_loadbalancer_id = nc_LoadbalancerID opts,
             fl_keepalive = nc_KeepAliveTimeout opts\<rparr>
      in (Inr body, s\<lparr>nextID := n, listeners := listeners s @ [(i, l)]\<rparr>))"

definition fake_lsList :: "string \<Rightarrow> fakeELB \<Rightarrow> (err + (err + ListenerObj list)) \<times> fakeELB" where
  "fake_lsList lbID s =
     (Inr (Inr (map fl_obj (filter (\<lambda>l. lbID = '''' \<or> fl_loadbalancer_id l = lbID) (map snd (listeners s))))), s)"

definition fake_lsGet :: "string \<Rightarrow> fakeELB \<Rightarrow> (err + ListenerObj) \<times> fakeELB" where
  "fake_lsGet i s = (map_sum id fl_obj (getItem (listeners s) i), s)"

text \<open>The body holds only the fields that are set: \<open>omitempty\<close>.\<close>

definition fake_lsUpdate :: "string \<Rightarrow> ListenerUpdateOpts \<Rightarrow> fakeELB \<Rightarrow> (err + ListenerObj) \<times> fakeELB" where
  "fake_lsUpdate i opts s =
     (case map_of (listeners s) i of None \<Rightarrow> (Inl (Http 404), s)
      | Some l \<Rightarrow>
          let obj = (case nu_IpGroup opts of None \<Rightarrow> fl_obj l
                | Some g \<Rightarrow> (fl_obj l)\<lparr>ls_IpGroupID := iu_IpGroupId g, ls_IpGroupEnable := Some (iu_Enable g)\<rparr>);
              l' = l\<lparr>fl_obj := obj,
                fl_keepalive := (if nu_KeepAliveTimeout opts = 0 then fl_keepalive l else nu_KeepAliveTimeout opts)\<rparr>
          in (Inr obj, s\<lparr>listeners := AList.update i l' (listeners s)\<rparr>))"

definition fake_lsDelete :: "string \<Rightarrow> fakeELB \<Rightarrow> (err + unit) \<times> fakeELB" where
  "fake_lsDelete i s = (case delItem (listeners s) i of (r, m) \<Rightarrow> (r, s\<lparr>listeners := m\<rparr>))"

subsection \<open>Pools, members, monitors\<close>

definition fake_plCreate :: "PoolCreateOpts \<Rightarrow> fakeELB \<Rightarrow> (err + PoolObj) \<times> fakeELB" where
  "fake_plCreate opts s =
     (let n = nextID s + 1; i = genID ''pool'' n;
          body = \<lparr>pl_ID = i, pl_Name = pc_Name opts, pl_LBMethod = pc_LBMethod opts,
             pl_Persistence = pc_Persistence opts, pl_MonitorID = ''''\<rparr>;
          ls = (case map_of (listeners s) (pc_ListenerID opts) of None \<Rightarrow> listeners s
             | Some l \<Rightarrow> AList.update (pc_ListenerID opts) (l\<lparr>fl_obj := (fl_obj l)\<lparr>ls_DefaultPoolID := i\<rparr>\<rparr>) (listeners s))
      in (Inr body, s\<lparr>nextID := n, listeners := ls, pools := pools s @ [(i, body)], members := members s @ [(i, [])]\<rparr>))"

definition fake_plGet :: "string \<Rightarrow> fakeELB \<Rightarrow> (err + PoolObj) \<times> fakeELB" where
  "fake_plGet i s = (getItem (pools s) i, s)"

text \<open>\<open>Extract\<close> returns a nil pointer beside an error.\<close>

definition fake_plUpdate :: "string \<Rightarrow> PoolUpdateOpts \<Rightarrow> fakeELB \<Rightarrow> (PoolObj option \<times> err option) \<times> fakeELB" where
  "fake_plUpdate i opts s =
     (case map_of (pools s) i of None \<Rightarrow> ((None, Some (Http 404)), s)
      | Some p \<Rightarrow>
          let p' = p\<lparr>pl_LBMethod := pu_LBMethod opts,
                pl_Persistence := (case pu_Persistence opts of None \<Rightarrow> pl_Persistence p | Some sp \<Rightarrow> Some sp)\<rparr>
          in ((Some p', None), s\<lparr>pools := AList.update i p' (pools s)\<rparr>))"

definition fake_plDelete :: "string \<Rightarrow> fakeELB \<Rightarrow> (err + unit) \<times> fakeELB" where
  "fake_plDelete i s = (case delItem (pools s) i of (Inl e, m) \<Rightarrow> (Inl e, s)
     | (Inr u, m) \<Rightarrow> (Inr u, s\<lparr>pools := m, members := AList.delete i (members s)\<rparr>))"

definition fake_mbList :: "string \<Rightarrow> fakeELB \<Rightarrow> (err + (err + MemberObj list)) \<times> fakeELB" where
  "fake_mbList p s = (map_sum id (\<lambda>ms. Inr (map snd ms)) (getItem (members s) p), s)"

definition fake_mbCreate :: "string \<Rightarrow> MemberCreateOpts \<Rightarrow> fakeELB \<Rightarrow> (err + MemberObj) \<times> fakeELB" where
  "fake_mbCreate p opts s =
     (case map_of (members s) p of None \<Rightarrow> (Inl (Http 404), s)
      | Some ms \<Rightarrow>
          let n = nextID s + 1; i = genID ''member'' n;
              body = \<lparr>mb_ID = i, mb_Address = mc_Address opts, mb_ProtocolPort = mc_ProtocolPort opts\<rparr>
          in (Inr body, s\<lparr>nextID := n, members := AList.update p (ms @ [(i, body)]) (members s)\<rparr>))"

definition fake_mbDelete :: "string \<Rightarrow> string \<Rightarrow> fakeELB \<Rightarrow> (err + unit) \<times> fakeELB" where
  "fake_mbDelete p i s =
     (case map_of (members s) p of None \<Rightarrow> (Inl (Http 404), s)
      | Some ms \<Rightarrow> (case delItem ms i of (r, ms') \<Rightarrow> (r, s\<lparr>members := AList.update p ms' (members s)\<rparr>)))"

definition setMonitorID :: "string \<Rightarrow> string \<Rightarrow> (string \<times> PoolObj) list \<Rightarrow> (string \<times> PoolObj) list" where
  "setMonitorID p i ps = (case map_of ps p of None \<Rightarrow> ps
     | Some pool \<Rightarrow> AList.update p (pool\<lparr>pl_MonitorID := i\<rparr>) ps)"

definition fake_moCreate :: "MonitorCreateOpts \<Rightarrow> fakeELB \<Rightarrow> (err + MonitorObj) \<times> fakeELB" where
  "fake_moCreate opts s =
     (let n = nextID s + 1; i = genID ''monitor'' n;
          body = \<lparr>mo_ID = i, mo_Type = oc_Type opts, mo_MonitorPort = oc_MonitorPort opts,
             mo_Delay = oc_Delay opts, mo_Timeout = oc_Timeout opts, mo_MaxRetries = oc_MaxRetries opts,
             mo_URLPath = oc_URLPath opts, mo_HTTPMethod = oc_HTTPMethod opts\<rparr>
      in (Inr body, s\<lparr>nextID := n, pools := setMonitorID (oc_PoolID opts) i (pools s),
            monitors := monitors s @ [(i, \<lparr>fm_obj = body, fm_pool_id = oc_PoolID opts\<rparr>)]\<rparr>))"

definition fake_moGet :: "string \<Rightarrow> fakeELB \<Rightarrow> (err + MonitorObj) \<times> fakeELB" where
  "fake_moGet i s = (map_sum id fm_obj (getItem (monitors s) i), s)"

definition fake_moUpdate :: "string \<Rightarrow> MonitorUpdateOpts \<Rightarrow> fakeELB \<Rightarrow> (err + MonitorObj) \<times> fakeELB" where
  "fake_moUpdate i opts s =
     (case map_of (monitors s) i of None \<Rightarrow> (Inl (Http 404), s)
      | Some m \<Rightarrow>
          let keep = (\<lambda>new old. if new = 0 then old else new);
              keepS = (\<lambda>new old. if new = '''' then old else new);
              o' = (fm_obj m)\<lparr>mo_Delay := keep (ou_Delay opts) (mo_Delay (fm_obj m)),
                mo_Timeout := keep (ou_Timeout opts) (mo_Timeout (fm_obj m)),
                mo_MaxRetries := keep (ou_MaxRetries opts) (mo_MaxRetries (fm_obj m)),
                mo_URLPath := keepS (ou_URLPath opts) (mo_URLPath (fm_obj m)),
                mo_HTTPMethod := keepS (ou_HTTPMethod opts) (mo_HTTPMethod (fm_obj m))\<rparr>
          in (Inr o', s\<lparr>monitors := AList.update i (m\<lparr>fm_obj := o'\<rparr>) (monitors s)\<rparr>))"

definition fake_moDelete :: "string \<Rightarrow> fakeELB \<Rightarrow> (err + unit) \<times> fakeELB" where
  "fake_moDelete i s =
     (case map_of (monitors s) i of None \<Rightarrow> (Inl (Http 404), s)
      | Some m \<Rightarrow> (Inr (), s\<lparr>pools := (if fm_pool_id m = '''' then pools s else setMonitorID (fm_pool_id m) '''' (pools s)),
            monitors := AList.delete i (monitors s)\<rparr>))"

subsection \<open>IP groups\<close>

definition fake_igCreate :: "IpGroupCreateOpts \<Rightarrow> fakeELB \<Rightarrow> (err + IpGroupObj) \<times> fakeELB" where
  "fake_igCreate opts s =
     (let n = nextID s + 1; i = genID ''ipgroup'' n;
          body = \<lparr>ig_ID = i, ig_Name = gc_Name opts, ig_IpList = gc_IpList opts\<rparr>
      in (Inr body, s\<lparr>nextID := n, ipGroups := ipGroups s @ [(i, body)]\<rparr>))"

definition fake_igGet :: "string \<Rightarrow> fakeELB \<Rightarrow> (err + IpGroupObj) \<times> fakeELB" where
  "fake_igGet i s = (getItem (ipGroups s) i, s)"

definition fake_igUpdate :: "string \<Rightarrow> string list \<Rightarrow> fakeELB \<Rightarrow> (err + unit) \<times> fakeELB" where
  "fake_igUpdate i ips s =
     (case map_of (ipGroups s) i of None \<Rightarrow> (Inl (Http 404), s)
      | Some g \<Rightarrow> (Inr (), s\<lparr>ipGroups := AList.update i (g\<lparr>ig_IpList := ips\<rparr>) (ipGroups s)\<rparr>))"

definition fake_igDelete :: "string \<Rightarrow> fakeELB \<Rightarrow> (err + unit) \<times> fakeELB" where
  "fake_igDelete i s = (case delItem (ipGroups s) i of (r, m) \<Rightarrow> (r, s\<lparr>ipGroups := m\<rparr>))"

subsection \<open>The environment\<close>

definition patientBackoff :: "Backoff \<Rightarrow> ('w, bool) go \<Rightarrow> ('w, unit) go" where
  "patientBackoff b cond = attempts (bo_Steps b) WaitTimeout cond"

definition patientPoll :: "nat \<Rightarrow> nat \<Rightarrow> bool \<Rightarrow> ('w, bool) go \<Rightarrow> ('w, unit) go" where
  "patientPoll interval timeout immediate cond = attempts (Suc (timeout div interval)) CtxDone cond"

definition fake_env :: "(fakeClient, fakeELB) env" where
  "fake_env = \<lparr>
     loadbalancers_List = (\<lambda>k n. onElb k (fake_lbList n)),
     loadbalancers_Get = (\<lambda>k i. onElb k (\<lambda>s. (getItem (loadBalancers s) i, s))),
     loadbalancers_Create = (\<lambda>k opts. onElb k (fake_lbCreate opts)),
     loadbalancers_Delete = (\<lambda>k i. onElb k (fake_lbDelete i)),
     listeners_List = (\<lambda>k i. onElb k (fake_lsList i)),
     listeners_Get = (\<lambda>k i. onElb k (fake_lsGet i)),
     listeners_Create = (\<lambda>k opts. onElb k (fake_lsCreate opts)),
     listeners_Update = (\<lambda>k i opts. onElb k (fake_lsUpdate i opts)),
     listeners_Delete = (\<lambda>k i. onElb k (fake_lsDelete i)),
     pools_Get = (\<lambda>k i. onElb k (fake_plGet i)),
     pools_Create = (\<lambda>k opts. onElb k (fake_plCreate opts)),
     pools_Update = (\<lambda>k i opts s. if k = ElbClient then fake_plUpdate i opts s else ((None, Some (Http 404)), s)),
     pools_Delete = (\<lambda>k i. onElb k (fake_plDelete i)),
     members_List = (\<lambda>k p. onElb k (fake_mbList p)),
     members_Create = (\<lambda>k p opts. onElb k (fake_mbCreate p opts)),
     members_Delete = (\<lambda>k p i. onElb k (fake_mbDelete p i)),
     monitors_Get = (\<lambda>k i. onElb k (fake_moGet i)),
     monitors_Create = (\<lambda>k opts. onElb k (fake_moCreate opts)),
     monitors_Update = (\<lambda>k i opts. onElb k (fake_moUpdate i opts)),
     monitors_Delete = (\<lambda>k i. onElb k (fake_moDelete i)),
     ipgroups_Get = (\<lambda>k i. onElb k (fake_igGet i)),
     ipgroups_Create = (\<lambda>k opts. onElb k (fake_igCreate opts)),
     ipgroups_Update = (\<lambda>k i ips. onElb k (fake_igUpdate i ips)),
     ipgroups_Delete = (\<lambda>k i. onElb k (fake_igDelete i)),
     eips_Delete = (\<lambda>k i s. if k = NetworkClient then fake_eipDelete i s else (Inl (Http 404), s)),
     exponentialBackoff = patientBackoff,
     pollUntilContextTimeout = patientPoll\<rparr>"

definition world_of :: "'c \<Rightarrow> 'c world" where
  "world_of s = \<lparr>cloud = s, trace = [], v_listener = None, v_pool = None, goOrder = asListed\<rparr>"

lemma patient_env:
  assumes "exponentialBackoff E = patientBackoff" and "pollUntilContextTimeout E = patientPoll"
  shows "patient_wait E"
proof
  fix b cond w
  show "\<exists>n e. n \<le> bo_Steps b \<and> gaveUp e \<and> exponentialBackoff E b cond w = attempts n e cond w"
    by (rule exI [of _ "bo_Steps b"], rule exI [of _ WaitTimeout]) (simp add: assms patientBackoff_def gaveUp_def)
  show "exponentialBackoff E b cond w = attempts (bo_Steps b) WaitTimeout cond w"
    by (simp add: assms patientBackoff_def)
next
  fix i t im cond w
  show "\<exists>n e. (im \<longrightarrow> 0 < n) \<and> gaveUp e \<and> pollUntilContextTimeout E i t im cond w = attempts n e cond w"
    by (rule exI [of _ "Suc (t div i)"], rule exI [of _ CtxDone]) (simp add: assms patientPoll_def gaveUp_def)
qed

interpretation fake: patient_wait fake_env
  by (rule patient_env) (simp_all add: fake_env_def)

subsection \<open>Evaluation\<close>

lemma fake_fields [run]:
  "loadbalancers_List fake_env k n s = onElb k (fake_lbList n) s"
  "loadbalancers_Get fake_env k n s = onElb k (\<lambda>s. (getItem (loadBalancers s) n, s)) s"
  "loadbalancers_Create fake_env k oo s = onElb k (fake_lbCreate oo) s"
  "loadbalancers_Delete fake_env k n s = onElb k (fake_lbDelete n) s"
  "listeners_List fake_env k n s = onElb k (fake_lsList n) s"
  "listeners_Get fake_env k n s = onElb k (fake_lsGet n) s"
  "listeners_Create fake_env k no s = onElb k (fake_lsCreate no) s"
  "listeners_Update fake_env k n nu s = onElb k (fake_lsUpdate n nu) s"
  "listeners_Delete fake_env k n s = onElb k (fake_lsDelete n) s"
  "pools_Get fake_env k n s = onElb k (fake_plGet n) s"
  "pools_Create fake_env k po s = onElb k (fake_plCreate po) s"
  "pools_Update fake_env k n pu s = (if k = ElbClient then fake_plUpdate n pu s else ((None, Some (Http 404)), s))"
  "pools_Delete fake_env k n s = onElb k (fake_plDelete n) s"
  "members_List fake_env k n s = onElb k (fake_mbList n) s"
  "members_Create fake_env k n mo s = onElb k (fake_mbCreate n mo) s"
  "members_Delete fake_env k n i s = onElb k (fake_mbDelete n i) s"
  "monitors_Get fake_env k n s = onElb k (fake_moGet n) s"
  "monitors_Create fake_env k mc s = onElb k (fake_moCreate mc) s"
  "monitors_Update fake_env k n mu s = onElb k (fake_moUpdate n mu) s"
  "monitors_Delete fake_env k n s = onElb k (fake_moDelete n) s"
  "ipgroups_Get fake_env k n s = onElb k (fake_igGet n) s"
  "ipgroups_Create fake_env k go s = onElb k (fake_igCreate go) s"
  "ipgroups_Update fake_env k n ips s = onElb k (fake_igUpdate n ips) s"
  "ipgroups_Delete fake_env k n s = onElb k (fake_igDelete n) s"
  "eips_Delete fake_env k n s = (if k = NetworkClient then fake_eipDelete n s else (Inl (Http 404), s))"
  "exponentialBackoff fake_env = patientBackoff"
  "pollUntilContextTimeout fake_env = patientPoll"
  by (simp_all add: fake_env_def)

declare patientBackoff_def[THEN fun_cong, run] patientPoll_def[THEN fun_cong, run]
declare fake_lbList_def [run] fake_lbCreate_def [run] fake_lbDelete_def [run] fake_lsList_def [run] fake_lsGet_def [run]
 fake_lsCreate_def [run] fake_lsUpdate_def [run] fake_lsDelete_def [run] fake_plGet_def [run] fake_plCreate_def [run] fake_plUpdate_def [run]
 fake_plDelete_def [run] fake_mbList_def [run] fake_mbCreate_def [run] fake_mbDelete_def [run] fake_moGet_def [run] fake_moCreate_def [run]
 fake_moUpdate_def [run] fake_moDelete_def [run] fake_igGet_def [run] fake_igCreate_def [run] fake_igUpdate_def [run] fake_igDelete_def [run]
 fake_eipDelete_def [run] getItem_def [run] delItem_def [run] onElb_def [run] setMonitorID_def [run] genID_def [run]
  newFakeELB_def [run] world_of_def [run] rangeOrder_def [run] asListed.rep_eq [run]

end
