(* ===== verification/Elb_Fixtures.thy ===== *)
theory Elb_Fixtures
  imports Load_Balancer Fake_Elb
begin

section \<open>The fixtures of the tests: \<open>pkg/elb/elb_test.go\<close>\<close>

text \<open>
  \<open>testLoadBalancer\<close>, \<open>testService\<close> and \<open>testNode\<close>, on which the witnesses run the model, and the
  data equations that evaluate them.
\<close>

definition testOpts :: LoadBalancerOpts where
  "testOpts = DefaultLoadBalancerOpts\<lparr>def_SubnetID := ''subnet-1234'', def_VpcID := ''vpc-1234'',
     def_AvailabilityZones := [''eu-de-01'']\<rparr>"

definition testLoadBalancer :: "(fakeClient, 'c) LoadBalancer" where
  "testLoadBalancer = \<lparr>opts = testOpts, newClient = returnG ElbClient, newNetworkClient = returnG NetworkClient\<rparr>"

definition annotatedService :: "(string \<rightharpoonup> string) \<Rightarrow> ServicePort list \<Rightarrow> Service" where
  "annotatedService ann ports = (plain_service ann)\<lparr>Ports := ports\<rparr>"

definition testService :: "ServicePort list \<Rightarrow> Service" where
  "testService ports = annotatedService Map.empty ports"

definition testNode :: "string \<Rightarrow> string \<Rightarrow> Node" where
  "testNode name ip = \<lparr>NodeName = name, Addresses = [\<lparr>AddrType = ''InternalIP'', Address = ip\<rparr>]\<rparr>"

text \<open>A balancer of the Service \<open>default/web\<close> in cluster \<open>c\<close> with an EIP, one listener of the Service and
  one of somebody else.\<close>

definition testListener :: "string \<Rightarrow> string \<Rightarrow> int \<Rightarrow> FakeListener" where
  "testListener i name port = \<lparr>fl_obj = \<lparr>ls_ID = i, ls_Name = name, ls_Protocol = ''TCP'', ls_ProtocolPort = port,
     ls_DefaultPoolID = '''', ls_IpGroupID = '''', ls_IpGroupEnable = None\<rparr>,
     fl_loadbalancer_id = ''lb-1'', fl_keepalive = 0\<rparr>"

definition testState :: fakeELB where
  "testState = newFakeELB\<lparr>
     loadBalancers := [(''lb-1'', \<lparr>lb_ID = ''lb-1'', lb_Name = ''kube_service_c_default_web'',
       lb_VipSubnetCidrID = ''subnet-1234'', lb_VipAddress = ''192.168.0.100'',
       lb_PublicIps = [\<lparr>PublicIpID = ''eip-1'', PublicIpAddress = ''80.158.0.1''\<rparr>],
       lb_ProvisioningStatus = ''ACTIVE''\<rparr>)],
     listeners := [(''ls-1'', testListener ''ls-1'' ''kube_service_c_default_web_TCP_80'' 80),
       (''ls-2'', testListener ''ls-2'' ''somebody-else'' 443)],
     eips := [(''eip-1'', ''80.158.0.1'')]\<rparr>"

subsection \<open>Evaluation\<close>

lemma dec_nat_numeral:
  "dec_nat (numeral k) = (if numeral k < (10::nat) then [digit_char (numeral k)]
     else dec_nat (numeral k div 10) @ [digit_char (numeral k mod 10)])"
  "dec_nat 0 = ''0''" "dec_nat (Suc 0) = ''1''"
  by (rule dec_nat.simps, simp_all add: dec_nat.simps digit_char_def)

lemma replicate_numeral: "replicate (numeral k) x = x # replicate (pred_numeral k) x"
  by (simp add: numeral_eq_Suc)

lemmas data_run [run] = dec_nat_numeral replicate_numeral dec_int_def digit_char_def
  portKey_def listenerKey_def memberKey_def resourceName_def cutString_def maxResourceNameLength_def
  GetLoadBalancerName_def lbNamePrefix_def listenersByKey_def validatePorts_def nodeAddress_def lbStatus_def
  desiredPersistence_def desiredProbe_def normalizeRanges_def HasPrefix_def Let_def

lemmas settings_run = settingsForService_def applyStringAnnotations_def applyEipAnnotations_def
  applyHealthAnnotations_def defaultSettings_def DefaultLoadBalancerOpts_def annStr_def annInt_def annBool_def

lemma fixture_fields [run]:
  "Namespace (annotatedService ann ps) = ''default''" "ServiceName (annotatedService ann ps) = ''web''"
  "Annotations (annotatedService ann ps) = ann" "Ports (annotatedService ann ps) = ps"
  "LoadBalancerIP (annotatedService ann ps) = ''''" "SessionAffinity (annotatedService ann ps) = ''''"
  "AffinityConfig (annotatedService ann ps) = None" "ExternalTrafficPolicy (annotatedService ann ps) = ''''"
  "HealthCheckNodePort (annotatedService ann ps) = 0" "LoadBalancerSourceRanges (annotatedService ann ps) = []"
  "opts testLoadBalancer = testOpts" "newClient testLoadBalancer = returnG ElbClient"
  "newNetworkClient testLoadBalancer = returnG NetworkClient"
  by (simp_all add: annotatedService_def plain_service_def testLoadBalancer_def)

lemmas fixture_defs [run] = testListener_def testState_def testService_def testNode_def port80_def

definition plainSettings :: serviceSettings where
  "plainSettings = \<lparr>LoadBalancerID = '''', SubnetID = ''subnet-1234'', VpcID = ''vpc-1234'',
     AvailabilityZones = [''eu-de-01''], L4FlavorID = '''', LBAlgorithm = ''ROUND_ROBIN'', EipIDs = [],
     EipBandwidth = 0, EipType = ''5_bgp'', EipKeep = False, IdleTimeout = 0, HealthCheckEnabled = True,
     HealthCheckDelay = 5, HealthCheckTimeout = 3, HealthCheckMaxRetries = 3, HealthCheckProtocol = '''',
     HealthCheckURLPath = '''', HealthCheckHTTPMethod = ''''\<rparr>"

lemma Atoi_100: "Atoi ''100'' = Inr 100"
  by code_simp

lemma settings_fixtures [run]:
  "settingsForService testOpts (annotatedService Map.empty ps) = Inr plainSettings"
  "settingsForService testOpts (annotatedService [AnnotationEipBandwidth \<mapsto> ''100''] ps) =
     Inr (plainSettings\<lparr>EipBandwidth := 100\<rparr>)"
  "settingsForService testOpts (annotatedService [AnnotationID \<mapsto> ''lb-1''] ps) =
     Inr (plainSettings\<lparr>LoadBalancerID := ''lb-1''\<rparr>)"
  by (simp_all add: run settings_run testOpts_def annotation_defs plainSettings_def Atoi_100)

declare plainSettings_def [run]

lemma testLoadBalancer_quiet [simp]:
  "emits (\<lambda>_. False) (newClient testLoadBalancer)" "emits (\<lambda>_. False) (newNetworkClient testLoadBalancer)"
  by (simp_all add: testLoadBalancer_def emits_return)

end
