(* ===== verification/Elb_Deletion.thy ===== *)
theory Elb_Deletion
  imports Elb_Teardown Elb_Fixtures
begin

section \<open>What a deletion may touch\<close>

text \<open>
  The policy of \<open>EnsureLoadBalancerDeleted\<close>: which calls it may make given what the cloud has
  answered so far, proved for any cloud that satisfies the contract of the \<open>wait\<close> package.
\<close>

definition listed_listener :: "serviceSettings \<Rightarrow> string \<Rightarrow> call set \<Rightarrow> ListenerObj \<Rightarrow> bool" where
  "listed_listener settings name S l \<longleftrightarrow>
     (\<exists>b ls. the_balancer settings name S b \<and> LsList (lb_ID b) (Inr (Inr ls)) \<in> S \<and> l \<in> set ls)"

text \<open>A listener the deletion is responsible for: on a shared balancer only an owned one.\<close>

definition target :: "serviceSettings \<Rightarrow> string \<Rightarrow> call set \<Rightarrow> ListenerObj \<Rightarrow> bool" where
  "target settings name S l \<longleftrightarrow> listed_listener settings name S l \<and>
     (LoadBalancerID settings \<noteq> '''' \<longrightarrow> owned name (ls_Name l))"

fun deletion_policy :: "serviceSettings \<Rightarrow> string \<Rightarrow> call set \<Rightarrow> call \<Rightarrow> bool" where
  "deletion_policy settings name S (LbDelete i _) \<longleftrightarrow> LoadBalancerID settings = '''' \<and>
     (\<exists>b. the_balancer settings name S b \<and> lb_ID b = i)"
| "deletion_policy settings name S (EipDelete i _) \<longleftrightarrow> LoadBalancerID settings = '''' \<and>
     EipBandwidth settings > 0 \<and> \<not> EipKeep settings \<and> i \<noteq> '''' \<and>
     (\<exists>b r. the_balancer settings name S b \<and> i \<in> set (map PublicIpID (lb_PublicIps b)) \<and>
        LbDelete (lb_ID b) r \<in> S \<and> gone r)"
| "deletion_policy settings name S e \<longleftrightarrow> teardown (target settings name) name S e"

lemma deletion_teardown: "teardown (target settings name) name S e \<Longrightarrow> deletion_policy settings name S e"
  by (cases e) simp_all

lemma deletion_reads: "read_only e \<Longrightarrow> deletion_policy settings name S e"
  by (simp add: deletion_teardown teardown_reads)

lemma stable_target: "stable (target settings name)"
  unfolding stable_def target_def listed_listener_def by (blast intro: the_balancer_mono)

lemma follows_reads: "emits read_only m \<Longrightarrow> follows (deletion_policy settings name) H m"
  by (erule follows_emits) (rule deletion_reads)

subsection \<open>The whole deletion\<close>

text \<open>Building a client makes no call to the ELB or EIP API (it may authenticate elsewhere).\<close>

definition clients_quiet :: "('k, 'c) LoadBalancer \<Rightarrow> bool" where
  "clients_quiet lb \<longleftrightarrow> emits (\<lambda>_. False) (newClient lb) \<and> emits (\<lambda>_. False) (newNetworkClient lb)"

context wait_contract begin

lemma releaseEips_follows:
  assumes b: "the_balancer settings name H b" and del: "LbDelete (lb_ID b) r \<in> H" "gone r"
    and s: "LoadBalancerID settings = ''''" "EipBandwidth settings > 0" "\<not> EipKeep settings"
    and quiet: "clients_quiet lb"
  shows "follows (deletion_policy settings name) H (releaseEips E lb (lb_PublicIps b))"
proof -
  have one: "follows (deletion_policy settings name) H1 (releaseEip E nk eip)"
    if "H \<subseteq> H1" and "eip \<in> set (lb_PublicIps b)" for H1 nk eip
  proof (cases "PublicIpID eip = ''''")
    case True
    then show ?thesis by (simp add: releaseEip_def follows_return)
  next
    case False
    have "follows (deletion_policy settings name) H1 (eipDelete E nk (PublicIpID eip))"
    proof (rule follows_emits [where A = "\<lambda>e. \<exists>r. e = EipDelete (PublicIpID eip) r"])
      show "emits (\<lambda>e. \<exists>r. e = EipDelete (PublicIpID eip) r) (eipDelete E nk (PublicIpID eip))"
        by (intro emits_rules) blast
      fix S e assume S: "H1 \<subseteq> S" and "\<exists>r. e = EipDelete (PublicIpID eip) r"
      then obtain r' where e: "e = EipDelete (PublicIpID eip) r'" by blast
      have "\<exists>b r. the_balancer settings name S b \<and> PublicIpID eip \<in> set (map PublicIpID (lb_PublicIps b)) \<and>
          LbDelete (lb_ID b) r \<in> S \<and> gone r"
        by (rule exI [of _ b], rule exI [of _ r])
          (use the_balancer_mono [OF b, of S] del that S in auto)
      then show "deletion_policy settings name S e"
        using s False by (simp add: e)
    qed
    then show ?thesis
      using False unfolding releaseEip_def
      by (simp add: follows_ignoreNotFound follows_retry follows_catch follows_fail)
  qed
  show ?thesis
    unfolding releaseEips_def
  proof (simp add: follows_return, intro impI, rule follows_bind)
    show "follows (deletion_policy settings name) H (newNetworkClient lb)"
      using quiet by (simp add: clients_quiet_def follows_quiet)
    show "follows (deletion_policy settings name) H1 (eachG (releaseEip E nk) (lb_PublicIps b))"
      if "H \<subseteq> H1" for nk H1
      by (rule follows_each) (use one that in auto)
  qed
qed

lemma destroyBalancer_follows:
  assumes b: "the_balancer settings name H b" and s: "LoadBalancerID settings = ''''" and quiet: "clients_quiet lb"
  shows "follows (deletion_policy settings name) H (destroyBalancer E lb k settings b)"
proof -
  have del: "follows (deletion_policy settings name) H (sdkCall (loadbalancers_Delete E k (lb_ID b)) (LbDelete (lb_ID b)))"
    by (rule follows_emits [where A = "\<lambda>e. \<exists>r. e = LbDelete (lb_ID b) r"])
      (use s the_balancer_mono [OF b] in \<open>auto intro!: emits_sdkCall exI [of _ b]\<close>)
  have "follows (deletion_policy settings name) H1 (if EipBandwidth settings > 0 \<and> \<not> EipKeep settings
      then releaseEips E lb (lb_PublicIps b) else returnG ())"
    if "H \<subseteq> H1" and "\<exists>r. LbDelete (lb_ID b) r \<in> H1 \<and> gone r" for H1
    using that the_balancer_mono [OF b] s quiet by (auto intro!: follows_return releaseEips_follows)
  then show ?thesis
    unfolding destroyBalancer_def lbDelete_def gone_def
    by (rule follows_known_bind [OF follows_ignoreNotFound [OF follows_retry [OF del]] known_retried_delete])
qed

lemma deleteBalancer_follows:
  assumes b: "the_balancer settings name H b" and quiet: "clients_quiet lb"
  shows "follows (deletion_policy settings name) H (deleteBalancer E lb k settings name b)"
  unfolding deleteBalancer_def Let_def
proof (rule follows_known_bind [OF follows_reads [OF reads(3)] known_listListeners], rule follows_bind)
  fix ls H2 assume H2: "H \<subseteq> H2" and ls: "LsList (lb_ID b) (Inr (Inr ls)) \<in> H2"
  show "follows (deletion_policy settings name) H2 (eachG (\<lambda>listener.
      if LoadBalancerID settings \<noteq> '''' \<and> \<not> HasPrefix (ls_Name listener) (name @ ''_'') then returnG ()
      else deleteListener E k (lb_ID b) name listener) ls)"
  proof (rule follows_each)
    fix l H3 assume l: "l \<in> set ls" and H3: "H2 \<subseteq> H3"
    have "listed_listener settings name H3 l"
      using the_balancer_mono [OF b] H2 H3 ls l unfolding listed_listener_def by blast
    then show "follows (deletion_policy settings name) H3
        (if LoadBalancerID settings \<noteq> '''' \<and> \<not> HasPrefix (ls_Name l) (name @ ''_'') then returnG ()
         else deleteListener E k (lb_ID b) name l)"
      by (auto simp: target_def owned_def intro!: follows_return
          follows_weaken [OF deleteListener_follows [OF stable_target] deletion_teardown])
  qed
  fix H3 assume H3: "H2 \<subseteq> H3"
  show "follows (deletion_policy settings name) H3
      (if LoadBalancerID settings \<noteq> '''' then returnG () else destroyBalancer E lb k settings b)"
    using the_balancer_mono [OF b order_trans [OF H2 H3]] quiet
    by (simp add: follows_return destroyBalancer_follows)
qed

lemma EnsureLoadBalancerDeleted_follows:
  assumes s: "settingsForService (opts lb) service = Inr settings" and quiet: "clients_quiet lb"
  shows "follows (deletion_policy settings (GetLoadBalancerName c service)) H
    (EnsureLoadBalancerDeleted E lb c service)"
  unfolding EnsureLoadBalancerDeleted_def s liftG_simps bindG_return Let_def
proof (rule follows_bind)
  let ?J = "deletion_policy settings (GetLoadBalancerName c service)"
  show "follows ?J H (newClient lb)"
    using quiet by (auto simp: clients_quiet_def intro: follows_quiet)
  fix k H1 assume "H \<subseteq> H1"
  show "follows ?J H1 (bindG (findLoadBalancer E k settings (GetLoadBalancerName c service)) (\<lambda>found. case found of
       None \<Rightarrow> returnG ()
     | Some b \<Rightarrow> deleteBalancer E lb k settings (GetLoadBalancerName c service) b))"
    by (rule follows_known_bind [OF follows_reads [OF reads(1)] known_findLoadBalancer])
      (auto intro: deleteBalancer_follows follows_return quiet split: option.splits)
qed

end

text \<open>
  C5: what a deletion may do, whatever the cloud answers. Every call of
  \<open>EnsureLoadBalancerDeleted\<close> is allowed by \<open>deletion_policy\<close> at the moment it is made: listeners are
  deleted only when the balancer's list showed them, and on a shared balancer (id annotation) only when
  they carry the Service's name; monitors, members and pools only of such a listener; an IP group only
  after its listener is gone and when it carries the name; a balancer only when it is not shared and was
  found by name; an EIP only when the balancer is not shared and gone, the EIP was bound to it, and the
  annotations, as they are now, ask for an EIP by bandwidth and not to keep it. (Which EIPs were created
  with the balancer is not recorded: one bound by other means is released under the same conditions.)
\<close>

theorem deletion_follows_policy:
  assumes "wait_contract E" and "clients_quiet lb"
    and "settingsForService (opts lb) service = Inr settings"
    and "EnsureLoadBalancerDeleted E lb c service w = (r, w')"
  shows "\<exists>es. trace w' = trace w @ es \<and>
    (\<forall>i < length es. deletion_policy settings (GetLoadBalancerName c service)
       (set (trace w) \<union> set (take i es)) (es ! i))"
proof -
  obtain es where "trace w' = trace w @ es"
    "obeys (deletion_policy settings (GetLoadBalancerName c service)) (set (trace w)) es"
    using wait_contract.EnsureLoadBalancerDeleted_follows [OF assms(1,3,2), of c "{}"] assms(4)
    by (rule followsE) simp
  then show ?thesis by (auto intro: obeys_at)
qed

theorem deletion_follows_policy_witness:
  "\<exists>w'. EnsureLoadBalancerDeleted fake_env testLoadBalancer ''c''
        (annotatedService [AnnotationEipBandwidth \<mapsto> ''100''] [port80]) (world_of testState) = (Ok (), w') \<and>
     EipDelete ''eip-1'' (Inr ()) \<in> set (trace w') \<and>
     (\<forall>i < length (trace w'). deletion_policy (plainSettings\<lparr>EipBandwidth := 100\<rparr>)
        (GetLoadBalancerName ''c'' (annotatedService [AnnotationEipBandwidth \<mapsto> ''100''] [port80]))
        (set (take i (trace w'))) (trace w' ! i))"
proof -
  let ?s = "annotatedService [AnnotationEipBandwidth \<mapsto> ''100''] [port80]"
  have "\<exists>w'. EnsureLoadBalancerDeleted fake_env testLoadBalancer ''c'' ?s (world_of testState) = (Ok (), w') \<and>
     EipDelete ''eip-1'' (Inr ()) \<in> set (trace w')"
    by (simp add: run)
  then obtain w' where run: "EnsureLoadBalancerDeleted fake_env testLoadBalancer ''c'' ?s (world_of testState) = (Ok (), w')"
    and eip: "EipDelete ''eip-1'' (Inr ()) \<in> set (trace w')"
    by (elim exE conjE)
  have s: "settingsForService (opts testLoadBalancer) ?s = Inr (plainSettings\<lparr>EipBandwidth := 100\<rparr>)"
    by (simp only: fixture_fields settings_fixtures)
  have q: "clients_quiet testLoadBalancer"
    by (simp add: clients_quiet_def)
  from deletion_follows_policy [OF fake.wait_contract_axioms q s run] run eip
  show ?thesis by (simp add: world_of_def)
qed

end
