(* ===== verification/Otc_Provider.thy ===== *)
theory Otc_Provider
  imports Identity_Sharing Elb_Deletion
begin

section \<open>The cloud provider: \<open>pkg/opentelekomcloud\<close>, its registration and its start\<close>

text \<open>
  How the parts are put together: \<open>NewOTC\<close> reads the configuration, builds the identity provider and
  hands the load balancer a getter of it; \<open>Initialize\<close> puts the token cache in between; the command's
  \<open>cloudInitializer\<close> refuses to run without a provider.

  The object \<open>CloudProvider\<close> is a pointer whose field \<open>identity\<close> is assigned after the closures of the
  load balancer were built over it. That field, which may be nil, is part of the state
  (\<open>identity\<close>), beside the client cached in the provider and the state of the SDK; the refresh loops
  that were started are listed in \<open>refreshers\<close>. The ELB's environment works on the same state. Log lines
  are left out.
\<close>

record ('s, 'p) cpstate = "('s, 'p) idworld" +
  identity :: "IdentityProvider option"
  refreshers :: "IdentityProvider list"

text \<open>A computation on the state of the cloud, as one of the balancer's world.\<close>

definition onCloud :: "('c, 'a) go \<Rightarrow> ('c world, 'a) go" where
  "onCloud m = (\<lambda>w. case m (cloud w) of (r, c') \<Rightarrow> (r, w\<lparr>cloud := c'\<rparr>))"

subsection \<open>\<open>NewLoadBalancer\<close>\<close>

text \<open>Calling a method of a nil interface value panics.\<close>

definition serviceClientFor ::
  "('s, 'p, 'k) iam \<Rightarrow> (('s, 'p, 'z) idworld_scheme \<Rightarrow> IdentityProvider option) \<Rightarrow> string \<Rightarrow> string \<Rightarrow>
   (('s, 'p, 'z) idworld_scheme world, 'k) go" where
  "serviceClientFor I getIdentity service fmt =
     onCloud (bindG (bindG (getG getIdentity) derefG) (\<lambda>i.
       wrapG fmt [] (GetServiceClient I i service (ProviderRegion i))))"

definition NewLoadBalancer ::
  "('s, 'p, 'k) iam \<Rightarrow> (('s, 'p, 'z) idworld_scheme \<Rightarrow> IdentityProvider option) \<Rightarrow> LoadBalancerOpts \<Rightarrow>
   ('k, ('s, 'p, 'z) idworld_scheme) LoadBalancer" where
  "NewLoadBalancer I getIdentity opts1 =
     \<lparr>opts = opts1,
      newClient = serviceClientFor I getIdentity ServiceELBv3 ''failed to create ELBv3 client: %w'',
      newNetworkClient = serviceClientFor I getIdentity ServiceNetworkV1 ''failed to create network client: %w''\<rparr>"

subsection \<open>\<open>CloudProvider\<close>\<close>

record ('s, 'p, 'k) CloudProvider =
  cp_config :: CloudConfig
  cp_lb :: "('k, ('s, 'p) cpstate) LoadBalancer"

definition ProviderName :: string where "ProviderName = ''opentelekomcloud''"

definition NewOTC ::
  "('s, 'p, 'k) iam \<Rightarrow> (CloudConfig \<Rightarrow> 'r \<Rightarrow> err option \<times> CloudConfig) \<Rightarrow> (err option \<Rightarrow> err option) \<Rightarrow>
   (string \<Rightarrow> string) \<Rightarrow> 'r option \<Rightarrow> (('s, 'p) cpstate, ('s, 'p, 'k) CloudProvider) go" where
  "NewOTC I readInto fatalOnly getenv cfg =
     bindG (liftG (ReadConfig readInto fatalOnly getenv cfg)) (\<lambda>cc.
     bindG (liftG (NewIdentityProvider (Global cc))) (\<lambda>idProvider.
     bindG (modifyG (\<lambda>w. w\<lparr>identity := Some idProvider, cached := None\<rparr>)) (\<lambda>_.
     returnG \<lparr>cp_config = cc, cp_lb = NewLoadBalancer I identity (CloudConfig.LoadBalancer cc)\<rparr>)))"

text \<open>\<open>WithTokenCache\<close> starts the loop of a wrapper it makes.\<close>

definition Initialize :: "(('s, 'p) cpstate, unit) go" where
  "Initialize =
     bindG (bindG (getG identity) derefG) (\<lambda>i.
     modifyG (\<lambda>w. case WithTokenCache i None of (wrapped, loop) \<Rightarrow>
       w\<lparr>identity := Some wrapped,
         refreshers := refreshers w @ (case loop of None \<Rightarrow> [] | Some l \<Rightarrow> [l])\<rparr>))"

text \<open>The methods of \<open>cloudprovider.Interface\<close>; an interface that is not implemented is nil and \<open>false\<close>.\<close>

definition cp_LoadBalancer :: "('s, 'p, 'k) CloudProvider \<Rightarrow> ('k, ('s, 'p) cpstate) LoadBalancer \<times> bool" where
  "cp_LoadBalancer cp = (cp_lb cp, True)"

definition cp_Instances :: "('s, 'p, 'k) CloudProvider \<Rightarrow> unit option \<times> bool" where
  "cp_Instances cp = (None, False)"

definition cp_InstancesV2 :: "('s, 'p, 'k) CloudProvider \<Rightarrow> unit option \<times> bool" where
  "cp_InstancesV2 cp = (None, False)"

definition cp_Zones :: "('s, 'p, 'k) CloudProvider \<Rightarrow> unit option \<times> bool" where
  "cp_Zones cp = (None, False)"

definition cp_Clusters :: "('s, 'p, 'k) CloudProvider \<Rightarrow> unit option \<times> bool" where
  "cp_Clusters cp = (None, False)"

definition cp_Routes :: "('s, 'p, 'k) CloudProvider \<Rightarrow> unit option \<times> bool" where
  "cp_Routes cp = (None, False)"

definition cp_ProviderName :: "('s, 'p, 'k) CloudProvider \<Rightarrow> string" where
  "cp_ProviderName cp = ProviderName"

definition HasClusterID :: "('s, 'p, 'k) CloudProvider \<Rightarrow> bool" where
  "HasClusterID cp = True"

subsection \<open>Registration and start-up\<close>

text \<open>
  \<open>init\<close> registers one factory; a failed \<open>NewOTC\<close> becomes a nil interface and the error. The registry
  and \<open>InitCloudProvider\<close>, which looks a factory up and opens the file, belong to Kubernetes: the
  latter is a parameter of \<open>cloudInitializer\<close>. \<open>klog.Fatalf\<close> ends the process; \<open>fatalG\<close> is its model,
  a result no error check catches.
\<close>

definition registered ::
  "('s, 'p, 'k) iam \<Rightarrow> (CloudConfig \<Rightarrow> 'r \<Rightarrow> err option \<times> CloudConfig) \<Rightarrow> (err option \<Rightarrow> err option) \<Rightarrow>
   (string \<Rightarrow> string) \<Rightarrow> string \<times> ('r option \<Rightarrow> (('s, 'p) cpstate, ('s, 'p, 'k) CloudProvider option) go)" where
  "registered I readInto fatalOnly getenv =
     (ProviderName, \<lambda>cfg. bindG (NewOTC I readInto fatalOnly getenv cfg) (\<lambda>otc. returnG (Some otc)))"

definition fatalG :: "string \<Rightarrow> ('w, 'a) go" where
  "fatalG msg = panicG msg"

definition cloudInitializer ::
  "(string \<Rightarrow> string \<Rightarrow> ('w, 'i option) go) \<Rightarrow> ('i \<Rightarrow> bool) \<Rightarrow> bool \<Rightarrow> string \<Rightarrow> string \<Rightarrow> ('w, 'i) go" where
  "cloudInitializer initCloudProvider hasClusterID allowUntagged name file =
     bindG (catchG (initCloudProvider name file)
       (\<lambda>e. fatalG ''Cloud provider could not be initialized'')) (\<lambda>r.
     case r of None \<Rightarrow> fatalG ''Cloud provider is nil''
     | Some provider \<Rightarrow>
         if \<not> hasClusterID provider \<and> \<not> allowUntagged
         then fatalG ''no ClusterID found'' else returnG provider)"

text \<open>
  The options and the command are Kubernetes': \<open>newOptions\<close> stands for \<open>NewCloudControllerManagerOptions\<close>,
  \<open>execute\<close> for the command built from the options and the initializer, and its run. \<open>os.Exit(1)\<close> ends the
  process as \<open>Fatalf\<close> does.
\<close>

definition main :: "('w, 'o) go \<Rightarrow> ('o \<Rightarrow> 'i \<Rightarrow> ('w, unit) go) \<Rightarrow> 'i \<Rightarrow> ('w, unit) go" where
  "main newOptions execute initializer =
     bindG (catchG newOptions (\<lambda>e. fatalG ''unable to initialize command options'')) (\<lambda>ccmOptions.
     catchG (execute ccmOptions initializer) (\<lambda>e. fatalG ''exit status 1''))"

lemma main_exit:
  "main newOptions execute initializer w = (r, w') \<Longrightarrow> (\<exists>s. r = Panicked s) \<or>
     (r = Ok () \<and> (\<exists>o' w1. newOptions w = (Ok o', w1) \<and> execute o' initializer w1 = (Ok (), w')))"
  by (auto simp: main_def bindG_def catchG_def fatalG_def panicG_def split: prod.splits res.splits)


subsection \<open>How the state moves\<close>

lemma NewOTC_eq:
  "NewOTC I readInto fatalOnly getenv cfg w =
     (case ReadConfig readInto fatalOnly getenv cfg of
        Inl e \<Rightarrow> (Fail e, w)
      | Inr cc \<Rightarrow>
          (Ok \<lparr>cp_config = cc, cp_lb = NewLoadBalancer I identity (CloudConfig.LoadBalancer cc)\<rparr>,
           w\<lparr>identity := Some (if has_aksk (Global cc) then AkskProvider (Global cc) else PasswordProvider (Global cc)),
             cached := None\<rparr>))"
proof (cases "ReadConfig readInto fatalOnly getenv cfg")
  case (Inr cc)
  then have "validate (Global cc) = Inr ()" by (rule ReadConfig_InrE)
  then show ?thesis
    by (simp add: NewOTC_def Inr NewIdentityProvider_validated run bindG_def)
qed (simp add: NewOTC_def run)

lemma Initialize_eq:
  "identity w = Some i \<Longrightarrow> Initialize w = (Ok (),
     w\<lparr>identity := Some (fst (WithTokenCache i None)),
       refreshers := refreshers w @ (case snd (WithTokenCache i None) of None \<Rightarrow> [] | Some l \<Rightarrow> [l])\<rparr>)"
  by (simp add: Initialize_def bindG_def returnG_def split: prod.split)

lemma GetServiceClient_fst_WithTokenCache:
  "GetServiceClient I (fst (WithTokenCache i d)) = GetServiceClient I i"
  "ProviderRegion (fst (WithTokenCache i d)) = ProviderRegion i"
  by (simp_all add: WithTokenCache_def Let_def fun_eq_iff)

lemma Initialize_spec:
  assumes "identity w = Some i"
  obtains q w' where "Initialize w = (Ok (), w')" and "identity w' = Some q"
    and "AuthMethod q = AuthMethod i" and "ProviderRegion q = ProviderRegion i"
    and "refreshers w' = refreshers w @ (if AuthMethod q = AuthMethodPassword then [q] else [])"
    and "cached w' = cached w" and "iam_state w' = iam_state w"
proof
  let ?q = "fst (WithTokenCache i None)"
  show "AuthMethod ?q = AuthMethod i" "ProviderRegion ?q = ProviderRegion i"
    by (simp_all add: WithTokenCache_def Let_def)
  show "Initialize w = (Ok (), w\<lparr>identity := Some ?q,
      refreshers := refreshers w @ (if AuthMethod ?q = AuthMethodPassword then [?q] else [])\<rparr>)"
    using AuthMethod_cases [of i]
    by (auto simp: Initialize_eq [OF assms] WithTokenCache_def Let_def AuthMethodAKSK_def AuthMethodPassword_def)
qed simp_all

text \<open>Authenticating does not change who is asked.\<close>

lemma onIam_identity: "onIam m w = (r, w') \<Longrightarrow> identity w' = identity w"
  by (auto simp: onIam_def split: prod.splits)

lemma GetProvider_identity:
  assumes "GetProvider I i w = (r, w')"
  shows "identity w' = identity w"
proof (cases "cached w")
  case (Some p)
  then show ?thesis using assms by (simp add: gp.hit)
next
  case None
  then show ?thesis
    using assms onIam_identity [of "authenticate I i" w]
    by (auto simp: GetProvider_cachedClient cachedClient_miss split: prod.splits res.splits)
qed

lemma onCloud_quiet: "emits (\<lambda>_. False) (onCloud m)"
  by (auto simp: emits_def onCloud_def intro!: producesI split: prod.splits)

lemma NewLoadBalancer_quiet: "clients_quiet (NewLoadBalancer I getIdentity o1)"
  by (simp add: clients_quiet_def NewLoadBalancer_def serviceClientFor_def onCloud_quiet)

lemma serviceClientFor_eq:
  "getIdentity (cloud w) = Some i \<Longrightarrow> serviceClientFor I getIdentity service fmt w =
     onCloud (wrapG fmt [] (GetServiceClient I i service (ProviderRegion i))) w"
  by (simp add: serviceClientFor_def onCloud_def bindG_def returnG_def)

lemma onCloud_OkE:
  assumes "onCloud m w = (Ok x, w')"
  obtains c' where "m (cloud w) = (Ok x, c')" and "w' = w\<lparr>cloud := c'\<rparr>"
  using assms by (auto simp: onCloud_def split: prod.splits)

subsection \<open>Properties\<close>

text \<open>
  C26: the provider starts exactly when its configuration is usable. \<open>NewOTC\<close> fails with the error of
  \<open>ReadConfig\<close> and changes nothing, or returns a provider with that configuration, whose load balancer
  has the configured options; \<open>Initialize\<close> then cannot fail, leaves the method and the region of the
  identity as configured, starts one refresh loop for password authentication and none for AK/SK, and
  nothing has talked to the cloud yet.
\<close>

theorem NewOTC_starts:
  "case ReadConfig readInto fatalOnly getenv cfg of
     Inl e \<Rightarrow> NewOTC I readInto fatalOnly getenv cfg w = (Fail e, w)
   | Inr cc \<Rightarrow> \<exists>cp w1 w2 q.
       NewOTC I readInto fatalOnly getenv cfg w = (Ok cp, w1) \<and> Initialize w1 = (Ok (), w2) \<and>
       cp_config cp = cc \<and> opts (cp_lb cp) = CloudConfig.LoadBalancer cc \<and>
       identity w2 = Some q \<and> AuthMethod q = AuthOpts_AuthMethod (Global cc) \<and>
       ProviderRegion q = Region (Global cc) \<and>
       refreshers w2 = refreshers w @ (if AuthMethod q = AuthMethodPassword then [q] else []) \<and>
       cached w2 = None \<and> iam_state w2 = iam_state w"
proof (cases "ReadConfig readInto fatalOnly getenv cfg")
  case (Inr cc)
  have valid: "validate (Global cc) = Inr ()" using Inr by (rule ReadConfig_InrE)
  let ?p = "if has_aksk (Global cc) then AkskProvider (Global cc) else PasswordProvider (Global cc)"
  have p: "AuthMethod ?p = AuthOpts_AuthMethod (Global cc)" "ProviderRegion ?p = Region (Global cc)"
    using NewIdentityProvider_AuthMethod [OF NewIdentityProvider_validated [OF valid]] by simp_all
  obtain cp w1 where cp: "NewOTC I readInto fatalOnly getenv cfg w = (Ok cp, w1)"
    "cp_config cp = cc" "opts (cp_lb cp) = CloudConfig.LoadBalancer cc"
    and w1: "w1 = w\<lparr>identity := Some ?p, cached := None\<rparr>"
    by (simp add: NewOTC_eq Inr NewLoadBalancer_def)
  have "identity w1 = Some ?p" by (simp add: w1)
  then obtain q w2 where "Initialize w1 = (Ok (), w2)" "identity w2 = Some q" "AuthMethod q = AuthMethod ?p"
    "ProviderRegion q = ProviderRegion ?p" "iam_state w2 = iam_state w1" "cached w2 = cached w1"
    "refreshers w2 = refreshers w1 @ (if AuthMethod q = AuthMethodPassword then [q] else [])"
    by (rule Initialize_spec)
  then show ?thesis
    using p cp unfolding Inr sum.case
    by (intro exI [of _ cp] exI [of _ w1] exI [of _ w2] exI [of _ q]) (simp add: w1)
qed (simp add: NewOTC_eq)


text \<open>
  What may happen to the provider's state between two requests for a client: other clients are asked for,
  \<open>Initialize\<close> installs the token cache, a refresh loop handles a tick, or calls of the SDK change its own
  state.
\<close>

inductive provider_use ::
  "('s, 'p, 'k) iam \<Rightarrow> LoadBalancerOpts \<Rightarrow> ('s, 'p) cpstate world \<Rightarrow> ('s, 'p) cpstate world \<Rightarrow> bool" for I o1 where
  elb: "newClient (NewLoadBalancer I identity o1) w = (r, w') \<Longrightarrow> provider_use I o1 w w'"
| network: "newNetworkClient (NewLoadBalancer I identity o1) w = (r, w') \<Longrightarrow> provider_use I o1 w w'"
| install: "Initialize (cloud w) = (Ok (), c) \<Longrightarrow> provider_use I o1 w (w\<lparr>cloud := c\<rparr>)"
| refreshed: "q \<in> set (refreshers (cloud w)) \<Longrightarrow> refreshTick I q (cloud w) = (r, c) \<Longrightarrow>
     provider_use I o1 w (w\<lparr>cloud := c\<rparr>)"
| sdk: "cached (cloud w') = cached (cloud w) \<Longrightarrow> identity (cloud w') = identity (cloud w) \<Longrightarrow> provider_use I o1 w w'"

text \<open>The provider is logged in with the client \<open>p\<close> and answers as \<open>i\<close> does.\<close>

definition logged_in :: "('s, 'p, 'k) iam \<Rightarrow> IdentityProvider \<Rightarrow> 'p \<Rightarrow> ('s, 'p) cpstate world \<Rightarrow> bool" where
  "logged_in I i p w \<longleftrightarrow> cached (cloud w) = Some p \<and> (\<exists>q. identity (cloud w) = Some q \<and> ProviderRegion q = ProviderRegion i \<and>
     (\<forall>service. GetServiceClient I q service (ProviderRegion i) =
        (GetServiceClient I i service (ProviderRegion i) :: (('s, 'p) cpstate, 'k) go)))"

lemma logged_in_client:
  fixes I :: "('s, 'p, 'k) iam" and w :: "('s, 'p) cpstate world"
  assumes "logged_in I i p w"
  shows "serviceClientFor I identity service fmt w =
    onCloud (wrapG fmt [] (onIam (newServiceClient I p service (ProviderRegion i)))) w"
proof -
  obtain q where q: "cached (cloud w) = Some p" "identity (cloud w) = Some q" "ProviderRegion q = ProviderRegion i"
    "GetServiceClient I q service (ProviderRegion i) = (GetServiceClient I i service (ProviderRegion i) :: (('s, 'p) cpstate, 'k) go)"
    using assms unfolding logged_in_def by blast
  have "serviceClientFor I identity service fmt w =
      onCloud (wrapG fmt [] (GetServiceClient I i service (ProviderRegion i))) w"
    by (simp add: serviceClientFor_eq [where i = q] q)
  then show ?thesis
    using gp.hit [OF q(1), of I i] by (simp add: onCloud_def wrapG_def catchG_def GetServiceClient_eq bindG_Ok)
qed

lemma logged_in_client_keeps:
  assumes "logged_in I i p w" and "serviceClientFor I identity service fmt w = (r, w')"
  shows "logged_in I i p w'"
proof -
  obtain x c where x: "onIam (newServiceClient I p service (ProviderRegion i)) (cloud w) = (x, c)" by (cases "onIam (newServiceClient I p service (ProviderRegion i)) (cloud w)")
  then have "w' = w\<lparr>cloud := c\<rparr>"
    using assms(2) unfolding logged_in_client [OF assms(1)] by (auto simp: onCloud_def wrapG_def catchG_def failG_def split: res.splits)
  then show ?thesis
    using assms(1) onIam_cached [OF x] onIam_identity [OF x] by (simp add: logged_in_def)
qed

lemma refreshTick_identity:
  assumes "refreshTick I q w = (r, w')"
  shows "identity w' = identity w"
proof -
  obtain x w1 where g: "GetProvider I (innerProvider q) w = (x, w1)" by (cases "GetProvider I (innerProvider q) w")
  show ?thesis
    using assms GetProvider_identity [OF g]
    by (auto simp: refreshTick_def catchG_def bindG_def getG_def returnG_def onIam_def g
        split: prod.splits res.splits option.splits)
qed

lemma logged_in_stays: "provider_use I o1 w w' \<Longrightarrow> logged_in I i p w \<Longrightarrow> logged_in I i p w'"
proof (induction rule: provider_use.induct)
  case (elb w r w')
  then show ?case using logged_in_client_keeps by (auto simp: NewLoadBalancer_def)
next
  case (network w r w')
  then show ?case using logged_in_client_keeps by (auto simp: NewLoadBalancer_def)
next
  case (install w c)
  then obtain q where q: "identity (cloud w) = Some q" unfolding logged_in_def by blast
  have "cached c = cached (cloud w)" "identity c = Some (fst (WithTokenCache q None))"
    using install.hyps by (auto simp: Initialize_eq [OF q])
  then show ?case using install.prems q by (auto simp: logged_in_def GetServiceClient_fst_WithTokenCache)
next
  case (refreshed q w r c)
  then show ?case
    using refreshTick_result [OF refreshed.hyps(2)] refreshTick_identity [OF refreshed.hyps(2)] by (simp add: logged_in_def)
qed (simp add: logged_in_def)

interpretation provider_login: step_invariant "provider_use I o1" "logged_in I i p" for I :: "('s, 'p, 'k) iam" and o1 i p
  by unfold_locales (rule logged_in_stays)

text \<open>The first client that is got.\<close>

lemma first_client:
  assumes "identity (cloud w) = Some i" and "serviceClientFor I identity service fmt w = (Ok k, w1)"
  shows "\<exists>p c. GetProvider I i (cloud w) = (Ok p, c) \<and>
    onIam (newServiceClient I p service (ProviderRegion i)) c = (Ok k, cloud w1) \<and>
    trace w1 = trace w \<and> logged_in I i p w1"
proof -
  have "onCloud (wrapG fmt [] (GetServiceClient I i service (ProviderRegion i))) w = (Ok k, w1)"
    using assms by (simp add: serviceClientFor_eq)
  then obtain c where c: "GetServiceClient I i service (ProviderRegion i) (cloud w) = (Ok k, c)"
    and w1: "w1 = w\<lparr>cloud := c\<rparr>"
    by (auto elim: onCloud_OkE dest: wrapG_OkE)
  from c [unfolded GetServiceClient_eq] obtain p c1
    where p: "GetProvider I i (cloud w) = (Ok p, c1)"
      and k: "onIam (newServiceClient I p service (ProviderRegion i)) c1 = (Ok k, c)"
    by (rule bindG_OkE)
  have "cached c = Some p" using gp.stored [OF p] onIam_cached [OF k] by simp
  moreover have "identity c = Some i"
    using assms(1) GetProvider_identity [OF p] onIam_identity [OF k] by simp
  ultimately show ?thesis using p k w1 by (auto simp: logged_in_def)
qed

text \<open>
  C27: all clients of a provider share one login. When a client is got, for the ELB or for the network API,
  \<open>GetProvider\<close> returned a provider client \<open>p\<close> (from the cache or by authenticating) and
  the client was built from it. Whatever then happens to the provider (further clients, failed ones too, the
  installation of the token cache by \<open>Initialize\<close>, ticks of the refresh loops, calls of the SDK, in any number
  and order), \<open>p\<close> stays the cached client, and each client of either kind is built from \<open>p\<close> for the
  configured region, without authenticating again. Getting a client makes no call to the ELB or EIP API.
\<close>

theorem clients_share_login:
  assumes "identity (cloud w) = Some i"
    and "service = ServiceELBv3 \<and> newClient (NewLoadBalancer I identity o1) w = (Ok k, w1) \<or>
      service = ServiceNetworkV1 \<and> newNetworkClient (NewLoadBalancer I identity o1) w = (Ok k, w1)"
  shows "\<exists>p c. GetProvider I i (cloud w) = (Ok p, c) \<and>
    onIam (newServiceClient I p service (ProviderRegion i)) c = (Ok k, cloud w1) \<and> trace w1 = trace w \<and>
    (\<forall>w2. (provider_use I o1)\<^sup>*\<^sup>* w1 w2 \<longrightarrow> cached (cloud w2) = Some p \<and>
       newClient (NewLoadBalancer I identity o1) w2 =
         onCloud (wrapG ''failed to create ELBv3 client: %w'' []
           (onIam (newServiceClient I p ServiceELBv3 (ProviderRegion i)))) w2 \<and>
       newNetworkClient (NewLoadBalancer I identity o1) w2 =
         onCloud (wrapG ''failed to create network client: %w'' []
           (onIam (newServiceClient I p ServiceNetworkV1 (ProviderRegion i)))) w2)"
proof -
  obtain fmt where "serviceClientFor I identity service fmt w = (Ok k, w1)"
    using assms(2) by (auto simp: NewLoadBalancer_def)
  from first_client [OF assms(1) this]
  obtain p c where first: "GetProvider I i (cloud w) = (Ok p, c)"
    "onIam (newServiceClient I p service (ProviderRegion i)) c = (Ok k, cloud w1)" "trace w1 = trace w"
    and login: "logged_in I i p w1"
    by (elim exE conjE) (rule that)
  have later: "logged_in I i p w2" if "(provider_use I o1)\<^sup>*\<^sup>* w1 w2" for w2
    using provider_login.kept [OF that login] .
  then have "cached (cloud w2) = Some p" if "(provider_use I o1)\<^sup>*\<^sup>* w1 w2" for w2
    using that by (simp add: logged_in_def)
  then show ?thesis
    using first logged_in_client [OF later] by (intro exI [of _ p] exI [of _ c]) (simp add: NewLoadBalancer_def)
qed


text \<open>A provider with a password whose second login succeeded.\<close>

definition loggedOut :: "(nat, nat) cpstate" where
  "loggedOut = \<lparr>iam_state = 1, cached = None, identity = Some passwordProvider, refreshers = []\<rparr>"

theorem clients_share_login_witness:
  "\<exists>w1 w2. newClient (NewLoadBalancer flakyIam identity DefaultLoadBalancerOpts) (world_of loggedOut) = (Ok 1, w1) \<and>
     Initialize (cloud w1) = (Ok (), w2) \<and> cached w2 = Some 1 \<and>
     newNetworkClient (NewLoadBalancer flakyIam identity DefaultLoadBalancerOpts) (w1\<lparr>cloud := w2\<rparr>) =
       (Ok 1, w1\<lparr>cloud := w2\<rparr>)"
proof -
  let ?lb = "NewLoadBalancer flakyIam identity DefaultLoadBalancerOpts"
  have i: "identity (cloud (world_of loggedOut)) = Some passwordProvider"
    by (simp add: world_of_def loggedOut_def)
  have login: "GetProvider flakyIam passwordProvider loggedOut = (Ok 1, loggedOut\<lparr>iam_state := 2, cached := Some 1\<rparr>)"
    by (simp add: GetProvider_cachedClient cachedClient_miss loggedOut_def onIam_def flaky_authenticate)
  have client: "onIam (newServiceClient flakyIam (Suc 0) ServiceELBv3 r) c = (Ok (Suc 0), c)" for r and c :: "(nat, nat) cpstate"
    by (simp add: newServiceClient_def flakyIam_def onIam_def returnG_def)
  have run: "newClient ?lb (world_of loggedOut) =
      (Ok 1, (world_of loggedOut)\<lparr>cloud := loggedOut\<lparr>iam_state := 2, cached := Some 1\<rparr>\<rparr>)"
    unfolding NewLoadBalancer_def LoadBalancer.simps serviceClientFor_eq [where getIdentity = identity, OF i]
    by (simp add: onCloud_def wrapG_def catchG_def GetServiceClient_eq bindG_def login world_of_def client)
  let ?w1 = "(world_of loggedOut)\<lparr>cloud := loggedOut\<lparr>iam_state := 2, cached := Some 1\<rparr>\<rparr>"
  obtain w2 where w2: "Initialize (cloud ?w1) = (Ok (), w2)"
    by (rule that [OF Initialize_eq [where i = passwordProvider]]) (simp add: loggedOut_def)
  then have "(provider_use flakyIam DefaultLoadBalancerOpts)\<^sup>*\<^sup>* ?w1 (?w1\<lparr>cloud := w2\<rparr>)"
    by (intro r_into_rtranclp install)
  moreover obtain p c where p: "GetProvider flakyIam passwordProvider (cloud (world_of loggedOut)) = (Ok p, c)"
    and later: "\<And>w2. (provider_use flakyIam DefaultLoadBalancerOpts)\<^sup>*\<^sup>* ?w1 w2 \<Longrightarrow> cached (cloud w2) = Some p \<and>
      newNetworkClient ?lb w2 = onCloud (wrapG ''failed to create network client: %w'' []
        (onIam (newServiceClient flakyIam p ServiceNetworkV1 (ProviderRegion passwordProvider)))) w2"
    using clients_share_login [OF i, of ServiceELBv3 flakyIam DefaultLoadBalancerOpts 1 ?w1] run by auto
  moreover have "p = 1" using p by (simp add: login world_of_def)
  ultimately have "cached w2 = Some 1" and net: "newNetworkClient ?lb (?w1\<lparr>cloud := w2\<rparr>) =
      onCloud (wrapG ''failed to create network client: %w'' []
        (onIam (newServiceClient flakyIam 1 ServiceNetworkV1 (ProviderRegion passwordProvider)))) (?w1\<lparr>cloud := w2\<rparr>)"
    using later [of "?w1\<lparr>cloud := w2\<rparr>"] by simp_all
  moreover have "newNetworkClient ?lb (?w1\<lparr>cloud := w2\<rparr>) = (Ok 1, ?w1\<lparr>cloud := w2\<rparr>)"
    unfolding net
    by (simp add: onCloud_def wrapG_def catchG_def onIam_def newServiceClient_def ServiceNetworkV1_def
        ServiceELBv3_def flakyIam_def returnG_def)
  ultimately show ?thesis using run w2 by (intro exI [of _ ?w1] exI [of _ w2] conjI)
qed

text \<open>
  C28: the command starts exactly when the cloud configuration loads. When Kubernetes finds the
  registered factory under the provider's name and hands it the file, \<open>cloudInitializer\<close> returns the
  provider \<open>NewOTC\<close> built, or ends the process when the configuration does not load; the cluster id is
  never a reason to stop, with or without the option for untagged clouds. Without a provider
  it ends the process too.
\<close>

theorem cloudInitializer_starts:
  assumes "registered I readInto fatalOnly getenv = (name, factory)"
    and "\<And>w. init name file w = factory (Some r) w"
    and "\<And>w. init other file w = (Ok None, w)"
  shows "name = ''opentelekomcloud'' \<and>
    cloudInitializer init HasClusterID allow name file w =
      (case NewOTC I readInto fatalOnly getenv (Some r) w of
         (Ok cp, w') \<Rightarrow> (Ok cp, w')
       | (Fail e, w') \<Rightarrow> (Panicked ''Cloud provider could not be initialized'', w)
       | (Panicked s, w') \<Rightarrow> (Panicked s, w')) \<and>
    ((\<exists>cp w'. cloudInitializer init HasClusterID allow name file w = (Ok cp, w')) \<longleftrightarrow>
       (\<exists>cc. ReadConfig readInto fatalOnly getenv (Some r) = Inr cc)) \<and>
    cloudInitializer init HasClusterID allow other file w = (Panicked ''Cloud provider is nil'', w)"
proof -
  have f: "name = ProviderName"
    "factory = (\<lambda>cfg. bindG (NewOTC I readInto fatalOnly getenv cfg) (\<lambda>otc. returnG (Some otc)))"
    using assms(1) by (simp_all add: registered_def)
  have "cloudInitializer init HasClusterID allow other file w = (Panicked ''Cloud provider is nil'', w)"
    using assms(3) [of w] by (simp add: cloudInitializer_def run fatalG_def)
  then show ?thesis
    using assms(2) [of w]
    by (simp add: f ProviderName_def cloudInitializer_def run fatalG_def NewOTC_eq HasClusterID_def split: sum.splits)
qed

text \<open>\<open>InitCloudProvider\<close> with one registered factory, on a file that holds a password.\<close>

definition initFile :: "string \<Rightarrow> string \<Rightarrow> ((nat, nat) cpstate, (nat, nat, nat) CloudProvider option) go" where
  "initFile name file = (if name = ProviderName
     then snd (registered flakyIam passwordFile id envKeys) (Some ()) else returnG None)"

theorem cloudInitializer_starts_witness:
  "\<exists>cp w'. cloudInitializer initFile HasClusterID False ''opentelekomcloud'' ''cloud.conf'' loggedOut = (Ok cp, w')"
proof -
  have reg: "registered flakyIam passwordFile id envKeys =
      (ProviderName, snd (registered flakyIam passwordFile id envKeys))"
    by (simp add: registered_def)
  have one: "initFile ProviderName ''cloud.conf'' w = snd (registered flakyIam passwordFile id envKeys) (Some ()) w" for w
    by (simp add: initFile_def)
  have no: "initFile ''aws'' ''cloud.conf'' w = (Ok None, w)" for w
    by (simp add: initFile_def ProviderName_def)
  have "\<exists>cc. ReadConfig passwordFile id envKeys (Some ()) = Inr cc"
    by (simp add: ReadConfig_def passwordFile_def envKeys_def applyEnvFallbacks_def setIfEmpty_def
        zeroAuthOpts_def validate_def AuthOpts_AuthMethod_def AuthMethodAKSK_def)
  then show ?thesis
    using cloudInitializer_starts [where init = initFile and r = "()" and allow = False and w = loggedOut, OF reg one no]
    unfolding ProviderName_def by blast
qed

end
