(* ===== verification/Elb_Members.thy ===== *)
theory Elb_Members
  imports Elb_Policy Load_Balancer
begin

section \<open>Member synchronisation\<close>

text \<open>
  What the two maps of \<open>reconcileMembers\<close> hold, which member calls it may make, and when it makes
  none.
\<close>

subsection \<open>The maps\<close>

lemma wantedMembers_snoc:
  "wantedMembers p (ns @ [n]) = (case nodeAddress n of Inl _ \<Rightarrow> wantedMembers p ns
     | Inr a \<Rightarrow> AList.update (memberKey a p) n (wantedMembers p ns))"
  by (simp add: wantedMembers_def split: sum.split)

lemma haveMembers_snoc:
  "haveMembers (ms @ [m]) = AList.update (memberKey (mb_Address m) (mb_ProtocolPort m)) (mb_ID m) (haveMembers ms)"
  by (simp add: haveMembers_def)

lemma wantedMembers_Some:
  "map_of (wantedMembers p ns) key = Some n \<Longrightarrow>
   n \<in> set ns \<and> (\<exists>a. nodeAddress n = Inr a \<and> key = memberKey a p)"
  by (induction ns rule: rev_induct)
    (auto simp: wantedMembers_snoc wantedMembers_def [of p "[]"] update_conv split: sum.splits if_splits)

lemma wantedMembers_None:
  "map_of (wantedMembers p ns) key = None \<longleftrightarrow> (\<forall>n \<in> set ns. \<forall>a. nodeAddress n = Inr a \<longrightarrow> key \<noteq> memberKey a p)"
  by (induction ns rule: rev_induct)
    (auto simp: wantedMembers_snoc wantedMembers_def [of p "[]"] update_conv split: sum.splits)

lemma wantedMembers_Nil:
  "wantedMembers p ns = [] \<longleftrightarrow> (\<forall>n \<in> set ns. \<exists>e. nodeAddress n = Inl e)"
proof -
  have "AList.update k v l \<noteq> []" for k v and l :: "(string \<times> Node) list"
    by (cases l) simp_all
  then show ?thesis
    by (induction ns rule: rev_induct)
      (auto simp: wantedMembers_snoc wantedMembers_def [of p "[]"] split: sum.splits)
qed

lemma haveMembers_Some:
  "map_of (haveMembers ms) key = Some i \<Longrightarrow>
   \<exists>m \<in> set ms. key = memberKey (mb_Address m) (mb_ProtocolPort m) \<and> mb_ID m = i"
  by (induction ms rule: rev_induct)
    (auto simp: haveMembers_snoc haveMembers_def [of "[]"] update_conv split: if_splits)

lemma haveMembers_None:
  "map_of (haveMembers ms) key = None \<longleftrightarrow> (\<forall>m \<in> set ms. key \<noteq> memberKey (mb_Address m) (mb_ProtocolPort m))"
  by (induction ms rule: rev_induct) (auto simp: haveMembers_snoc haveMembers_def [of "[]"] update_conv)

lemma distinct_wanted: "distinct (map fst (wantedMembers p ns))"
  by (induction ns rule: rev_induct)
    (auto simp: wantedMembers_snoc wantedMembers_def [of p "[]"] intro: distinct_update split: sum.splits)

lemma distinct_have: "distinct (map fst (haveMembers ms))"
  by (induction ms rule: rev_induct) (auto simp: haveMembers_snoc haveMembers_def [of "[]"] intro: distinct_update)

subsection \<open>The policy\<close>

text \<open>
  Members are added only for a node that has a usable address and no member yet in the pool's list,
  with the Service's node port; a listed member is deleted only when no node wants it.
\<close>

definition serves :: "int \<Rightarrow> Node list \<Rightarrow> string \<Rightarrow> int \<Rightarrow> bool" where
  "serves nodePort nodes addr p \<longleftrightarrow> p = nodePort \<and> (\<exists>n \<in> set nodes. nodeAddress n = Inr addr)"

fun members_policy :: "string \<Rightarrow> int \<Rightarrow> Node list \<Rightarrow> call set \<Rightarrow> call \<Rightarrow> bool" where
  "members_policy poolID nodePort nodes S (MbCreate j o1 _) \<longleftrightarrow> j = poolID \<and>
     serves nodePort nodes (mc_Address o1) (mc_ProtocolPort o1) \<and>
     (\<exists>ms. MbList j (Inr (Inr ms)) \<in> S \<and>
        (\<forall>m \<in> set ms. \<not> (mb_Address m = mc_Address o1 \<and> mb_ProtocolPort m = mc_ProtocolPort o1)))"
| "members_policy poolID nodePort nodes S (MbDelete j i _) \<longleftrightarrow> j = poolID \<and>
     (\<exists>ms. MbList j (Inr (Inr ms)) \<in> S \<and>
        (\<exists>m \<in> set ms. mb_ID m = i \<and> \<not> serves nodePort nodes (mb_Address m) (mb_ProtocolPort m)))"
| "members_policy poolID nodePort nodes S e \<longleftrightarrow> read_only e"

lemma members_reads: "read_only e \<Longrightarrow> members_policy poolID nodePort nodes S e"
  by (cases e) simp_all

context wait_contract begin

lemma addMember_follows:
  assumes ms: "MbList poolID (Inr (Inr ms)) \<in> H"
  shows "follows (members_policy poolID p nodes) H
    (addMember E k b poolID p (wantedMembers p nodes) (haveMembers ms) key)"
proof (cases "map_of (haveMembers ms) key")
  case (Some i)
  then show ?thesis by (simp add: addMember_def follows_return)
next
  case None
  show ?thesis
  proof (cases "map_of (wantedMembers p nodes) key")
    case (Some n)
    obtain a where a: "n \<in> set nodes" "nodeAddress n = Inr a" "key = memberKey a p"
      using wantedMembers_Some [OF Some] by blast
    have new: "\<forall>m \<in> set ms. \<not> (mb_Address m = a \<and> mb_ProtocolPort m = p)"
      using None a(3) by (auto simp: haveMembers_None)
    have "follows (members_policy poolID p nodes) H
      (bindG (mbCreate E k poolID \<lparr>mc_Address = a, mc_ProtocolPort = p,
         mc_Name = cutString (NodeName n) maxResourceNameLength, mc_SubnetID = lb_VipSubnetCidrID b\<rparr>) (\<lambda>_. returnG ()))"
    proof (rule follows_emits [where A = "\<lambda>e. \<exists>o1 r. e = MbCreate poolID o1 r \<and> mc_Address o1 = a \<and> mc_ProtocolPort o1 = p"])
      show "emits (\<lambda>e. \<exists>o1 r. e = MbCreate poolID o1 r \<and> mc_Address o1 = a \<and> mc_ProtocolPort o1 = p)
          (bindG (mbCreate E k poolID \<lparr>mc_Address = a, mc_ProtocolPort = p,
         mc_Name = cutString (NodeName n) maxResourceNameLength, mc_SubnetID = lb_VipSubnetCidrID b\<rparr>) (\<lambda>_. returnG ()))"
        by (intro emits_rules) simp
      fix S e assume "H \<subseteq> S" and "\<exists>o1 r. e = MbCreate poolID o1 r \<and> mc_Address o1 = a \<and> mc_ProtocolPort o1 = p"
      then obtain o1 r where "H \<subseteq> S" and e: "e = MbCreate poolID o1 r" "mc_Address o1 = a" "mc_ProtocolPort o1 = p"
        by blast
      then have "MbList poolID (Inr (Inr ms)) \<in> S" using ms by blast
      moreover have "serves p nodes a p" using a(1,2) by (auto simp: serves_def)
      ultimately show "members_policy poolID p nodes S e"
        using new e by auto
    qed
    then show ?thesis
      using None Some a(2) by (simp add: addMember_def follows_wrap follows_mutate members_reads)
  qed (use None in \<open>simp add: addMember_def follows_return\<close>)
qed

lemma removeMember_follows:
  assumes ms: "MbList poolID (Inr (Inr ms)) \<in> H"
  shows "follows (members_policy poolID p nodes) H
    (removeMember E k b poolID (wantedMembers p nodes) (haveMembers ms) key)"
proof (cases "map_of (wantedMembers p nodes) key")
  case (Some n)
  then show ?thesis by (simp add: removeMember_def follows_return)
next
  case None
  show ?thesis
  proof (cases "map_of (haveMembers ms) key")
    case (Some i)
    obtain m where m: "m \<in> set ms" "key = memberKey (mb_Address m) (mb_ProtocolPort m)" "mb_ID m = i"
      using haveMembers_Some [OF Some] by blast
    have unwanted: "\<not> serves p nodes (mb_Address m) (mb_ProtocolPort m)"
      using None m(2) by (auto simp: wantedMembers_None serves_def)
    have "follows (members_policy poolID p nodes) H (mbDelete E k poolID i)"
    proof (rule follows_emits [where A = "\<lambda>e. \<exists>r. e = MbDelete poolID i r"])
      show "emits (\<lambda>e. \<exists>r. e = MbDelete poolID i r) (mbDelete E k poolID i)"
        by (intro emits_rules) simp
      fix S e assume S: "H \<subseteq> S" and "\<exists>r. e = MbDelete poolID i r"
      then obtain r where e: "e = MbDelete poolID i r" by blast
      show "members_policy poolID p nodes S e"
        using unwanted m(1,3) S ms unfolding e members_policy.simps by blast
    qed
    then show ?thesis
      using None Some by (simp add: removeMember_def follows_ignoreNotFound follows_mutate members_reads)
  qed (use None in \<open>simp add: removeMember_def follows_return\<close>)
qed

lemma reconcileMembers_follows:
  "follows (members_policy poolID p nodes) H (reconcileMembers E k b poolID p nodes)"
proof -
  have get: "follows J H1 (getG f)" for J H1 and f :: "'c world \<Rightarrow> string list"
    by (rule follows_quiet) (rule emits_rules)
  have body: "follows (members_policy poolID p nodes) H1
      (if wantedMembers p nodes = [] then failG (Errorf ''no usable node addresses for pool %s'' [poolID])
       else bindG (getG (\<lambda>w. rangeOrder w (map fst (wantedMembers p nodes)))) (\<lambda>keys.
         bindG (eachG (addMember E k b poolID p (wantedMembers p nodes) (haveMembers ms)) keys) (\<lambda>_.
         bindG (getG (\<lambda>w. rangeOrder w (map fst (haveMembers ms)))) (\<lambda>keys'.
         eachG (removeMember E k b poolID (wantedMembers p nodes) (haveMembers ms)) keys'))))"
    if "MbList poolID (Inr (Inr ms)) \<in> H1" for ms H1
    using that
    by (auto intro!: follows_fail follows_bind get follows_each addMember_follows removeMember_follows)
  show ?thesis
    unfolding reconcileMembers_def Let_def
    using body
    by (auto intro!: follows_fail follows_known_bind [OF follows_emits [OF reads(4)] known_listMembers]
        intro: members_reads)
qed

end

end
