(* ===== verification/Elb_Member_Store.thy ===== *)
theory Elb_Member_Store
  imports Elb_Members
begin

section \<open>Member synchronisation against a store\<close>

text \<open>
  The documented behaviour of the members API as a locale, and what \<open>reconcileMembers\<close> achieves
  under it: \<open>member_store\<close> says what a successful or failed call does to the members of a pool,
  \<open>live_store\<close> adds that calls succeed and the balancer is active. \<open>store c j\<close> is the set of members of
  pool \<open>j\<close> in the cloud \<open>c\<close>, \<open>ok\<close> an invariant of the cloud.
\<close>

lemma bindG_getG: "bindG (getG f) g w = g (f w) w"
  by (simp add: bindG_def)

lemma bindG_unitE:
  assumes "bindG m (\<lambda>_ :: unit. f) w = (Ok y, w')"
  obtains w1 where "m w = (Ok (), w1)" and "f w1 = (Ok y, w')"
  using assms by (auto elim: bindG_OkE)

text \<open>Retrying keeps what failing attempts keep, and ends in a successful attempt.\<close>

lemma attempts_until:
  assumes "attempts n e cond w = (Ok (), w')" and "I w"
    and "\<And>w r w'. I w \<Longrightarrow> cond w = (r, w') \<Longrightarrow> r \<noteq> Ok True \<Longrightarrow> I w'"
  shows "\<exists>w1. I w1 \<and> cond w1 = (Ok True, w')"
  using assms(1,2)
proof (induction n arbitrary: w)
  case (Suc n)
  obtain ok w1 where c: "cond w = (Ok ok, w1)" and rest: "(if ok then returnG () else attempts n e cond) w1 = (Ok (), w')"
    using Suc.prems(1) by (auto elim: bindG_OkE)
  show ?case
  proof (cases ok)
    case True
    then show ?thesis using c rest Suc.prems(2) by auto
  next
    case False
    then have "I w1" using assms(3) [OF Suc.prems(2) c] by simp
    then show ?thesis using Suc.IH rest False by simp
  qed
qed simp

lemma attempts_until_fail:
  assumes "attempts n e cond w = (Fail e', w')" and "I w"
    and "\<And>w r w'. I w \<Longrightarrow> cond w = (r, w') \<Longrightarrow> r \<noteq> Ok True \<Longrightarrow> I w'"
  shows "e' = e \<or> (\<exists>w1. I w1 \<and> cond w1 = (Fail e', w'))"
  using assms(1,2)
proof (induction n arbitrary: w)
  case (Suc n)
  from Suc.prems(1) [unfolded attempts.simps] show ?case
  proof (cases rule: bindG_cases)
    case (ok b w1)
    then show ?thesis
      using Suc.IH [of w1] assms(3) [OF Suc.prems(2) ok(1)] by (auto split: if_splits)
  qed (use Suc.prems in auto)
qed simp

lemma retryCond_result:
  "retryCond fn w = (Ok True, w') \<longleftrightarrow> fn w = (Ok (), w')"
  "retryCond fn w = (Fail e, w') \<longleftrightarrow> fn w = (Fail e, w') \<and> \<not> isConflict e"
  "retryCond fn w = (r, w') \<Longrightarrow> r \<noteq> Ok True \<Longrightarrow> (\<exists>e. fn w = (Fail e, w')) \<or> (\<exists>s. fn w = (Panicked s, w'))"
  by (cases "fn w"; cases "fst (fn w)";
      auto simp: retryCond_def catchG_def bindG_def returnG_def failG_def split: if_splits)+

context wait_contract begin

lemma retry_until:
  assumes "retryOnConflict E i fn w = (Ok (), w')" and "I w"
    and "\<And>w r w'. I w \<Longrightarrow> fn w = (r, w') \<Longrightarrow> r \<noteq> Ok () \<Longrightarrow> I w'"
  shows "\<exists>w1. I w1 \<and> fn w1 = (Ok (), w')"
proof -
  obtain n e where run: "attempts n e (retryCond fn) w = (Ok (), w')" using assms(1) by (rule retryE)
  have "\<exists>w1. I w1 \<and> retryCond fn w1 = (Ok True, w')"
    using run assms(2)
  proof (rule attempts_until)
    fix w r w' assume "I w" and c: "retryCond fn w = (r, w')" and "r \<noteq> Ok True"
    from retryCond_result(3) [OF c this(3)] show "I w'"
      by (elim disjE exE) (use \<open>I w\<close> assms(3) in \<open>auto\<close>)
  qed
  then show ?thesis by (simp add: retryCond_result(1))
qed

lemma retry_until_fail:
  assumes "retryOnConflict E i fn w = (Fail e, w')" and "\<not> gaveUp e" and "I w"
    and "\<And>w r w'. I w \<Longrightarrow> fn w = (r, w') \<Longrightarrow> r \<noteq> Ok () \<Longrightarrow> I w'"
  shows "\<exists>w1. I w1 \<and> fn w1 = (Fail e, w')"
proof -
  obtain n e' where g: "gaveUp e'" and run: "attempts n e' (retryCond fn) w = (Fail e, w')"
    using assms(1) by (rule retryE)
  have "e = e' \<or> (\<exists>w1. I w1 \<and> retryCond fn w1 = (Fail e, w'))"
    using run assms(3)
  proof (rule attempts_until_fail)
    fix w r w' assume "I w" and c: "retryCond fn w = (r, w')" and "r \<noteq> Ok True"
    from retryCond_result(3) [OF c this(3)] show "I w'"
      by (elim disjE exE) (use \<open>I w\<close> assms(4) in \<open>auto\<close>)
  qed
  then show ?thesis using g assms(2) by (auto simp: retryCond_result(2))
qed

lemma active_keeps:
  assumes "waitForActive E k i w = (r, w')" and "I (cloud w)"
    and "\<And>c r c'. I c \<Longrightarrow> loadbalancers_Get E k i c = (r, c') \<Longrightarrow> I c'"
  shows "I (cloud w')"
proof -
  obtain n e where run: "attempts n e (activeCond E k i) w = (r, w')" using assms(1) by (rule activeE)
  have step: "I (cloud u')" if "I (cloud u)" and "activeCond E k i u = (x, u')" for u x u'
    using that assms(3)
    by (auto simp: activeCond_def lbGet_def sdkCall_def bindG_def split: prod.splits res.splits if_splits sum.splits)
  show ?thesis
    by (rule attempts_invariant [where I = "\<lambda>w. I (cloud w)", OF step assms(2) run])
qed

end

subsection \<open>The interface\<close>

definition endpoint :: "MemberObj \<Rightarrow> string \<times> int" where
  "endpoint m = (mb_Address m, mb_ProtocolPort m)"

text \<open>\<open>N\<close> are the members that adding for the keys \<open>K\<close> to the members \<open>S\<close> brings: one with a new id
  for every wanted endpoint among the keys that was not listed.\<close>

definition added :: "int \<Rightarrow> Node list \<Rightarrow> MemberObj list \<Rightarrow> string set \<Rightarrow> MemberObj set \<Rightarrow> MemberObj set \<Rightarrow> bool" where
  "added p nodes ms K S N \<longleftrightarrow> inj_on mb_ID N \<and> inj_on endpoint N \<and> mb_ID ` N \<inter> mb_ID ` S = {} \<and>
     endpoint ` N = {(a, p) |a. serves p nodes a p \<and> memberKey a p \<in> K \<and>
       map_of (haveMembers ms) (memberKey a p) = None}"

lemma added_none: "map_of (haveMembers ms) key = None \<Longrightarrow> map_of (wantedMembers p nodes) key = None \<Longrightarrow>
    added p nodes ms {key} S {}"
  by (auto simp: added_def wantedMembers_None serves_def)

lemma added_known: "map_of (haveMembers ms) key = Some i \<Longrightarrow> added p nodes ms {key} S {}"
  by (auto simp: added_def)

lemma added_Un:
  assumes "added p nodes ms K S N" and "added p nodes ms K' (S \<union> N) N'" and "K \<inter> K' = {}"
  shows "added p nodes ms (K \<union> K') S (N \<union> N')"
proof -
  let ?E = "\<lambda>K. {(a, p) |a. serves p nodes a p \<and> memberKey a p \<in> K \<and>
       map_of (haveMembers ms) (memberKey a p) = None}"
  have e: "endpoint ` N = ?E K" "endpoint ` N' = ?E K'"
    using assms(1,2) by (simp_all only: added_def)
  have i: "mb_ID ` N \<inter> mb_ID ` S = {}" "mb_ID ` N' \<inter> mb_ID ` (S \<union> N) = {}"
    using assms(1,2) by (simp_all only: added_def)
  have inj: "inj_on endpoint N" "inj_on endpoint N'" "inj_on mb_ID N" "inj_on mb_ID N'"
    using assms(1,2) by (simp_all only: added_def)
  have "endpoint ` N \<inter> endpoint ` N' = {}"
    unfolding e using assms(3) by auto
  then have "inj_on endpoint (N \<union> N')" using inj by (auto simp: inj_on_Un)
  moreover have "inj_on mb_ID (N \<union> N')" using inj i(2) by (auto simp: inj_on_Un)
  moreover have "mb_ID ` (N \<union> N') \<inter> mb_ID ` S = {}" using i by auto
  moreover have "endpoint ` (N \<union> N') = ?E (K \<union> K')" unfolding image_Un e by auto
  ultimately show ?thesis by (simp only: added_def)
qed

text \<open>The final set of members: the listed ones that are wanted and the added ones.\<close>

lemma member_sets:
  assumes N: "added p nodes ms (fst ` set (wantedMembers p nodes)) (set ms) N"
    and inj: "inj_on mb_ID (set ms)" "inj_on endpoint (set ms)"
  shows "endpoint ` ({m \<in> set ms. serves p nodes (mb_Address m) (mb_ProtocolPort m)} \<union> N) =
      {(a, p) |a. \<exists>n \<in> set nodes. nodeAddress n = Inr a} \<and>
    inj_on mb_ID ({m \<in> set ms. serves p nodes (mb_Address m) (mb_ProtocolPort m)} \<union> N) \<and>
    inj_on endpoint ({m \<in> set ms. serves p nodes (mb_Address m) (mb_ProtocolPort m)} \<union> N)"
proof -
  let ?L = "{m \<in> set ms. serves p nodes (mb_Address m) (mb_ProtocolPort m)}"
  have wanted: "serves p nodes a p \<longleftrightarrow> memberKey a p \<in> fst ` set (wantedMembers p nodes)" for a
    using wantedMembers_None [of p nodes "memberKey a p"] by (auto simp: serves_def map_of_eq_None_iff)
  have new: "endpoint ` N = {(a, p) |a. serves p nodes a p \<and> (\<forall>m \<in> set ms. endpoint m \<noteq> (a, p))}"
    using N wanted by (auto simp: added_def haveMembers_None endpoint_def)
  have listed: "endpoint ` ?L = {(a, p) |a. serves p nodes a p \<and> (\<exists>m \<in> set ms. endpoint m = (a, p))}"
    by (auto simp: serves_def endpoint_def image_iff)
  have "endpoint ` (?L \<union> N) = {(a, p) |a. serves p nodes a p}"
    unfolding image_Un new listed by auto
  moreover have "inj_on endpoint (?L \<union> N)"
  proof -
    have "inj_on endpoint ?L" using inj(2) by (auto intro: inj_on_subset)
    moreover have "inj_on endpoint N" using N by (simp add: added_def)
    moreover have "endpoint ` ?L \<inter> endpoint ` N = {}" unfolding new by auto
    ultimately show ?thesis by (auto simp: inj_on_Un)
  qed
  moreover have "inj_on mb_ID (?L \<union> N)"
  proof -
    have "inj_on mb_ID ?L" using inj(1) by (auto intro: inj_on_subset)
    moreover have "inj_on mb_ID N" "mb_ID ` N \<inter> mb_ID ` set ms = {}" using N by (simp_all add: added_def)
    ultimately show ?thesis by (auto simp: inj_on_Un)
  qed
  ultimately show ?thesis by (simp add: serves_def)
qed

locale member_store = wait_contract E for E :: "('k, 'c) env" +
  fixes k :: 'k and store :: "'c \<Rightarrow> string \<Rightarrow> MemberObj set" and ok :: "'c \<Rightarrow> bool"
  assumes list_ok: "ok c \<Longrightarrow> members_List E k j c = (Inr (Inr ms), c') \<Longrightarrow> set ms = store c j"
    and list_keeps: "ok c \<Longrightarrow> members_List E k j c = (r, c') \<Longrightarrow> ok c' \<and> store c' = store c"
    and get_keeps: "ok c \<Longrightarrow> loadbalancers_Get E k i c = (r', c') \<Longrightarrow> ok c' \<and> store c' = store c"
    and create_ok: "ok c \<Longrightarrow> members_Create E k j o1 c = (Inr m, c') \<Longrightarrow>
      ok c' \<and> store c' = (store c)(j := insert m (store c j)) \<and>
      endpoint m = (mc_Address o1, mc_ProtocolPort o1) \<and> mb_ID m \<notin> mb_ID ` store c j"
    and create_fails: "ok c \<Longrightarrow> members_Create E k j o1 c = (Inl e, c') \<Longrightarrow> ok c' \<and> store c' = store c"
    and delete_ok: "ok c \<Longrightarrow> members_Delete E k j i c = (x, c') \<Longrightarrow> x = Inr () \<or> (\<exists>e. x = Inl e \<and> isNotFound e) \<Longrightarrow>
      ok c' \<and> store c' = (store c)(j := {m \<in> store c j. mb_ID m \<noteq> i})"
    and delete_fails: "ok c \<Longrightarrow> members_Delete E k j i c = (Inl e, c') \<Longrightarrow> \<not> isNotFound e \<Longrightarrow>
      ok c' \<and> store c' = store c"
begin

text \<open>Deleting twice is deleting once.\<close>

lemma delete_again:
  assumes "f = g \<or> f = g(j := {m \<in> g j. mb_ID m \<noteq> i})"
  shows "f(j := {m \<in> f j. mb_ID m \<noteq> i}) = g(j := {m \<in> g j. mb_ID m \<noteq> i})"
  using assms by (auto simp: fun_eq_iff)

lemma addMember_effect:
  assumes run: "addMember E k b j p (wantedMembers p nodes) (haveMembers ms) key w = (Ok (), w')" and ok: "ok (cloud w)"
  shows "ok (cloud w') \<and> (\<exists>N. store (cloud w') = (store (cloud w))(j := store (cloud w) j \<union> N) \<and>
    added p nodes ms {key} (store (cloud w) j) N)"
proof (cases "map_of (haveMembers ms) key = None \<and> map_of (wantedMembers p nodes) key \<noteq> None")
  case False
  then have "w' = w" using run by (auto simp: addMember_def split: option.splits)
  moreover have "added p nodes ms {key} (store (cloud w) j) {}"
    using False by (cases "map_of (haveMembers ms) key") (auto intro: added_none added_known)
  ultimately show ?thesis using ok by (intro conjI exI [of _ "{}"]) simp_all
next
  case True
  then obtain n where n: "map_of (wantedMembers p nodes) key = Some n" by blast
  obtain a where a: "n \<in> set nodes" "nodeAddress n = Inr a" "key = memberKey a p"
    using wantedMembers_Some [OF n] by blast
  let ?o = "\<lparr>mc_Address = a, mc_ProtocolPort = p, mc_Name = cutString (NodeName n) maxResourceNameLength,
     mc_SubnetID = lb_VipSubnetCidrID b\<rparr>"
  let ?fn = "bindG (mbCreate E k j ?o) (\<lambda>_. returnG ())"
  have "mutate E k (lb_ID b) ?fn w = (Ok (), w')"
    using run True n a(2) by (auto simp: addMember_def dest: wrapG_OkE)
  then obtain w2 where retry: "retryOnConflict E (lb_ID b) ?fn w = (Ok (), w2)"
    and wait: "waitForActive E k (lb_ID b) w2 = (Ok (), w')"
    unfolding mutate_def by (rule bindG_unitE)
  let ?I = "\<lambda>u. ok (cloud u) \<and> store (cloud u) = store (cloud w)"
  have "\<exists>w1. ?I w1 \<and> ?fn w1 = (Ok (), w2)"
    using retry
  proof (rule retry_until)
    show "?I w" using ok by simp
    show "?I u'" if I: "?I u" and step: "?fn u = (r, u')" "r \<noteq> Ok ()" for u r u'
    proof -
      obtain e where "members_Create E k j ?o (cloud u) = (Inl e, cloud u')"
        using step by (auto simp: mbCreate_def sdkCall_def bindG_def split: prod.splits res.splits sum.splits)
      then show ?thesis using I create_fails [of "cloud u" j ?o e "cloud u'"] by simp
    qed
  qed
  then obtain w1 where w1: "ok (cloud w1)" "store (cloud w1) = store (cloud w)" "?fn w1 = (Ok (), w2)"
    by blast
  then obtain m where c: "members_Create E k j ?o (cloud w1) = (Inr m, cloud w2)"
    by (auto simp: mbCreate_def sdkCall_def bindG_def split: prod.splits res.splits sum.splits)
  then have m: "ok (cloud w2)" "store (cloud w2) = (store (cloud w))(j := insert m (store (cloud w) j))"
    "endpoint m = (a, p)" "mb_ID m \<notin> mb_ID ` store (cloud w) j"
    using create_ok [OF w1(1) c] w1(2) by simp_all
  have "ok (cloud w') \<and> store (cloud w') = store (cloud w2)"
    by (rule active_keeps [OF wait, where I = "\<lambda>c. ok c \<and> store c = store (cloud w2)"]) (use m get_keeps in auto)
  moreover have "added p nodes ms {key} (store (cloud w) j) {m}"
    using m a True by (auto simp: added_def serves_def)
  ultimately show ?thesis
    using m by (intro conjI exI [of _ "{m}"]) auto
qed

lemma addMembers_effect:
  assumes "eachG (addMember E k b j p (wantedMembers p nodes) (haveMembers ms)) keys w = (Ok (), w')"
    and "ok (cloud w)" and "distinct keys"
  shows "ok (cloud w') \<and> (\<exists>N. store (cloud w') = (store (cloud w))(j := store (cloud w) j \<union> N) \<and>
    added p nodes ms (set keys) (store (cloud w) j) N)"
  using assms
proof (induction keys arbitrary: w)
  case Nil
  then show ?case by (intro conjI exI [of _ "{}"]) (auto simp: added_def)
next
  case (Cons key keys)
  obtain w1 where one: "addMember E k b j p (wantedMembers p nodes) (haveMembers ms) key w = (Ok (), w1)"
    and rest: "eachG (addMember E k b j p (wantedMembers p nodes) (haveMembers ms)) keys w1 = (Ok (), w')"
    using Cons.prems(1) unfolding eachG.simps by (rule bindG_unitE)
  obtain N where N: "ok (cloud w1)" "store (cloud w1) = (store (cloud w))(j := store (cloud w) j \<union> N)"
    "added p nodes ms {key} (store (cloud w) j) N"
    using addMember_effect [OF one Cons.prems(2)] by blast
  obtain N' where N': "ok (cloud w')" "store (cloud w') = (store (cloud w1))(j := store (cloud w1) j \<union> N')"
    "added p nodes ms (set keys) (store (cloud w1) j) N'"
  proof -
    have "distinct keys" using Cons.prems(3) by simp
    from Cons.IH [OF rest N(1) this] show thesis by (elim conjE exE) (rule that)
  qed
  have "added p nodes ms ({key} \<union> set keys) (store (cloud w) j) (N \<union> N')"
    by (rule added_Un [OF N(3)]) (use N(2) N'(3) Cons.prems(3) in auto)
  then show ?case
    using N N' by (intro conjI exI [of _ "N \<union> N'"]) (auto simp: Un_assoc)
qed

text \<open>One deletion, as often as it is tried: until it succeeds the pool has lost the member or is as before.\<close>

abbreviation without_member :: "string \<Rightarrow> string \<Rightarrow> (string \<Rightarrow> MemberObj set) \<Rightarrow> string \<Rightarrow> MemberObj set" where
  "without_member j i f \<equiv> f(j := {m \<in> f j. mb_ID m \<noteq> i})"

lemma mbDelete_keeps:
  assumes I: "ok (cloud u)" "store (cloud u) = f \<or> store (cloud u) = without_member j i f" and step: "mbDelete E k j i u = (r, u')"
  shows "ok (cloud u') \<and> (store (cloud u') = f \<or> store (cloud u') = without_member j i f)"
proof -
  obtain x c' where x: "members_Delete E k j i (cloud u) = (x, c')" "cloud u' = c'"
    using step by (auto simp: mbDelete_def sdkCall_def split: prod.splits)
  show ?thesis
  proof (cases "x = Inr () \<or> (\<exists>e. x = Inl e \<and> isNotFound e)")
    case True
    then show ?thesis
      using I x delete_ok [of "cloud u" j i x c'] delete_again [of "store (cloud u)" f j i] by simp
  next
    case False
    then obtain e where "x = Inl e" "\<not> isNotFound e" by (cases x) auto
    then show ?thesis using I x delete_fails [of "cloud u" j i e c'] by simp
  qed
qed

lemma mbDelete_deletes:
  assumes I: "ok (cloud u)" "store (cloud u) = f \<or> store (cloud u) = without_member j i f" and step: "mbDelete E k j i u = (r, u')"
    and r: "r = Ok () \<or> (\<exists>e. r = Fail e \<and> isNotFound e)"
  shows "ok (cloud u') \<and> store (cloud u') = without_member j i f"
proof -
  obtain x c' where x: "members_Delete E k j i (cloud u) = (x, c')" "cloud u' = c'"
    and "x = Inr () \<or> (\<exists>e. x = Inl e \<and> isNotFound e)"
    using step r by (auto simp: mbDelete_def sdkCall_def split: prod.splits sum.splits)
  then show ?thesis
    using I delete_ok [of "cloud u" j i x c'] delete_again [of "store (cloud u)" f j i] by simp
qed

lemma removeMember_effect:
  assumes run: "removeMember E k b j wanted present key w = (Ok (), w')" and ok: "ok (cloud w)"
  shows "ok (cloud w') \<and> store (cloud w') = (store (cloud w))(j :=
    {m \<in> store (cloud w) j. \<not> (map_of wanted key = None \<and> map_of present key = Some (mb_ID m))})"
proof (cases "map_of wanted key = None \<and> map_of present key \<noteq> None")
  case False
  then have "w' = w" using run by (auto simp: removeMember_def split: option.splits)
  moreover have "{m \<in> store (cloud w) j. \<not> (map_of wanted key = None \<and> map_of present key = Some (mb_ID m))} = store (cloud w) j"
    using False by auto
  ultimately show ?thesis using ok by simp
next
  case True
  then obtain i where i: "map_of present key = Some i" by blast
  let ?fn = "mbDelete E k j i" and ?f = "store (cloud w)"
  let ?I = "\<lambda>u. ok (cloud u) \<and> (store (cloud u) = ?f \<or> store (cloud u) = without_member j i ?f)"
  let ?D = "\<lambda>u. ok (cloud u) \<and> store (cloud u) = without_member j i ?f"
  have kept: "?I u'" if "?I u" and "?fn u = (r, u')" for u r u'
    by (rule mbDelete_keeps [OF conjunct1 [OF that(1)] conjunct2 [OF that(1)] that(2)])
  have gone: "?D u'" if "?I u" and "?fn u = (r, u')" "r = Ok () \<or> (\<exists>e. r = Fail e \<and> isNotFound e)" for u r u'
    by (rule mbDelete_deletes [OF conjunct1 [OF that(1)] conjunct2 [OF that(1)] that(2,3)])
  have "ignoreNotFound ''failed to remove member %s from pool %s: %w'' [key, j] (mutate E k (lb_ID b) ?fn) w = (Ok (), w')"
    using run True i by (simp add: removeMember_def)
  then obtain r where mut: "mutate E k (lb_ID b) ?fn w = (r, w')" and r: "r = Ok () \<or> (\<exists>e. r = Fail e \<and> isNotFound e)"
    by (rule ignoreNotFound_OkE)
  from mut [unfolded mutate_def] have "?D w'"
  proof (cases rule: bindG_cases)
    case (ok u w2)
    have start: "retryOnConflict E (lb_ID b) ?fn w = (Ok (), w2)"
      using ok(1) by (cases u) simp
    have "\<exists>w1. ?I w1 \<and> ?fn w1 = (Ok (), w2)"
      using start by (rule retry_until) (simp add: assms(2), rule kept)
    then obtain w1 where w1: "?I w1" "?fn w1 = (Ok (), w2)" by (elim exE conjE) (rule that, simp_all)
    have "?D w2" by (rule gone [OF w1]) simp
    then show ?thesis
      by (intro active_keeps [OF ok(2), where I = "\<lambda>c. ok c \<and> store c = without_member j i ?f"]) (use get_keeps in auto)
  next
    case (fail e)
    then have e: "isNotFound e" "\<not> gaveUp e" using r gaveUp_class by auto
    have "\<exists>w1. ?I w1 \<and> ?fn w1 = (Fail e, w')"
      using fail(1) e(2) by (rule retry_until_fail) (simp add: assms(2), rule kept)
    then obtain w1 where w1: "?I w1" "?fn w1 = (Fail e, w')" by (elim exE conjE) (rule that, simp_all)
    show ?thesis by (rule gone [OF w1]) (use e(1) in simp)
  qed (use r in simp)
  moreover have "{m \<in> ?f j. mb_ID m \<noteq> i} = {m \<in> ?f j. \<not> (map_of wanted key = None \<and> map_of present key = Some (mb_ID m))}"
    using True i by auto
  ultimately show ?thesis by simp
qed

lemma removeMembers_effect:
  assumes "eachG (removeMember E k b j wanted present) keys w = (Ok (), w')" and "ok (cloud w)"
  shows "ok (cloud w') \<and> store (cloud w') = (store (cloud w))(j := {m \<in> store (cloud w) j.
    \<not> (\<exists>key \<in> set keys. map_of wanted key = None \<and> map_of present key = Some (mb_ID m))})"
  using assms
proof (induction keys arbitrary: w)
  case Nil
  then show ?case by simp
next
  case (Cons key keys)
  obtain w1 where one: "removeMember E k b j wanted present key w = (Ok (), w1)"
    and rest: "eachG (removeMember E k b j wanted present) keys w1 = (Ok (), w')"
    using Cons.prems(1) unfolding eachG.simps by (rule bindG_unitE)
  note w1 = removeMember_effect [OF one Cons.prems(2)]
  show ?case
    using Cons.IH [OF rest conjunct1 [OF w1]] w1 by (auto simp: fun_eq_iff)
qed

text \<open>Which listed members the second loop deletes: those no node wants.\<close>

lemma deleted_listed:
  assumes m: "m \<in> set ms" and inj: "inj_on mb_ID (set ms)" "inj_on endpoint (set ms)"
  shows "(\<exists>key \<in> fst ` set (haveMembers ms). map_of (wantedMembers p nodes) key = None \<and>
      map_of (haveMembers ms) key = Some (mb_ID m)) \<longleftrightarrow> \<not> serves p nodes (mb_Address m) (mb_ProtocolPort m)"
proof -
  let ?key = "memberKey (mb_Address m) (mb_ProtocolPort m)"
  obtain i where i: "map_of (haveMembers ms) ?key = Some i"
    using m haveMembers_None [of ms ?key] by fastforce
  then obtain m' where m': "m' \<in> set ms" "endpoint m' = endpoint m" "mb_ID m' = i"
    using haveMembers_Some by (fastforce simp: endpoint_def)
  then have own: "map_of (haveMembers ms) ?key = Some (mb_ID m)"
    using i m inj(2) by (metis inj_onD)
  have only: "key = ?key" if "map_of (haveMembers ms) key = Some (mb_ID m)" for key
    using haveMembers_Some [OF that] m inj(1) by (metis inj_onD)
  have unwanted: "map_of (wantedMembers p nodes) ?key = None \<longleftrightarrow>
      \<not> serves p nodes (mb_Address m) (mb_ProtocolPort m)"
    by (auto simp: wantedMembers_None serves_def)
  have "?key \<in> fst ` set (haveMembers ms)"
    using own by (metis domI dom_map_of_conv_image_fst)
  then show ?thesis
    using own only unwanted by metis
qed

lemma reconcileMembers_effect:
  assumes run: "reconcileMembers E k b j p nodes w = (Ok (), w')" and ok: "ok (cloud w)"
    and inj: "inj_on mb_ID (store (cloud w) j)" "inj_on endpoint (store (cloud w) j)"
  shows "ok (cloud w') \<and> endpoint ` store (cloud w') j = {(a, p) |a. \<exists>n \<in> set nodes. nodeAddress n = Inr a} \<and>
    inj_on mb_ID (store (cloud w') j) \<and> inj_on endpoint (store (cloud w') j) \<and>
    (\<forall>j'. j' \<noteq> j \<longrightarrow> store (cloud w') j' = store (cloud w) j')"
proof -
  obtain ms w1 where ls: "listMembers E k j w = (Ok ms, w1)"
    and rest: "bindG (eachG (addMember E k b j p (wantedMembers p nodes) (haveMembers ms))
        (rangeOrder w1 (map fst (wantedMembers p nodes)))) (\<lambda>_.
      bindG (getG (\<lambda>w. rangeOrder w (map fst (haveMembers ms)))) (\<lambda>keys'.
      eachG (removeMember E k b j (wantedMembers p nodes) (haveMembers ms)) keys')) w1 = (Ok (), w')"
  proof (cases "p = 0")
    case False
    obtain ms w1 where 1: "listMembers E k j w = (Ok ms, w1)"
      and 2: "(if wantedMembers p nodes = [] then failG (Errorf ''no usable node addresses for pool %s'' [j])
       else bindG (getG (\<lambda>w. rangeOrder w (map fst (wantedMembers p nodes)))) (\<lambda>keys.
         bindG (eachG (addMember E k b j p (wantedMembers p nodes) (haveMembers ms)) keys) (\<lambda>_.
         bindG (getG (\<lambda>w. rangeOrder w (map fst (haveMembers ms)))) (\<lambda>keys'.
         eachG (removeMember E k b j (wantedMembers p nodes) (haveMembers ms)) keys')))) w1 = (Ok (), w')"
      using run unfolding reconcileMembers_def Let_def if_not_P [OF False] by (rule bindG_OkE)
    from 1 2 show thesis
      by (cases "wantedMembers p nodes = []") (simp_all add: bindG_getG that)
  qed (use run in \<open>simp add: reconcileMembers_def\<close>)
  obtain r c' where r: "members_List E k j (cloud w) = (Inr (Inr ms), c')" "cloud w1 = c'"
    using ls by (auto simp: listMembers_def mbList_def sdkCall_def liftG_def elim!: bindG_OkE dest!: wrapG_OkE
        split: prod.splits sum.splits)
  have L: "set ms = store (cloud w) j" "ok (cloud w1)" "store (cloud w1) = store (cloud w)"
    using list_ok [OF ok r(1)] list_keeps [OF ok r(1)] r(2) by simp_all
  obtain w2 where adds: "eachG (addMember E k b j p (wantedMembers p nodes) (haveMembers ms))
        (rangeOrder w1 (map fst (wantedMembers p nodes))) w1 = (Ok (), w2)"
    and removes: "eachG (removeMember E k b j (wantedMembers p nodes) (haveMembers ms))
        (rangeOrder w2 (map fst (haveMembers ms))) w2 = (Ok (), w')"
    using rest by (rule bindG_unitE) (simp add: bindG_getG that)
  have keys: "distinct (rangeOrder w1 (map fst (wantedMembers p nodes)))"
    "set (rangeOrder w1 (map fst (wantedMembers p nodes))) = fst ` set (wantedMembers p nodes)"
    "set (rangeOrder w2 (map fst (haveMembers ms))) = fst ` set (haveMembers ms)"
    using range_order [of w1 "map fst (wantedMembers p nodes)"] range_order [of w2 "map fst (haveMembers ms)"]
      distinct_wanted [of p nodes] mset_eq_imp_distinct_iff mset_eq_setD by (metis list.set_map)+
  obtain N where N: "ok (cloud w2)" "store (cloud w2) = (store (cloud w))(j := set ms \<union> N)"
    "added p nodes ms (fst ` set (wantedMembers p nodes)) (set ms) N"
    using addMembers_effect [OF adds L(2) keys(1)] L(1,3) keys(2) by auto
  define D where "D m \<longleftrightarrow> (\<exists>key \<in> fst ` set (haveMembers ms). map_of (wantedMembers p nodes) key = None \<and>
      map_of (haveMembers ms) key = Some (mb_ID m))" for m :: MemberObj
  have w': "ok (cloud w')" "store (cloud w') = (store (cloud w))(j := {m \<in> set ms \<union> N. \<not> D m})"
    using removeMembers_effect [OF removes N(1)] N(2) by (simp_all add: keys(3) D_def)
  have keepN: "\<not> D m" if m: "m \<in> N" for m
  proof
    assume "D m"
    then obtain key where "map_of (haveMembers ms) key = Some (mb_ID m)" unfolding D_def by blast
    from haveMembers_Some [OF this] have "mb_ID m \<in> mb_ID ` set ms" by (metis image_eqI)
    then show False using m N(3) by (auto simp: added_def)
  qed
  have keepL: "D m \<longleftrightarrow> \<not> serves p nodes (mb_Address m) (mb_ProtocolPort m)" if "m \<in> set ms" for m
    using deleted_listed [OF that] inj L(1) by (simp add: D_def)
  have final: "store (cloud w') j = {m \<in> set ms. serves p nodes (mb_Address m) (mb_ProtocolPort m)} \<union> N"
    unfolding w'(2) fun_upd_same using keepN keepL by blast
  show ?thesis
    using member_sets [OF N(3)] final inj L(1) w' by simp
qed

end

subsection \<open>A cloud that answers\<close>

text \<open>The balancer \<open>i\<close> is active, the pool \<open>j\<close> exists, and its members can be listed, created and
  deleted; the context is not cancelled.\<close>

locale live_store = member_store E k store ok + patient_wait E
  for E :: "('k, 'c) env" and k :: 'k and store :: "'c \<Rightarrow> string \<Rightarrow> MemberObj set" and ok :: "'c \<Rightarrow> bool" +
  fixes i :: string and j :: string
  assumes get_live: "ok c \<Longrightarrow> \<exists>b c'. loadbalancers_Get E k i c = (Inr b, c') \<and> lb_ProvisioningStatus b = statusActive"
    and list_live: "ok c \<Longrightarrow> \<exists>ms c'. members_List E k j c = (Inr (Inr ms), c')"
    and create_live: "ok c \<Longrightarrow> \<exists>m c'. members_Create E k j o1 c = (Inr m, c')"
    and delete_live: "ok c \<Longrightarrow> \<exists>x c'. members_Delete E k j n c = (x, c') \<and> (x = Inr () \<or> x = Inl (Http 404))"
begin

lemma active_live:
  assumes "ok (cloud w)"
  shows "\<exists>w'. waitForActive E k i w = (Ok (), w') \<and> ok (cloud w')"
proof -
  obtain n e where n: "0 < n" and poll:
    "pollUntilContextTimeout E activePollIntervalMs activePollTimeoutMs True (activeCond E k i) w = attempts n e (activeCond E k i) w"
    using poll_attempts [of True activePollIntervalMs activePollTimeoutMs "activeCond E k i" w] by blast
  obtain b c' where b: "loadbalancers_Get E k i (cloud w) = (Inr b, c')" "lb_ProvisioningStatus b = statusActive"
    using get_live [OF assms] by blast
  have "ok c'" using get_keeps [OF assms b(1)] by simp
  moreover obtain w' where "activeCond E k i w = (Ok True, w')" "cloud w' = c'"
    using b by (simp add: activeCond_def lbGet_def sdkCall_def bindG_def)
  then have "attempts n e (activeCond E k i) w = (Ok (), w')"
    using n by (cases n) (simp_all add: bindG_Ok)
  ultimately show ?thesis
    using poll \<open>cloud w' = c'\<close> by (auto simp: waitForActive_def)
qed

text \<open>A first attempt that succeeds or finds nothing to delete makes the whole mutation return.\<close>

lemma mutate_live:
  assumes "fn w = (r, w1)" and "ok (cloud w1)" and "r = Ok () \<or> r = Fail (Http 404)"
  shows "\<exists>w'. mutate E k i fn w = (r, w') \<and> ok (cloud w')"
proof -
  have step: "retryCond fn w = (case r of Ok _ \<Rightarrow> Ok True | Fail e \<Rightarrow> Fail e | Panicked s \<Rightarrow> Panicked s, w1)"
    using assms(1,3) by (auto simp: run)
  have "attempts (Suc 5) WaitTimeout (retryCond fn) w = (r, w1)"
    using step assms(3) unfolding attempts.simps by (auto simp: bindG_def)
  moreover have "retryOnConflict E i fn w = attempts (Suc 5) WaitTimeout (retryCond fn) w"
    by (simp add: retryOnConflict_def all_steps conflictBackoff_def)
  ultimately have "retryOnConflict E i fn w = (r, w1)" by simp
  then show ?thesis
    using assms(2,3) active_live [of w1] by (auto simp: mutate_def bindG_Ok bindG_Fail)
qed

lemma addMember_live:
  assumes "ok (cloud w)" and "lb_ID b = i"
  shows "\<exists>w'. addMember E k b j p (wantedMembers p nodes) (haveMembers ms) key w = (Ok (), w')"
proof (cases "map_of (haveMembers ms) key = None \<and> map_of (wantedMembers p nodes) key \<noteq> None")
  case False
  then show ?thesis by (auto simp: addMember_def split: option.split)
next
  case True
  then obtain n where n: "map_of (wantedMembers p nodes) key = Some n" by blast
  then obtain a where a: "nodeAddress n = Inr a" using wantedMembers_Some by blast
  let ?o = "\<lparr>mc_Address = a, mc_ProtocolPort = p, mc_Name = cutString (NodeName n) maxResourceNameLength,
     mc_SubnetID = lb_VipSubnetCidrID b\<rparr>"
  obtain m c' where c: "members_Create E k j ?o (cloud w) = (Inr m, c')" using create_live assms(1) by blast
  then obtain w1 where "bindG (mbCreate E k j ?o) (\<lambda>_. returnG ()) w = (Ok (), w1)" "cloud w1 = c'"
    by (simp add: mbCreate_def sdkCall_def bindG_def)
  then obtain w' where "mutate E k i (bindG (mbCreate E k j ?o) (\<lambda>_. returnG ())) w = (Ok (), w')"
    using mutate_live [of "bindG (mbCreate E k j ?o) (\<lambda>_. returnG ())" w "Ok ()" w1]
      create_ok [OF assms(1) c] by auto
  then show ?thesis
    using True n a assms(2) by (simp add: addMember_def wrapG_def catchG_def)
qed

lemma removeMember_live:
  assumes "ok (cloud w)" and "lb_ID b = i"
  shows "\<exists>w'. removeMember E k b j wanted present key w = (Ok (), w')"
proof (cases "map_of wanted key = None \<and> map_of present key \<noteq> None")
  case False
  then show ?thesis by (auto simp: removeMember_def split: option.split)
next
  case True
  then obtain n where n: "map_of present key = Some n" by blast
  obtain x c' where c: "members_Delete E k j n (cloud w) = (x, c')" "x = Inr () \<or> x = Inl (Http 404)"
    using delete_live assms(1) by blast
  then have c': "ok c'" using delete_ok [OF assms(1) c(1)] by auto
  obtain r w1 where w1: "mbDelete E k j n w = (r, w1)" "cloud w1 = c'" "r = Ok () \<or> r = Fail (Http 404)"
    using c by (auto simp: mbDelete_def sdkCall_def)
  then obtain w' where "mutate E k i (mbDelete E k j n) w = (r, w')"
    using mutate_live [of "mbDelete E k j n" w r w1] c' by auto
  then show ?thesis
    using True n assms(2) w1(3) by (auto simp: removeMember_def ignoreNotFound_def catchG_def)
qed

lemma each_live:
  assumes "ok (cloud w)"
    and "\<And>x u. ok (cloud u) \<Longrightarrow> \<exists>u'. f x u = (Ok (), u')"
    and "\<And>x u u'. ok (cloud u) \<Longrightarrow> f x u = (Ok (), u') \<Longrightarrow> ok (cloud u')"
  shows "\<exists>w'. eachG f xs w = (Ok (), w') \<and> ok (cloud w')"
  using assms(1)
proof (induction xs arbitrary: w)
  case (Cons x xs)
  obtain u where u: "f x w = (Ok (), u)" using assms(2) Cons.prems by blast
  with Cons.IH [of u] show ?case using assms(3) [OF Cons.prems u] by (simp add: bindG_Ok)
qed simp

lemma reconcileMembers_live:
  assumes ok: "ok (cloud w)" and b: "lb_ID b = i" and p: "p \<noteq> 0" and n: "\<exists>n \<in> set nodes. \<exists>a. nodeAddress n = Inr a"
  shows "\<exists>w'. reconcileMembers E k b j p nodes w = (Ok (), w')"
proof -
  obtain ms c' where ms: "members_List E k j (cloud w) = (Inr (Inr ms), c')" using list_live ok by blast
  then obtain w1 where w1: "listMembers E k j w = (Ok ms, w1)" "cloud w1 = c'"
    by (simp add: listMembers_def mbList_def sdkCall_def wrapG_def catchG_def bindG_def liftG_def)
  have ok1: "ok (cloud w1)" using list_keeps [OF ok ms] w1(2) by simp
  have wanted: "wantedMembers p nodes \<noteq> []" using n by (auto simp: wantedMembers_Nil) (metis Inl_Inr_False)
  have "\<exists>w2. eachG (addMember E k b j p (wantedMembers p nodes) (haveMembers ms))
      (rangeOrder w1 (map fst (wantedMembers p nodes))) w1 = (Ok (), w2) \<and> ok (cloud w2)"
    by (rule each_live [OF ok1 addMember_live [OF _ b]], assumption)
      (rule conjunct1 [OF addMember_effect])
  then obtain w2 where w2: "eachG (addMember E k b j p (wantedMembers p nodes) (haveMembers ms))
      (rangeOrder w1 (map fst (wantedMembers p nodes))) w1 = (Ok (), w2)" "ok (cloud w2)"
    by (elim exE conjE)
  have "\<exists>w3. eachG (removeMember E k b j (wantedMembers p nodes) (haveMembers ms))
      (rangeOrder w2 (map fst (haveMembers ms))) w2 = (Ok (), w3) \<and> ok (cloud w3)"
    by (rule each_live [OF w2(2) removeMember_live [OF _ b]], assumption)
      (rule conjunct1 [OF removeMember_effect])
  then obtain w3 where w3: "eachG (removeMember E k b j (wantedMembers p nodes) (haveMembers ms))
      (rangeOrder w2 (map fst (haveMembers ms))) w2 = (Ok (), w3)"
    by (elim exE conjE)
  show ?thesis
    using w1(1) w2(1) w3 wanted p
    by (simp add: reconcileMembers_def bindG_Ok Let_def bindG_getG)
qed

end

end
