(* ===== verification/Elb_Convergence.thy ===== *)
theory Elb_Convergence
  imports Elb_Member_Store Elb_Fixtures
begin

section \<open>Member synchronisation converges\<close>

text \<open>
  The contracts of \<open>Elb_Member_Store\<close> hold for the fake ELB of the tests, and the properties of
  \<open>reconcileMembers\<close> that rest on them.
\<close>

subsection \<open>The fake ELB is a live store\<close>

lemma undec_zeros: "undec (replicate n (CHR ''0'') @ s) = undec s"
  by (induction n) (simp_all add: undec_def digit_val_def)

lemma genID_inject: "0 \<le> m \<Longrightarrow> 0 \<le> n \<Longrightarrow> genID pre m = genID pre n \<Longrightarrow> m = n"
proof -
  assume mn: "0 \<le> m" "0 \<le> n" and "genID pre m = genID pre n"
  then have "undec (replicate (4 - length (dec_int m)) (CHR ''0'') @ dec_int m) =
      undec (replicate (4 - length (dec_int n)) (CHR ''0'') @ dec_int n)"
    by (simp add: genID_def)
  then show ?thesis using mn by (simp add: undec_zeros dec_int_def)
qed

definition fake_store :: "fakeELB \<Rightarrow> string \<Rightarrow> MemberObj set" where
  "fake_store s j = (case map_of (members s) j of None \<Rightarrow> {} | Some ms \<Rightarrow> snd ` set ms)"

definition fake_ids :: "fakeELB \<Rightarrow> bool" where
  "fake_ids s \<longleftrightarrow> 0 \<le> nextID s \<and> (\<forall>j ms. map_of (members s) j = Some ms \<longrightarrow>
     (\<forall>(key, m) \<in> set ms. mb_ID m = key \<and> (\<exists>n. 0 \<le> n \<and> n \<le> nextID s \<and> key = genID ''member'' n)))"

definition fake_ok :: "string \<Rightarrow> string \<Rightarrow> fakeELB \<Rightarrow> bool" where
  "fake_ok i j s \<longleftrightarrow> fake_ids s \<and> map_of (members s) j \<noteq> None \<and>
     (\<exists>b. map_of (loadBalancers s) i = Some b \<and> lb_ProvisioningStatus b = statusActive)"

lemma fake_ids_member:
  "fake_ids s \<Longrightarrow> map_of (members s) j = Some ms \<Longrightarrow> (key, m) \<in> set ms \<Longrightarrow>
   mb_ID m = key \<and> (\<exists>n. 0 \<le> n \<and> n \<le> nextID s \<and> key = genID ''member'' n)"
  by (fastforce simp: fake_ids_def)

lemma fake_ids_update:
  assumes "fake_ids s" and "members s' = AList.update p ms' (members s)" and "nextID s \<le> nextID s'"
    and new: "\<And>key m. (key, m) \<in> set ms' \<Longrightarrow>
      mb_ID m = key \<and> (\<exists>n. 0 \<le> n \<and> n \<le> nextID s' \<and> key = genID ''member'' n)"
  shows "fake_ids s'"
  unfolding fake_ids_def
proof (intro conjI allI impI)
  show "0 \<le> nextID s'" using assms(1,3) by (simp add: fake_ids_def)
  fix q qs assume q: "map_of (members s') q = Some qs"
  show "\<forall>(key, m) \<in> set qs. mb_ID m = key \<and> (\<exists>n. 0 \<le> n \<and> n \<le> nextID s' \<and> key = genID ''member'' n)"
  proof (cases "q = p")
    case True
    then have "qs = ms'" using q assms(2) by (simp add: update_conv)
    then show ?thesis using new by blast
  next
    case False
    then have "map_of (members s) q = Some qs" using q assms(2) by (simp add: update_conv)
    from fake_ids_member [OF assms(1) this] show ?thesis
      using assms(3) order_trans by blast
  qed
qed

lemma fake_mbCreate_spec:
  assumes ok: "fake_ok i j s" and run: "fake_mbCreate p o1 s = (r, s')"
  shows "fake_ok i j s' \<and> (case r of
      Inl e \<Rightarrow> s' = s
    | Inr m \<Rightarrow> fake_store s' = (fake_store s)(p := insert m (fake_store s p)) \<and>
        endpoint m = (mc_Address o1, mc_ProtocolPort o1) \<and> mb_ID m \<notin> mb_ID ` fake_store s p)"
proof (cases "map_of (members s) p")
  case None
  then show ?thesis using assms by (auto simp: fake_mbCreate_def)
next
  case (Some ms)
  let ?i = "genID ''member'' (nextID s + 1)"
  let ?m = "\<lparr>mb_ID = ?i, mb_Address = mc_Address o1, mb_ProtocolPort = mc_ProtocolPort o1\<rparr>"
  have ids: "fake_ids s" "0 \<le> nextID s" using ok by (auto simp: fake_ok_def fake_ids_def)
  have r: "r = Inr ?m" and s': "s' = s\<lparr>nextID := nextID s + 1, members := AList.update p (ms @ [(?i, ?m)]) (members s)\<rparr>"
    using run Some by (auto simp: fake_mbCreate_def Let_def)
  have "?i \<noteq> genID ''member'' n" if "0 \<le> n" "n \<le> nextID s" for n
    using genID_inject [of "nextID s + 1" n] that ids(2) by auto
  then have fresh: "mb_ID ?m \<notin> mb_ID ` fake_store s p"
    using fake_ids_member [OF ids(1) Some] by (fastforce simp: fake_store_def Some)
  have "fake_ids s'"
  proof (rule fake_ids_update [OF ids(1), of _ p "ms @ [(?i, ?m)]"])
    fix key m assume "(key, m) \<in> set (ms @ [(?i, ?m)])"
    then consider (old) "(key, m) \<in> set ms" | (new) "key = ?i" "m = ?m" by auto
    then show "mb_ID m = key \<and> (\<exists>n. 0 \<le> n \<and> n \<le> nextID s' \<and> key = genID ''member'' n)"
    proof cases
      case old
      from fake_ids_member [OF ids(1) Some this] obtain n where
        "mb_ID m = key" "0 \<le> n" "n \<le> nextID s" "key = genID ''member'' n" by blast
      then show ?thesis using s' by (intro conjI exI [of _ n]) simp_all
    next
      case new
      then show ?thesis using s' ids(2) by (intro conjI exI [of _ "nextID s + 1"]) simp_all
    qed
  qed (use s' in simp_all)
  then have "fake_ok i j s'"
    using ok s' by (auto simp: fake_ok_def update_conv)
  moreover have "fake_store s' = (fake_store s)(p := insert ?m (fake_store s p))"
    using s' Some by (auto simp: fake_store_def fun_eq_iff update_conv)
  ultimately show ?thesis using r fresh by (simp add: endpoint_def)
qed

lemma fake_mbDelete_spec:
  assumes ok: "fake_ok i j s" and run: "fake_mbDelete p n s = (r, s')"
  shows "fake_ok i j s' \<and> fake_store s' = (fake_store s)(p := {m \<in> fake_store s p. mb_ID m \<noteq> n}) \<and>
    (r = Inr () \<or> r = Inl (Http 404))"
proof (cases "map_of (members s) p")
  case None
  then have "fake_store s p = {}" by (simp add: fake_store_def)
  then show ?thesis using assms None by (auto simp: fake_mbDelete_def fun_eq_iff)
next
  case (Some ms)
  have ids: "fake_ids s" using ok by (simp add: fake_ok_def)
  note key = fake_ids_member [OF ids Some]
  show ?thesis
  proof (cases "map_of ms n")
    case None
    then have no: "{m \<in> fake_store s p. mb_ID m \<noteq> n} = fake_store s p"
      using key by (force simp: fake_store_def Some map_of_eq_None_iff)
    have s': "s' = s\<lparr>members := AList.update p ms (members s)\<rparr>" "r = Inl (Http 404)"
      using run Some None by (auto simp: fake_mbDelete_def delItem_def)
    have same: "map_of (members s') = map_of (members s)"
      using s' Some by (auto simp: fun_eq_iff update_conv)
    then have "fake_store s' = fake_store s" by (simp add: fake_store_def fun_eq_iff)
    then show ?thesis using ok s' same no by (simp add: fake_ok_def fake_ids_def)
  next
    case (Some m0)
    have s': "s' = s\<lparr>members := AList.update p (AList.delete n ms) (members s)\<rparr>" "r = Inr ()"
      using run \<open>map_of (members s) p = Some ms\<close> Some by (auto simp: fake_mbDelete_def delItem_def)
    have del: "set (AList.delete n ms) = {(key, m) \<in> set ms. key \<noteq> n}"
      by (auto simp: AList.delete_eq)
    have "snd ` {(key, m) \<in> set ms. key \<noteq> n} = {m \<in> snd ` set ms. mb_ID m \<noteq> n}"
      using key by force
    then have "fake_store s' = (fake_store s)(p := {m \<in> fake_store s p. mb_ID m \<noteq> n})"
      using s' \<open>map_of (members s) p = Some ms\<close> by (auto simp: fake_store_def fun_eq_iff update_conv del)
    moreover have "fake_ids s'"
      by (rule fake_ids_update [OF ids, of _ p "AList.delete n ms"]) (use s' key del in auto)
    then have "fake_ok i j s'"
      using ok s' by (auto simp: fake_ok_def update_conv)
    ultimately show ?thesis using s' by simp
  qed
qed

interpretation fake_members: live_store fake_env ElbClient fake_store "fake_ok i j" i j for i j
proof
  fix c c' :: fakeELB and j' :: string and ms
  assume "members_List fake_env ElbClient j' c = (Inr (Inr ms), c')"
  then obtain xs where "map_of (members c) j' = Some xs" "ms = map snd xs"
    by (auto simp: fake_env_def onElb_def fake_mbList_def getItem_def split: option.splits)
  then show "set ms = fake_store c j'" by (simp add: fake_store_def)
next
  fix c c' :: fakeELB and j' r
  assume "fake_ok i j c" and "members_List fake_env ElbClient j' c = (r, c')"
  then show "fake_ok i j c' \<and> fake_store c' = fake_store c"
    by (auto simp: fake_env_def onElb_def fake_mbList_def)
next
  fix c c' :: fakeELB and n r
  assume "fake_ok i j c" and "loadbalancers_Get fake_env ElbClient n c = (r, c')"
  then show "fake_ok i j c' \<and> fake_store c' = fake_store c"
    by (auto simp: fake_env_def onElb_def)
next
  fix c c' :: fakeELB and p o1 m
  assume "fake_ok i j c" and "members_Create fake_env ElbClient p o1 c = (Inr m, c')"
  then show "fake_ok i j c' \<and> fake_store c' = (fake_store c)(p := insert m (fake_store c p)) \<and>
      endpoint m = (mc_Address o1, mc_ProtocolPort o1) \<and> mb_ID m \<notin> mb_ID ` fake_store c p"
    using fake_mbCreate_spec [of i j c p o1 "Inr m" c'] by (simp add: fake_env_def onElb_def)
next
  fix c c' :: fakeELB and p o1 e
  assume "fake_ok i j c" and "members_Create fake_env ElbClient p o1 c = (Inl e, c')"
  then show "fake_ok i j c' \<and> fake_store c' = fake_store c"
    using fake_mbCreate_spec [of i j c p o1 "Inl e" c'] by (simp add: fake_env_def onElb_def)
next
  fix c c' :: fakeELB and p n x
  assume "fake_ok i j c" and "members_Delete fake_env ElbClient p n c = (x, c')"
  then show "fake_ok i j c' \<and> fake_store c' = (fake_store c)(p := {m \<in> fake_store c p. mb_ID m \<noteq> n})"
    using fake_mbDelete_spec [of i j c p n x c'] by (simp add: fake_env_def onElb_def)
next
  fix c c' :: fakeELB and p n e
  assume "fake_ok i j c" and "members_Delete fake_env ElbClient p n c = (Inl e, c')" and "\<not> isNotFound e"
  then show "fake_ok i j c' \<and> fake_store c' = fake_store c"
    using fake_mbDelete_spec [of i j c p n "Inl e" c'] by (auto simp: fake_env_def onElb_def)
next
  fix c :: fakeELB
  assume "fake_ok i j c"
  then show "\<exists>b c'. loadbalancers_Get fake_env ElbClient i c = (Inr b, c') \<and> lb_ProvisioningStatus b = statusActive"
    by (auto simp: fake_ok_def fake_env_def onElb_def getItem_def)
next
  fix c :: fakeELB
  assume "fake_ok i j c"
  then show "\<exists>ms c'. members_List fake_env ElbClient j c = (Inr (Inr ms), c')"
    by (auto simp: fake_ok_def fake_env_def onElb_def fake_mbList_def getItem_def)
next
  fix c :: fakeELB and o1
  assume "fake_ok i j c"
  then show "\<exists>m c'. members_Create fake_env ElbClient j o1 c = (Inr m, c')"
    by (auto simp: fake_ok_def fake_env_def onElb_def fake_mbCreate_def Let_def)
next
  fix c :: fakeELB and n
  assume "fake_ok i j c"
  then show "\<exists>x c'. members_Delete fake_env ElbClient j n c = (x, c') \<and> (x = Inr () \<or> x = Inl (Http 404))"
    using fake_mbDelete_spec [of i j c j n] by (cases "fake_mbDelete j n c") (auto simp: fake_env_def onElb_def)
qed

subsection \<open>Properties\<close>

text \<open>
  C11: when \<open>reconcileMembers\<close> reports success, the pool has exactly the members the nodes want,
  whatever happened on the way (conflicts, retries, members already gone, the order in which Go ranged
  over its maps): one member per usable node address, on the Service's node port, and nothing else.
  Other pools are untouched, and ids and endpoints stay unique, so the next synchronisation starts from
  a pool of the same kind.
\<close>

theorem members_converge:
  assumes "member_store E k store ok" and "ok (cloud w)"
    and "inj_on mb_ID (store (cloud w) j)" and "inj_on endpoint (store (cloud w) j)"
    and "reconcileMembers E k b j p nodes w = (Ok (), w')"
  shows "endpoint ` store (cloud w') j = {(a, p) |a. \<exists>n \<in> set nodes. nodeAddress n = Inr a} \<and>
    inj_on mb_ID (store (cloud w') j) \<and> inj_on endpoint (store (cloud w') j) \<and>
    (\<forall>j'. j' \<noteq> j \<longrightarrow> store (cloud w') j' = store (cloud w) j')"
  using member_store.reconcileMembers_effect [OF assms(1,5,2,3,4)] by blast

text \<open>With a cloud that answers the members are synchronised and success is reported.\<close>

lemma members_synchronised:
  assumes "live_store E k store ok i j" and "ok (cloud w)" and "lb_ID b = i"
    and "inj_on mb_ID (store (cloud w) j)" and "inj_on endpoint (store (cloud w) j)"
    and "p \<noteq> 0" and "\<exists>n \<in> set nodes. \<exists>a. nodeAddress n = Inr a"
  shows "\<exists>w'. reconcileMembers E k b j p nodes w = (Ok (), w') \<and>
    endpoint ` store (cloud w') j = {(a, p) |a. \<exists>n \<in> set nodes. nodeAddress n = Inr a}"
proof -
  obtain w' where run: "reconcileMembers E k b j p nodes w = (Ok (), w')"
    using live_store.reconcileMembers_live [OF assms(1,2,3,6,7)] by blast
  have "member_store E k store ok" using assms(1) by (simp add: live_store_def)
  from member_store.reconcileMembers_effect [OF this run assms(2,4,5)] run show ?thesis by blast
qed

definition testBalancer :: BalancerObj where
  "testBalancer = \<lparr>lb_ID = ''lb-1'', lb_Name = ''kube_service_c_default_web'',
     lb_VipSubnetCidrID = ''subnet-1234'', lb_VipAddress = ''192.168.0.100'', lb_PublicIps = [],
     lb_ProvisioningStatus = ''ACTIVE''\<rparr>"

text \<open>A pool with a member of a node that is gone.\<close>

definition staleState :: fakeELB where
  "staleState = testState\<lparr>nextID := 1, members := [(''p'', [(genID ''member'' 1,
     \<lparr>mb_ID = genID ''member'' 1, mb_Address = ''10.0.0.9'', mb_ProtocolPort = 30080\<rparr>)])]\<rparr>"

definition liveNodes :: "Node list" where
  "liveNodes = [testNode ''n1'' ''10.0.0.1'', testNode ''n2'' ''10.0.0.2'']"

lemma staleState_facts:
  "fake_ok ''lb-1'' ''p'' staleState" "inj_on mb_ID (fake_store staleState ''p'')"
  "inj_on endpoint (fake_store staleState ''p'')"
  by (auto simp: staleState_def fake_ok_def fake_ids_def fake_store_def testState_def statusActive_def
      newFakeELB_def intro!: exI [of _ 1] split: if_splits)

lemma liveNodes_addresses: "(\<exists>n \<in> set liveNodes. nodeAddress n = Inr a) \<longleftrightarrow> a = ''10.0.0.1'' \<or> a = ''10.0.0.2''"
  by (auto simp: liveNodes_def testNode_def nodeAddress_def)

lemma liveNodes_usable: "\<exists>n \<in> set liveNodes. \<exists>a. nodeAddress n = Inr a"
  by (simp add: liveNodes_def testNode_def nodeAddress_def)

lemma endpoints_liveNodes:
  "{(a, 30080) |a. \<exists>n \<in> set liveNodes. nodeAddress n = Inr a} = {(''10.0.0.1'', 30080), (''10.0.0.2'', 30080 :: int)}"
  unfolding liveNodes_addresses by auto

theorem members_converge_witness:
  "\<exists>w'. reconcileMembers fake_env ElbClient testBalancer ''p'' 30080 liveNodes ((world_of staleState)\<lparr>goOrder := backwards\<rparr>) = (Ok (), w') \<and>
     endpoint ` fake_store (cloud w') ''p'' = {(''10.0.0.1'', 30080), (''10.0.0.2'', 30080)} \<and>
     inj_on mb_ID (fake_store (cloud w') ''p'')"
proof -
  have ok: "fake_ok ''lb-1'' ''p'' (cloud ((world_of staleState)\<lparr>goOrder := backwards\<rparr>))" and inj:
    "inj_on mb_ID (fake_store (cloud ((world_of staleState)\<lparr>goOrder := backwards\<rparr>)) ''p'')"
    "inj_on endpoint (fake_store (cloud ((world_of staleState)\<lparr>goOrder := backwards\<rparr>)) ''p'')"
    by (simp_all add: world_of_def staleState_facts)
  have lb: "lb_ID testBalancer = ''lb-1''" and p: "(30080::int) \<noteq> 0" by (simp_all add: testBalancer_def)
  have n: "\<exists>n \<in> set liveNodes. \<exists>a. nodeAddress n = Inr a" by (rule liveNodes_usable)
  obtain w' where run: "reconcileMembers fake_env ElbClient testBalancer ''p'' 30080 liveNodes ((world_of staleState)\<lparr>goOrder := backwards\<rparr>) = (Ok (), w')"
    using fake_members.reconcileMembers_live [OF ok lb p n] by blast
  from members_converge [OF fake_members.member_store_axioms ok inj run] run
  show ?thesis unfolding endpoints_liveNodes by blast
qed

end
