(* ===== verification/Elb_Interrupted.thy ===== *)
theory Elb_Interrupted
  imports Elb_Convergence
begin

section \<open>A synchronisation of members that stops half-way\<close>

text \<open>
  What \<open>reconcileMembers\<close> leaves behind whatever its result: an error of the cloud, a balancer that does not
  become active again, a context that is cancelled. The lemmas of \<open>Elb_Member_Store\<close> are about runs that
  succeed; these follow the set of members through a run that may stop after any call (\<open>midway\<close>).
\<close>

subsection \<open>Runs with any result\<close>

text \<open>A loop that stops at any element has gone through a prefix of its list.\<close>

lemma eachG_prefix:
  assumes "eachG f zs w = (r, w')" and "I [] w"
    and "\<And>xs x ys w r w'. zs = xs @ x # ys \<Longrightarrow> I xs w \<Longrightarrow> f x w = (r, w') \<Longrightarrow> I (xs @ [x]) w'"
  shows "\<exists>xs ys. zs = xs @ ys \<and> I xs w' \<and> (r = Ok () \<longrightarrow> ys = [])"
proof -
  have "\<exists>us vs. zs = us @ vs \<and> I us w' \<and> (r = Ok () \<longrightarrow> vs = [])" if "eachG f ys w = (r, w')" "zs = xs @ ys" "I xs w" for xs ys w
    using that
  proof (induction ys arbitrary: xs w)
    case Nil
    then show ?case by auto
  next
    case (Cons y ys)
    note split = Cons.prems(2) and here = Cons.prems(3)
    from Cons.prems(1) [unfolded eachG.simps] show ?case
    proof (cases rule: bindG_cases)
      case (ok u w1)
      then show ?thesis using Cons.IH [of w1 "xs @ [y]"] assms(3) [OF split here ok(1)] split by simp
    next
      case (fail e)
      then show ?thesis using assms(3) [OF split here fail(1)] split by (intro exI [of _ "xs @ [y]"] exI [of _ ys]) simp
    next
      case (panic s)
      then show ?thesis using assms(3) [OF split here panic(1)] split by (intro exI [of _ "xs @ [y]"] exI [of _ ys]) simp
    qed
  qed
  from this [of zs w "[]"] assms(1,2) show ?thesis by simp
qed

lemma catchG_inner:
  assumes "catchG m h w = (r, w')" and "\<And>e w1. \<exists>x. h e w1 = (x, w1)"
  shows "\<exists>x. m w = (x, w')"
proof (cases "m w")
  case (Pair x w1)
  have "\<exists>y. h e w1 = (y, w1)" for e by (rule assms(2))
  then show ?thesis
    using assms(1) Pair by (cases x) (simp_all add: catchG_def, metis prod.inject)
qed

lemma wrapG_inner: "wrapG fmt args m w = (r, w') \<Longrightarrow> \<exists>x. m w = (x, w')"
  unfolding wrapG_def by (erule catchG_inner) (simp add: failG_def)

lemma ignoreNotFound_inner: "ignoreNotFound fmt args m w = (r, w') \<Longrightarrow> \<exists>x. m w = (x, w')"
  unfolding ignoreNotFound_def by (erule catchG_inner) (simp add: failG_def returnG_def)

text \<open>As long as no attempt succeeds, what failing attempts keep is kept.\<close>

lemma attempts_failed:
  assumes "attempts n e cond w = (r, w')" and "r \<noteq> Ok ()" and "I w"
    and "\<And>w r w'. I w \<Longrightarrow> cond w = (r, w') \<Longrightarrow> r \<noteq> Ok True \<Longrightarrow> I w'"
  shows "I w'"
  using assms(1,3)
proof (induction n arbitrary: w)
  case (Suc n)
  from Suc.prems(1) [unfolded attempts.simps] show ?case
  proof (cases rule: bindG_cases)
    case (ok b w1)
    then show ?thesis
      using Suc.IH [of w1] assms(2) assms(4) [OF Suc.prems(2) ok(1)] by (auto split: if_splits)
  next
    case (fail e')
    then show ?thesis using assms(4) [OF Suc.prems(2) fail(1)] by simp
  next
    case (panic s)
    then show ?thesis using assms(4) [OF Suc.prems(2) panic(1)] by simp
  qed
qed simp

context wait_contract begin

lemma retry_failed:
  assumes "retryOnConflict E i fn w = (r, w')" and "r \<noteq> Ok ()" and "I w"
    and "\<And>w r w'. I w \<Longrightarrow> fn w = (r, w') \<Longrightarrow> r \<noteq> Ok () \<Longrightarrow> I w'"
  shows "I w'"
proof -
  obtain n e where run: "attempts n e (retryCond fn) w = (r, w')" using assms(1) by (rule retryE)
  show ?thesis
    using run assms(2,3)
  proof (rule attempts_failed)
    fix w r w' assume "I w" and c: "retryCond fn w = (r, w')" and "r \<noteq> Ok True"
    from retryCond_result(3) [OF c this(3)] show "I w'"
      by (elim disjE exE) (use \<open>I w\<close> assms(4) in \<open>auto\<close>)
  qed
qed

text \<open>A change that is waited for: either no attempt succeeded, or one did.\<close>

lemma mutate_any:
  assumes "mutate E k i fn w = (r, w')" and "I (cloud w)"
    and bad: "\<And>w r w'. I (cloud w) \<Longrightarrow> fn w = (r, w') \<Longrightarrow> r \<noteq> Ok () \<Longrightarrow> I (cloud w')"
    and good: "\<And>w w'. I (cloud w) \<Longrightarrow> fn w = (Ok (), w') \<Longrightarrow> J (cloud w')"
    and get: "\<And>c r c'. J c \<Longrightarrow> loadbalancers_Get E k i c = (r, c') \<Longrightarrow> J c'"
  shows "I (cloud w') \<or> J (cloud w')"
  using assms(1) [unfolded mutate_def]
proof (cases rule: bindG_cases)
  case (ok u w1)
  have "\<exists>w2. I (cloud w2) \<and> fn w2 = (Ok (), w1)"
    using ok(1) assms(2) bad by (intro retry_until [where I = "\<lambda>w. I (cloud w)"]) auto
  then have "J (cloud w1)" using good by blast
  then show ?thesis using active_keeps [OF ok(2), where I = J] get by blast
next
  case (fail e)
  then show ?thesis using retry_failed [OF fail(1), where I = "\<lambda>w. I (cloud w)"] assms(2) bad by simp
next
  case (panic s)
  then show ?thesis using retry_failed [OF panic(1), where I = "\<lambda>w. I (cloud w)"] assms(2) bad by simp
qed

end

subsection \<open>The members on the way\<close>

text \<open>
  \<open>S\<close> are members on the way from \<open>S0\<close> to those the nodes want, when the keys \<open>K\<close> have been seen: ids
  and endpoints are unique, no serving member is lost, and what is new serves and was missing.
\<close>

definition midway :: "int \<Rightarrow> Node list \<Rightarrow> string set \<Rightarrow> MemberObj set \<Rightarrow> MemberObj set \<Rightarrow> bool" where
  "midway p nodes K S0 S \<longleftrightarrow> inj_on mb_ID S \<and> inj_on endpoint S \<and>
     (\<forall>m \<in> S0. serves p nodes (mb_Address m) (mb_ProtocolPort m) \<longrightarrow> m \<in> S) \<and>
     (\<forall>m \<in> S. m \<in> S0 \<or> serves p nodes (mb_Address m) (mb_ProtocolPort m) \<and> memberKey (mb_Address m) (mb_ProtocolPort m) \<in> K \<and>
        mb_ID m \<notin> mb_ID ` S0)"

lemma midwayI:
  assumes "inj_on mb_ID S" and "inj_on endpoint S"
    and "\<And>m. m \<in> S0 \<Longrightarrow> serves p nodes (mb_Address m) (mb_ProtocolPort m) \<Longrightarrow> m \<in> S"
    and "\<And>m. m \<in> S \<Longrightarrow> m \<in> S0 \<or> serves p nodes (mb_Address m) (mb_ProtocolPort m) \<and>
        memberKey (mb_Address m) (mb_ProtocolPort m) \<in> K \<and> mb_ID m \<notin> mb_ID ` S0"
  shows "midway p nodes K S0 S"
  unfolding midway_def using assms by simp

lemma midwayD:
  assumes "midway p nodes K S0 S"
  shows "inj_on mb_ID S" and "inj_on endpoint S"
    and "m \<in> S0 \<Longrightarrow> serves p nodes (mb_Address m) (mb_ProtocolPort m) \<Longrightarrow> m \<in> S"
    and "m \<in> S \<Longrightarrow> m \<in> S0 \<or> serves p nodes (mb_Address m) (mb_ProtocolPort m) \<and>
        memberKey (mb_Address m) (mb_ProtocolPort m) \<in> K \<and> mb_ID m \<notin> mb_ID ` S0"
  using assms unfolding midway_def by simp_all

lemma midway_start: "inj_on mb_ID S \<Longrightarrow> inj_on endpoint S \<Longrightarrow> midway p nodes K S S"
  by (simp add: midway_def)

lemma midway_mono: "midway p nodes K S0 S \<Longrightarrow> K \<subseteq> K' \<Longrightarrow> midway p nodes K' S0 S"
  unfolding midway_def by blast

lemma midway_insert:
  assumes S: "midway p nodes K S0 S" and key: "memberKey a p \<notin> K" "serves p nodes a p" "endpoint m = (a, p)"
    and free: "map_of (haveMembers ms) (memberKey a p) = None" "set ms = S0" and ids: "mb_ID m \<notin> mb_ID ` S" "mb_ID m \<notin> mb_ID ` S0"
  shows "midway p nodes (insert (memberKey a p) K) S0 (insert m S)"
proof -
  have m: "mb_Address m = a" "mb_ProtocolPort m = p" using key(3) by (simp_all add: endpoint_def)
  have "endpoint m \<notin> endpoint ` S"
  proof
    assume "endpoint m \<in> endpoint ` S"
    then obtain m' where m': "m' \<in> S" "mb_Address m' = a" "mb_ProtocolPort m' = p" using m by (auto simp: endpoint_def)
    then have "m' \<notin> S0" using free by (auto simp: haveMembers_None)
    then show False using S m' key(1) unfolding midway_def by auto
  qed
  then have inj: "inj_on mb_ID (insert m S)" "inj_on endpoint (insert m S)" using S ids(1) unfolding midway_def by auto
  have old: "m' \<in> insert m S" if "m' \<in> S0" "serves p nodes (mb_Address m') (mb_ProtocolPort m')" for m'
    using midwayD(3) [OF S that] by simp
  have new: "m' \<in> S0 \<or> serves p nodes (mb_Address m') (mb_ProtocolPort m') \<and>
      memberKey (mb_Address m') (mb_ProtocolPort m') \<in> insert (memberKey a p) K \<and> mb_ID m' \<notin> mb_ID ` S0" if "m' \<in> insert m S" for m'
  proof (cases "m' = m")
    case True
    then show ?thesis using m key(2) ids(2) by simp
  next
    case False
    then show ?thesis using midwayD(4) [OF S, of m'] that by auto
  qed
  show ?thesis
    by (rule midwayI [OF inj old new])
qed

lemma midway_remove:
  assumes S: "midway p nodes K S0 S" and S0: "set ms = S0" "inj_on mb_ID S0"
    and i: "map_of (haveMembers ms) key = Some i" "map_of (wantedMembers p nodes) key = None"
  shows "midway p nodes K S0 {m \<in> S. mb_ID m \<noteq> i}"
proof -
  obtain m0 where m0: "m0 \<in> S0" "key = memberKey (mb_Address m0) (mb_ProtocolPort m0)" "mb_ID m0 = i"
    using haveMembers_Some [OF i(1)] S0(1) by blast
  have "mb_ID m \<noteq> i" if m: "m \<in> S0" "serves p nodes (mb_Address m) (mb_ProtocolPort m)" for m
  proof
    assume "mb_ID m = i"
    then have "m = m0" using S0(2) m(1) m0(1,3) by (simp add: inj_on_def)
    then show False using m(2) m0(2) i(2) by (auto simp: wantedMembers_None serves_def)
  qed
  then show ?thesis
    using midwayD(3,4) [OF S]
    by (intro midwayI inj_on_subset [OF midwayD(1) [OF S]] inj_on_subset [OF midwayD(2) [OF S]]) auto
qed

subsection \<open>Any result of the synchronisation\<close>

context member_store begin

lemma addMember_any:
  assumes run: "addMember E k b j p (wantedMembers p nodes) (haveMembers ms) key w = (r, w')" and ok: "ok (cloud w)"
    and mid: "midway p nodes K S0 (store (cloud w) j)" "S0 \<subseteq> store (cloud w) j" "set ms = S0" and key: "key \<notin> K"
  shows "ok (cloud w') \<and> midway p nodes (insert key K) S0 (store (cloud w') j) \<and> S0 \<subseteq> store (cloud w') j \<and>
    (\<forall>j'. j' \<noteq> j \<longrightarrow> store (cloud w') j' = store (cloud w) j')"
proof (cases "map_of (haveMembers ms) key = None \<and> map_of (wantedMembers p nodes) key \<noteq> None")
  case False
  then have "w' = w" using run by (auto simp: addMember_def split: option.splits)
  then show ?thesis using ok mid midway_mono [OF mid(1) subset_insertI] by auto
next
  case True
  then obtain n where n: "map_of (wantedMembers p nodes) key = Some n" by blast
  obtain a where a: "n \<in> set nodes" "nodeAddress n = Inr a" "key = memberKey a p"
    using wantedMembers_Some [OF n] by blast
  let ?o = "\<lparr>mc_Address = a, mc_ProtocolPort = p, mc_Name = cutString (NodeName n) maxResourceNameLength,
     mc_SubnetID = lb_VipSubnetCidrID b\<rparr>"
  let ?fn = "bindG (mbCreate E k j ?o) (\<lambda>_. returnG ())"
  let ?f = "store (cloud w)"
  let ?I = "\<lambda>c. ok c \<and> store c = ?f"
  let ?J = "\<lambda>c. ok c \<and> (\<exists>m. store c = ?f(j := insert m (?f j)) \<and> endpoint m = (a, p) \<and> mb_ID m \<notin> mb_ID ` ?f j)"
  obtain x where "mutate E k (lb_ID b) ?fn w = (x, w')"
    using run True n a(2) by (auto simp: addMember_def dest: wrapG_inner)
  then have "?I (cloud w') \<or> ?J (cloud w')"
  proof (rule mutate_any [where I = ?I and J = ?J])
    show "?I (cloud w)" using ok by simp
    show "?I (cloud u')" if I: "?I (cloud u)" and step: "?fn u = (y, u')" "y \<noteq> Ok ()" for u y u'
    proof -
      obtain e where "members_Create E k j ?o (cloud u) = (Inl e, cloud u')"
        using step by (auto simp: mbCreate_def sdkCall_def bindG_def split: prod.splits res.splits sum.splits)
      then show ?thesis using I create_fails [of "cloud u" j ?o e "cloud u'"] by simp
    qed
    show "?J (cloud u')" if I: "?I (cloud u)" and step: "?fn u = (Ok (), u')" for u u'
    proof -
      obtain m where c: "members_Create E k j ?o (cloud u) = (Inr m, cloud u')"
        using step by (auto simp: mbCreate_def sdkCall_def bindG_def split: prod.splits res.splits sum.splits)
      then show ?thesis using I create_ok [OF _ c] by auto
    qed
    show "?J c'" if "?J c" "loadbalancers_Get E k (lb_ID b) c = (y, c')" for c y c'
      using that get_keeps [of c "lb_ID b" y c'] by auto
  qed
  then show ?thesis
  proof (elim disjE)
    assume "?I (cloud w')"
    then show ?thesis using mid midway_mono [OF mid(1) subset_insertI] by auto
  next
    assume "?J (cloud w')"
    then obtain m where m: "ok (cloud w')" "store (cloud w') = ?f(j := insert m (?f j))" "endpoint m = (a, p)" "mb_ID m \<notin> mb_ID ` ?f j"
      by blast
    have "serves p nodes a p" using a by (auto simp: serves_def)
    moreover have "mb_ID m \<notin> mb_ID ` S0" using m(4) mid(2) by blast
    ultimately have "midway p nodes (insert key K) S0 (insert m (?f j))"
      using midway_insert [OF mid(1), of a m ms] key True a(3) m(3,4) mid(3) by simp
    then show ?thesis using m mid(2) by auto
  qed
qed

lemma removeMember_any:
  assumes run: "removeMember E k b j (wantedMembers p nodes) (haveMembers ms) key w = (r, w')" and ok: "ok (cloud w)"
    and mid: "midway p nodes K S0 (store (cloud w) j)" "set ms = S0" "inj_on mb_ID S0"
  shows "ok (cloud w') \<and> midway p nodes K S0 (store (cloud w') j) \<and> (\<forall>j'. j' \<noteq> j \<longrightarrow> store (cloud w') j' = store (cloud w) j')"
proof (cases "map_of (wantedMembers p nodes) key = None \<and> map_of (haveMembers ms) key \<noteq> None")
  case False
  then have "w' = w" using run by (auto simp: removeMember_def split: option.splits)
  then show ?thesis using ok mid by simp
next
  case True
  then obtain i where i: "map_of (haveMembers ms) key = Some i" by blast
  let ?I = "\<lambda>c. ok c \<and> (store c = store (cloud w) \<or> store c = without_member j i (store (cloud w)))"
  obtain x where "mutate E k (lb_ID b) (mbDelete E k j i) w = (x, w')"
    using run True i by (auto simp: removeMember_def dest: ignoreNotFound_inner)
  then have "?I (cloud w') \<or> ?I (cloud w')"
  proof (rule mutate_any [where I = ?I and J = ?I])
    show "?I (cloud u')" if "?I (cloud u)" and "mbDelete E k j i u = (y, u')" for u y u'
      by (rule mbDelete_keeps [OF conjunct1 [OF that(1)] conjunct2 [OF that(1)] that(2)])
    then show "?I (cloud u')" if "?I (cloud u)" and "mbDelete E k j i u = (Ok (), u')" for u u'
      using that by blast
    show "?I c'" if "?I c" "loadbalancers_Get E k (lb_ID b) c = (y, c')" for c y c'
      using that get_keeps [of c "lb_ID b" y c'] by auto
  qed (use ok in simp)
  then have w': "?I (cloud w')" by (rule disjE)
  have "midway p nodes K S0 {m \<in> store (cloud w) j. mb_ID m \<noteq> i}"
    by (rule midway_remove [OF mid i conjunct1 [OF True]])
  then show ?thesis using w' mid(1) by auto
qed

text \<open>The two loops, and the whole.\<close>

lemma memberLoops_any:
  assumes run: "bindG (eachG (addMember E k b j p (wantedMembers p nodes) (haveMembers ms))
        (rangeOrder w (map fst (wantedMembers p nodes)))) (\<lambda>_.
      bindG (getG (\<lambda>w. rangeOrder w (map fst (haveMembers ms)))) (\<lambda>keys'.
      eachG (removeMember E k b j (wantedMembers p nodes) (haveMembers ms)) keys')) w = (r, w')"
    and ok: "ok (cloud w)" and ms: "set ms = store (cloud w) j"
    and inj: "inj_on mb_ID (store (cloud w) j)" "inj_on endpoint (store (cloud w) j)"
  shows "ok (cloud w') \<and> (\<exists>K. midway p nodes K (store (cloud w) j) (store (cloud w') j)) \<and>
    (\<forall>j'. j' \<noteq> j \<longrightarrow> store (cloud w') j' = store (cloud w) j')"
proof -
  let ?S0 = "store (cloud w) j"
  let ?frame = "\<lambda>u. ok (cloud u) \<and> (\<forall>j'. j' \<noteq> j \<longrightarrow> store (cloud u) j' = store (cloud w) j')"
  let ?A = "\<lambda>xs u. ?frame u \<and> midway p nodes (set xs) ?S0 (store (cloud u) j) \<and> ?S0 \<subseteq> store (cloud u) j"
  let ?R = "\<lambda>u. ?frame u \<and> (\<exists>K. midway p nodes K ?S0 (store (cloud u) j))"
  let ?keys = "rangeOrder w (map fst (wantedMembers p nodes))"
  have distinct: "distinct ?keys"
    using range_order [of w "map fst (wantedMembers p nodes)"] distinct_wanted [of p nodes] mset_eq_imp_distinct_iff by metis
  have adds: "\<exists>xs ys. ?keys = xs @ ys \<and> ?A xs u' \<and> (x = Ok () \<longrightarrow> ys = [])"
    if "eachG (addMember E k b j p (wantedMembers p nodes) (haveMembers ms)) ?keys w = (x, u')" for x u'
    using that
  proof (rule eachG_prefix)
    show "?A [] w" using ok inj by (simp add: midway_start)
    show "?A (xs @ [y]) v'" if split: "?keys = xs @ y # ys" and A: "?A xs v"
      and step: "addMember E k b j p (wantedMembers p nodes) (haveMembers ms) y v = (z, v')" for xs y ys v z v'
    proof -
      have "y \<notin> set xs" using distinct split by simp
      from addMember_any [OF step _ _ _ ms this] A show ?thesis by simp
    qed
  qed
  have removes: "?R u'" if "eachG (removeMember E k b j (wantedMembers p nodes) (haveMembers ms)) zs u = (x, u')" "?R u" for zs x u u'
  proof -
    have "\<exists>xs ys. zs = xs @ ys \<and> ?R u' \<and> (x = Ok () \<longrightarrow> ys = [])"
      using that(1)
    proof (rule eachG_prefix [where I = "\<lambda>_. ?R"])
      show "?R u" by (rule that(2))
      show "?R v'" if "?R v" and step: "removeMember E k b j (wantedMembers p nodes) (haveMembers ms) y v = (z, v')" for y v z v'
        using that(1) removeMember_any [OF step _ _ ms inj(1)] by fastforce
    qed
    then show ?thesis by blast
  qed
  from run have "?R w'"
  proof (cases rule: bindG_cases)
    case (ok u w1)
    then have "?R w1" using adds [OF ok(1)] by blast
    then show ?thesis using removes ok(2) by (simp add: bindG_getG)
  next
    case (fail e)
    then show ?thesis using adds [OF fail(1)] by blast
  next
    case (panic s)
    then show ?thesis using adds [OF panic(1)] by blast
  qed
  then show ?thesis by simp
qed

lemma reconcileMembers_any:
  assumes run: "reconcileMembers E k b j p nodes w = (r, w')" and ok: "ok (cloud w)"
    and inj: "inj_on mb_ID (store (cloud w) j)" "inj_on endpoint (store (cloud w) j)"
  shows "ok (cloud w') \<and> (\<exists>K. midway p nodes K (store (cloud w) j) (store (cloud w') j)) \<and>
    (\<forall>j'. j' \<noteq> j \<longrightarrow> store (cloud w') j' = store (cloud w) j')" (is "?Q w'")
proof (cases "p = 0")
  case True
  then have "w' = w" using run by (simp add: reconcileMembers_def failG_def)
  then show ?thesis using ok midway_start [OF inj] by blast
next
  case False
  have list: "ok (cloud w1) \<and> store (cloud w1) = store (cloud w) \<and> (\<forall>ms. x = Ok ms \<longrightarrow> set ms = store (cloud w) j)"
    if "listMembers E k j w = (x, w1)" for x w1
  proof -
    obtain y c where c: "members_List E k j (cloud w) = (y, c)" by (cases "members_List E k j (cloud w)")
    have "c = cloud w1 \<and> (\<forall>ms. x = Ok ms \<longrightarrow> y = Inr (Inr ms))"
    proof (cases y)
      case (Inr z)
      then show ?thesis
        using that c by (cases z) (auto simp: listMembers_def mbList_def sdkCall_def liftG_def bindG_def wrapG_def catchG_def returnG_def failG_def)
    qed (use that c in \<open>auto simp: listMembers_def mbList_def sdkCall_def bindG_def wrapG_def catchG_def failG_def\<close>)
    then have y: "members_List E k j (cloud w) = (y, cloud w1)" "\<forall>ms. x = Ok ms \<longrightarrow> y = Inr (Inr ms)" using c by simp_all
    then show ?thesis using list_keeps [OF ok y(1)] list_ok [OF ok] by auto
  qed
  from run [unfolded reconcileMembers_def Let_def if_not_P [OF False]] show ?thesis
  proof (cases rule: bindG_cases)
    case (ok ms w1)
    note ls = list [OF ok(1)]
    show ?thesis
    proof (cases "wantedMembers p nodes = []")
      case True
      then have "w' = w1" using ok(2) by (simp add: failG_def)
      then show ?thesis using ls midway_start [OF inj] by auto
    next
      case False
      then show ?thesis
        using ls memberLoops_any [of b j p nodes ms w1 r w'] ok(2) inj by (simp add: bindG_getG)
    qed
  next
    case (fail e)
    then show ?thesis using list [OF fail(1)] midway_start [OF inj] by auto
  next
    case (panic s)
    then show ?thesis using list [OF panic(1)] midway_start [OF inj] by auto
  qed
qed

end

subsection \<open>Properties\<close>

text \<open>
  C12: a synchronisation of members may stop anywhere, and does no harm. Whatever the result of
  \<open>reconcileMembers\<close> (an error of any call, a balancer that does not become active again, an expired wait),
  no member that serves a node is lost, every member that is new serves a node that had none, other pools
  are untouched, and ids and endpoints are as unique as before, so that the next synchronisation starts
  from a pool of the same kind and converges (\<open>members_converge\<close>).
\<close>

theorem members_survive_failure:
  assumes "member_store E k store ok" and "ok (cloud w)"
    and "inj_on mb_ID (store (cloud w) j)" and "inj_on endpoint (store (cloud w) j)"
    and "reconcileMembers E k b j p nodes w = (r, w')"
  shows "ok (cloud w') \<and> inj_on mb_ID (store (cloud w') j) \<and> inj_on endpoint (store (cloud w') j) \<and>
    {m \<in> store (cloud w) j. serves p nodes (mb_Address m) (mb_ProtocolPort m)} \<subseteq> store (cloud w') j \<and>
    (\<forall>m \<in> store (cloud w') j - store (cloud w) j. serves p nodes (mb_Address m) (mb_ProtocolPort m) \<and>
       (\<forall>m' \<in> store (cloud w) j. endpoint m' \<noteq> endpoint m \<and> mb_ID m' \<noteq> mb_ID m)) \<and>
    (\<forall>j'. j' \<noteq> j \<longrightarrow> store (cloud w') j' = store (cloud w) j')"
proof -
  obtain K where w': "ok (cloud w')" "\<forall>j'. j' \<noteq> j \<longrightarrow> store (cloud w') j' = store (cloud w) j'"
    and mid: "midway p nodes K (store (cloud w) j) (store (cloud w') j)"
    using member_store.reconcileMembers_any [OF assms(1,5,2-4)] by blast
  have new: "serves p nodes (mb_Address m) (mb_ProtocolPort m) \<and> (\<forall>m' \<in> store (cloud w) j. endpoint m' \<noteq> endpoint m \<and> mb_ID m' \<noteq> mb_ID m)"
    if m: "m \<in> store (cloud w') j - store (cloud w) j" for m
  proof -
    have s: "serves p nodes (mb_Address m) (mb_ProtocolPort m)" and i: "mb_ID m \<notin> mb_ID ` store (cloud w) j"
      using midwayD(4) [OF mid, of m] m by auto
    have "endpoint m' \<noteq> endpoint m" if m': "m' \<in> store (cloud w) j" for m'
    proof
      assume same: "endpoint m' = endpoint m"
      then have "m' \<in> store (cloud w') j" using midwayD(3) [OF mid m'] s by (simp add: endpoint_def)
      then have "m' = m" using midwayD(2) [OF mid] same m by (auto dest: inj_onD)
      then show False using m m' by simp
    qed
    moreover have "mb_ID m' \<noteq> mb_ID m" if "m' \<in> store (cloud w) j" for m' using i that by (metis imageI)
    ultimately show ?thesis using s by blast
  qed
  show ?thesis
    using w' midwayD(1,2,3) [OF mid] new by auto
qed

text \<open>A balancer that is not there: the first change is made, the wait after it fails.\<close>

definition lostBalancer :: BalancerObj where
  "lostBalancer = testBalancer\<lparr>lb_ID := ''lb-9''\<rparr>"

lemma lostBalancer_run:
  "\<exists>w' e. reconcileMembers fake_env ElbClient lostBalancer ''p'' 30080 liveNodes (world_of staleState) = (Fail e, w') \<and>
     endpoint ` fake_store (cloud w') ''p'' = {(''10.0.0.9'', 30080), (''10.0.0.1'', 30080)}"
  by (simp add: run lostBalancer_def testBalancer_def staleState_def liveNodes_def fake_store_def endpoint_def)

theorem members_survive_failure_witness:
  "\<exists>w' e m. reconcileMembers fake_env ElbClient lostBalancer ''p'' 30080 liveNodes (world_of staleState) = (Fail e, w') \<and>
     m \<in> fake_store (cloud w') ''p'' - fake_store staleState ''p'' \<and> endpoint m = (''10.0.0.1'', 30080) \<and>
     inj_on endpoint (fake_store (cloud w') ''p'')"
proof -
  have ok: "fake_ok ''lb-1'' ''p'' (cloud (world_of staleState))" and inj:
    "inj_on mb_ID (fake_store (cloud (world_of staleState)) ''p'')"
    "inj_on endpoint (fake_store (cloud (world_of staleState)) ''p'')"
    by (simp_all add: world_of_def staleState_facts)
  obtain w' e where run: "reconcileMembers fake_env ElbClient lostBalancer ''p'' 30080 liveNodes (world_of staleState) = (Fail e, w')"
    and ends: "endpoint ` fake_store (cloud w') ''p'' = {(''10.0.0.9'', 30080), (''10.0.0.1'', 30080)}"
    using lostBalancer_run by blast
  obtain m where m: "m \<in> fake_store (cloud w') ''p''" "endpoint m = (''10.0.0.1'', 30080)"
  proof -
    have "(''10.0.0.1'', 30080) \<in> endpoint ` fake_store (cloud w') ''p''" unfolding ends by simp
    then show thesis by (rule imageE) (rule that, assumption, rule sym)
  qed
  have old: "endpoint ` fake_store staleState ''p'' = {(''10.0.0.9'', 30080)}"
    by (simp add: staleState_def fake_store_def endpoint_def)
  have "m \<notin> fake_store staleState ''p''"
  proof
    assume "m \<in> fake_store staleState ''p''"
    then have "endpoint m \<in> endpoint ` fake_store staleState ''p''" by (rule imageI)
    then show False unfolding old m(2) by simp
  qed
  moreover have "inj_on endpoint (fake_store (cloud w') ''p'')"
    using members_survive_failure [OF fake_members.member_store_axioms ok inj run] by (elim conjE)
  ultimately show ?thesis using run m by blast
qed

end
