(* ===== verification/Elb_Ensure.thy ===== *)
theory Elb_Ensure
  imports Elb_Teardown Elb_Members
begin

section \<open>What a reconciliation may touch\<close>

text \<open>
  The policy of \<open>EnsureLoadBalancer\<close>: which calls it may make given what the cloud has answered so
  far, and the lemmas, one per operation, that say each operation follows it. The theory is about any
  cloud and any \<open>wait\<close> package with its contract.
\<close>

subsection \<open>More rules\<close>

lemma follows_sdkCall: "(\<And>S r. H \<subseteq> S \<Longrightarrow> J S (ev r)) \<Longrightarrow> follows J H (sdkCall f ev)"
  by (rule follows_emits [where A = "\<lambda>e. \<exists>r. e = ev r"]) (auto intro: emits_sdkCall)

lemma follows_call: "(\<And>S r. H \<subseteq> S \<Longrightarrow> J S (ev r)) \<Longrightarrow> follows J H (bindG (sdkCall f ev) (\<lambda>_. returnG ()))"
  by (intro follows_bind follows_sdkCall follows_return)

lemma obeys_weaken_in: "obeys J S es \<Longrightarrow> H \<subseteq> S \<Longrightarrow> (\<And>S e. H \<subseteq> S \<Longrightarrow> J S e \<Longrightarrow> J' S e) \<Longrightarrow> obeys J' S es"
  by (induction es arbitrary: S) auto

lemma follows_weaken_in:
  assumes "follows J H m" and J: "\<And>S e. H \<subseteq> S \<Longrightarrow> J S e \<Longrightarrow> J' S e"
  shows "follows J' H m"
proof (rule followsI)
  fix w r w'
  assume H: "H \<subseteq> set (trace w)" and run: "m w = (r, w')"
  obtain es where es: "trace w' = trace w @ es" "obeys J (set (trace w)) es"
    using assms(1) run H by (rule followsE)
  show "\<exists>es. trace w' = trace w @ es \<and> obeys J' (set (trace w)) es"
  proof (intro exI conjI)
    show "trace w' = trace w @ es" by (rule es(1))
    show "obeys J' (set (trace w)) es" using es(2) H by (rule obeys_weaken_in) (rule J)
  qed
qed

lemma follows_result_bind:
  assumes m: "follows J H m" and q: "\<And>w x w'. H \<subseteq> set (trace w) \<Longrightarrow> m w = (Ok x, w') \<Longrightarrow> Q x (set (trace w'))"
    and f: "\<And>x H'. H \<subseteq> H' \<Longrightarrow> Q x H' \<Longrightarrow> follows J H' (f x)"
  shows "follows J H (bindG m f)"
proof (rule followsI)
  fix w r w'
  assume H: "H \<subseteq> set (trace w)" and run: "bindG m f w = (r, w')"
  from run show "\<exists>es. trace w' = trace w @ es \<and> obeys J (set (trace w)) es"
  proof (cases rule: bindG_cases)
    case (ok x w1)
    obtain es where es: "trace w1 = trace w @ es" "obeys J (set (trace w)) es"
      using m ok(1) H by (rule followsE)
    have "follows J (set (trace w1)) (f x)"
      by (rule f) (use H es q [OF H ok(1)] in auto)
    then obtain es' where "trace w' = trace w1 @ es'" "obeys J (set (trace w1)) es'"
      using ok(2) by (rule followsE) simp
    then show ?thesis using es by (intro exI [of _ "es @ es'"]) (simp add: obeys_append)
  qed (use m H in \<open>blast elim: followsE\<close>)+
qed

text \<open>
  \<open>maintains J H I m\<close>: like \<open>follows\<close>, for a run that starts and ends with \<open>I\<close>, a condition on the world
  that the variables the retried closures assign may enter.
\<close>

definition maintains ::
  "(call set \<Rightarrow> call \<Rightarrow> bool) \<Rightarrow> call set \<Rightarrow> ('c world \<Rightarrow> bool) \<Rightarrow> ('c world, 'a) go \<Rightarrow> bool" where
  "maintains J H I m \<longleftrightarrow> (\<forall>w r w'. H \<subseteq> set (trace w) \<longrightarrow> I w \<longrightarrow> m w = (r, w') \<longrightarrow>
     I w' \<and> (\<exists>es. trace w' = trace w @ es \<and> obeys J (set (trace w)) es))"

lemma maintainsI:
  "(\<And>w r w'. H \<subseteq> set (trace w) \<Longrightarrow> I w \<Longrightarrow> m w = (r, w') \<Longrightarrow>
     I w' \<and> (\<exists>es. trace w' = trace w @ es \<and> obeys J (set (trace w)) es)) \<Longrightarrow> maintains J H I m"
  by (simp add: maintains_def)

lemma maintainsE:
  assumes "maintains J H I m" and "m w = (r, w')" and "H \<subseteq> set (trace w)" and "I w"
  obtains es where "I w'" and "trace w' = trace w @ es" and "obeys J (set (trace w)) es"
  using assms unfolding maintains_def by blast

lemma maintains_return: "maintains J H I (returnG x)"
  by (auto intro!: maintainsI)

lemma maintains_fail: "maintains J H I (failG e)"
  by (auto intro!: maintainsI)

lemma maintains_bind:
  assumes m: "maintains J H I m" and f: "\<And>x. maintains J H I (f x)"
  shows "maintains J H I (bindG m f)"
proof (rule maintainsI)
  fix w r w'
  assume H: "H \<subseteq> set (trace w)" and I: "I w" and run: "bindG m f w = (r, w')"
  from run show "I w' \<and> (\<exists>es. trace w' = trace w @ es \<and> obeys J (set (trace w)) es)"
  proof (cases rule: bindG_cases)
    case (ok x w1)
    obtain es where es: "I w1" "trace w1 = trace w @ es" "obeys J (set (trace w)) es"
      using m ok(1) H I by (rule maintainsE)
    obtain es' where "I w'" "trace w' = trace w1 @ es'" "obeys J (set (trace w1)) es'"
      using f ok(2) by (rule maintainsE) (use H es in auto)
    then show ?thesis using es by (intro conjI exI [of _ "es @ es'"]) (simp_all add: obeys_append)
  qed (use m H I in \<open>blast elim: maintainsE\<close>)+
qed

lemma maintains_catch:
  assumes m: "maintains J H I m" and h: "\<And>e. maintains J H I (h e)"
  shows "maintains J H I (catchG m h)"
proof (rule maintainsI)
  fix w r w'
  assume H: "H \<subseteq> set (trace w)" and I: "I w" and run: "catchG m h w = (r, w')"
  obtain r1 w1 where m1: "m w = (r1, w1)" by (cases "m w")
  obtain es where es: "I w1" "trace w1 = trace w @ es" "obeys J (set (trace w)) es"
    using m m1 H I by (rule maintainsE)
  show "I w' \<and> (\<exists>es. trace w' = trace w @ es \<and> obeys J (set (trace w)) es)"
  proof (cases r1)
    case (Fail e)
    then have run': "h e w1 = (r, w')" using run m1 by (simp add: catchG_def)
    obtain es' where "I w'" "trace w' = trace w1 @ es'" "obeys J (set (trace w1)) es'"
      using h run' by (rule maintainsE) (use H es in auto)
    then show ?thesis using es by (intro conjI exI [of _ "es @ es'"]) (simp_all add: obeys_append)
  qed (use run m1 es in \<open>auto simp: catchG_def\<close>)
qed

lemma maintains_attempts: "maintains J H I cond \<Longrightarrow> maintains J H I (attempts n e cond)"
  by (induction n) (auto intro!: maintains_fail maintains_bind maintains_return)

lemma follows_of_maintains:
  assumes m: "maintains J H I m" and f: "\<And>w. trace (f w) = trace w" "\<And>w. H \<subseteq> set (trace w) \<Longrightarrow> I (f w)"
  shows "follows J H (bindG (modifyG f) (\<lambda>_. m))"
proof (rule followsI)
  fix w r w'
  assume H: "H \<subseteq> set (trace w)" and "bindG (modifyG f) (\<lambda>_. m) w = (r, w')"
  then have run: "m (f w) = (r, w')" by (simp add: bindG_Ok)
  obtain es where "trace w' = trace (f w) @ es" "obeys J (set (trace (f w))) es"
    using m run by (rule maintainsE) (use f H in auto)
  then show "\<exists>es. trace w' = trace w @ es \<and> obeys J (set (trace w)) es"
    using f(1) by auto
qed

context wait_contract begin

lemma maintains_retry:
  assumes "maintains J H I fn"
  shows "maintains J H I (retryOnConflict E i fn)"
proof (rule maintainsI)
  fix w r w'
  assume H: "H \<subseteq> set (trace w)" "I w" and run: "retryOnConflict E i fn w = (r, w')"
  obtain n e where attempt: "attempts n e (retryCond fn) w = (r, w')"
    using run by (rule retryE)
  have "maintains J H I (retryCond fn)"
    unfolding retryCond_def
    by (rule maintains_catch [OF maintains_bind [OF assms]]) (simp_all add: maintains_return maintains_fail)
  then have "maintains J H I (attempts n e (retryCond fn))" by (rule maintains_attempts)
  then obtain es where "I w'" "trace w' = trace w @ es" "obeys J (set (trace w)) es"
    using attempt H by (rule maintainsE)
  then show "I w' \<and> (\<exists>es. trace w' = trace w @ es \<and> obeys J (set (trace w)) es)"
    by blast
qed

lemma maintains_active:
  assumes "\<And>S e. read_only e \<Longrightarrow> J S e"
    and I: "\<And>w w'. I w \<Longrightarrow> v_pool w' = v_pool w \<Longrightarrow> v_listener w' = v_listener w \<Longrightarrow>
      set (trace w) \<subseteq> set (trace w') \<Longrightarrow> I w'"
  shows "maintains J H I (waitForActive E k i)"
proof (rule maintainsI)
  fix w r w'
  assume H: "H \<subseteq> set (trace w)" "I w" and run: "waitForActive E k i w = (r, w')"
  obtain es where es: "trace w' = trace w @ es" "\<forall>e \<in> set es. read_only e"
    using active_reads run by (rule emitsD)
  show "I w' \<and> (\<exists>es. trace w' = trace w @ es \<and> obeys J (set (trace w)) es)"
  proof (intro conjI exI)
    show "I w'" by (rule I, rule H(2)) (use active_vars [OF run] es(1) in auto)
    show "trace w' = trace w @ es" by (rule es(1))
    show "obeys J (set (trace w)) es" by (rule obeys_all, rule assms(1)) (use es(2) in blast)
  qed
qed

lemma maintains_mutate:
  assumes "maintains J H I fn" and "\<And>S e. read_only e \<Longrightarrow> J S e"
    and "\<And>w w'. I w \<Longrightarrow> v_pool w' = v_pool w \<Longrightarrow> v_listener w' = v_listener w \<Longrightarrow>
      set (trace w) \<subseteq> set (trace w') \<Longrightarrow> I w'"
  shows "maintains J H I (mutate E k i fn)"
  unfolding mutate_def
  by (rule maintains_bind, rule maintains_retry, rule assms(1), rule maintains_active, erule assms(2), rule assms(3))

end


subsection \<open>What a run works on\<close>

text \<open>
  The balancer: the one found, or one just created. The listener of a port: the last one with the port's
  key in a list of that balancer, or one created for the port. The pool of a listener: the default pool
  the listener names, one created for it, or what an update of such a pool returned.
\<close>

definition served :: "serviceSettings \<Rightarrow> string \<Rightarrow> call set \<Rightarrow> BalancerObj \<Rightarrow> bool" where
  "served settings name S b \<longleftrightarrow> the_balancer settings name S b \<or> (\<exists>o1. LbCreate o1 (Inr b) \<in> S)"

definition shown :: "serviceSettings \<Rightarrow> string \<Rightarrow> call set \<Rightarrow> ListenerObj list \<Rightarrow> bool" where
  "shown settings name S ls \<longleftrightarrow> (\<exists>b. served settings name S b \<and> LsList (lb_ID b) (Inr (Inr ls)) \<in> S)"

definition created_for :: "string \<Rightarrow> ServicePort \<Rightarrow> call set \<Rightarrow> ListenerObj \<Rightarrow> bool" where
  "created_for name port S l \<longleftrightarrow> (\<exists>o1. LsCreate o1 (Inr l) \<in> S \<and> nc_Name o1 = resourceName name port \<and>
     nc_Protocol o1 = Protocol port \<and> nc_ProtocolPort o1 = Port port)"

definition working :: "serviceSettings \<Rightarrow> string \<Rightarrow> Service \<Rightarrow> call set \<Rightarrow> ServicePort \<Rightarrow> ListenerObj \<Rightarrow> bool" where
  "working settings name service S port l \<longleftrightarrow> port \<in> set (Ports service) \<and>
     ((\<exists>ls. shown settings name S ls \<and> listenersByKey ls (portKey port) = Some l) \<or> created_for name port S l)"

definition stale :: "serviceSettings \<Rightarrow> string \<Rightarrow> Service \<Rightarrow> call set \<Rightarrow> ListenerObj \<Rightarrow> bool" where
  "stale settings name service S l \<longleftrightarrow> (\<exists>ls. shown settings name S ls \<and> l \<in> set ls) \<and>
     owned name (ls_Name l) \<and> listenerKey l \<notin> set (map portKey (Ports service))"

inductive pool_from :: "call set \<Rightarrow> ListenerObj \<Rightarrow> PoolObj \<Rightarrow> bool" for S l where
  named: "ls_DefaultPoolID l \<noteq> '''' \<Longrightarrow> PlGet (ls_DefaultPoolID l) (Inr p) \<in> S \<Longrightarrow> pool_from S l p"
| created: "ls_DefaultPoolID l = '''' \<Longrightarrow> PlCreate o1 (Inr p) \<in> S \<Longrightarrow> pc_ListenerID o1 = ls_ID l \<Longrightarrow> pool_from S l p"
| updated: "pool_from S l q \<Longrightarrow> PlUpdate (pl_ID q) o2 (Some p, e) \<in> S \<Longrightarrow> pool_from S l p"

definition working_pool :: "serviceSettings \<Rightarrow> string \<Rightarrow> Service \<Rightarrow> call set \<Rightarrow> ServicePort \<Rightarrow> PoolObj \<Rightarrow> bool" where
  "working_pool settings name service S port p \<longleftrightarrow> (\<exists>l. working settings name service S port l \<and> pool_from S l p)"

definition own_group :: "string \<Rightarrow> ServicePort \<Rightarrow> call set \<Rightarrow> ListenerObj \<Rightarrow> string \<Rightarrow> bool" where
  "own_group name port S l i \<longleftrightarrow>
     (\<exists>g. IgGet (ls_IpGroupID l) (Inr g) \<in> S \<and> ig_Name g = resourceName name port \<and> (i = ig_ID g \<or> i = ls_IpGroupID l)) \<or>
     (\<exists>o1 g. IgCreate o1 (Inr g) \<in> S \<and> gc_Name o1 = resourceName name port \<and> i = ig_ID g)"

text \<open>A listener without a group: none is attached, or the attached one was not found. A group that has to
  be enabled: it is not, or it was just created.\<close>

definition no_group :: "call set \<Rightarrow> ListenerObj \<Rightarrow> bool" where
  "no_group S l \<longleftrightarrow> ls_IpGroupID l = '''' \<or> (\<exists>e. IgGet (ls_IpGroupID l) (Inl e) \<in> S \<and> isNotFound e)"

definition to_enable :: "call set \<Rightarrow> ListenerObj \<Rightarrow> string \<Rightarrow> bool" where
  "to_enable S l i \<longleftrightarrow> ls_IpGroupEnable l \<noteq> Some True \<or> (\<exists>o1 g. IgCreate o1 (Inr g) \<in> S \<and> ig_ID g = i)"

text \<open>The differences that call for an update: of a pool as it was read, and of a monitor as it was read.\<close>

definition pool_differs :: "serviceSettings \<Rightarrow> Service \<Rightarrow> PoolObj \<Rightarrow> bool" where
  "pool_differs settings service p \<longleftrightarrow> pl_LBMethod p \<noteq> LBAlgorithm settings \<or>
     (desiredPersistence service \<noteq> None \<and> \<not> persistenceEqual (pl_Persistence p) (desiredPersistence service))"

definition other_kind :: "serviceSettings \<Rightarrow> Service \<Rightarrow> ServicePort \<Rightarrow> MonitorObj \<Rightarrow> bool" where
  "other_kind settings service port x \<longleftrightarrow> mo_Type x \<noteq> pr_Type (desiredProbe settings service port) \<or>
     mo_MonitorPort x \<noteq> pr_Port (desiredProbe settings service port)"

definition other_values :: "serviceSettings \<Rightarrow> Service \<Rightarrow> ServicePort \<Rightarrow> MonitorObj \<Rightarrow> bool" where
  "other_values settings service port x \<longleftrightarrow> \<not> (mo_Delay x = HealthCheckDelay settings \<and>
     mo_Timeout x = HealthCheckTimeout settings \<and> mo_MaxRetries x = HealthCheckMaxRetries settings \<and>
     mo_URLPath x = pr_URLPath (desiredProbe settings service port) \<and>
     mo_HTTPMethod x = pr_HTTPMethod (desiredProbe settings service port))"

abbreviation ranges :: "Service \<Rightarrow> string list" where
  "ranges service \<equiv> normalizeRanges (LoadBalancerSourceRanges service)"

subsection \<open>The policy\<close>

fun ensure_policy :: "serviceSettings \<Rightarrow> string \<Rightarrow> Service \<Rightarrow> Node list \<Rightarrow> call set \<Rightarrow> call \<Rightarrow> bool" where
  "ensure_policy settings name service nodes S (LbCreate o1 _) \<longleftrightarrow>
     LoadBalancerID settings = '''' \<and> no_balancer settings name S \<and> lc_Name o1 = name \<and>
     SubnetID settings \<noteq> '''' \<and> lc_VipSubnetCidrID o1 = SubnetID settings \<and>
     AvailabilityZones settings \<noteq> [] \<and> lc_AvailabilityZoneList o1 = AvailabilityZones settings"
| "ensure_policy settings name service nodes S (LbDelete _ _) \<longleftrightarrow> False"
| "ensure_policy settings name service nodes S (EipDelete _ _) \<longleftrightarrow> False"
| "ensure_policy settings name service nodes S (LsCreate o1 _) \<longleftrightarrow>
     (\<exists>b ls port. served settings name S b \<and> nc_LoadbalancerID o1 = lb_ID b \<and> LsList (lb_ID b) (Inr (Inr ls)) \<in> S \<and>
        port \<in> set (Ports service) \<and> listenersByKey ls (portKey port) = None \<and>
        nc_Name o1 = resourceName name port \<and> nc_Protocol o1 = Protocol port \<and> nc_ProtocolPort o1 = Port port)"
| "ensure_policy settings name service nodes S (LsUpdate i o1 _) \<longleftrightarrow>
     (\<exists>port l. working settings name service S port l \<and> ls_ID l = i \<and>
        (case nu_IpGroup o1 of
           None \<Rightarrow> IdleTimeout settings > 0 \<and> nu_KeepAliveTimeout o1 = IdleTimeout settings
         | Some u \<Rightarrow> nu_KeepAliveTimeout o1 = 0 \<and> own_group name port S l (iu_IpGroupId u) \<and>
             (if ranges service \<noteq> [] then iu_Enable u \<and> to_enable S l (iu_IpGroupId u)
              else \<not> iu_Enable u \<and> ls_IpGroupEnable l = Some True)))"
| "ensure_policy settings name service nodes S (IgCreate o1 _) \<longleftrightarrow>
     (\<exists>port l. working settings name service S port l \<and> gc_Name o1 = resourceName name port \<and> no_group S l) \<and>
     ranges service \<noteq> [] \<and> gc_IpList o1 = ipList (ranges service)"
| "ensure_policy settings name service nodes S (IgUpdate i ips _) \<longleftrightarrow>
     (\<exists>port l g. working settings name service S port l \<and> IgGet (ls_IpGroupID l) (Inr g) \<in> S \<and>
        ig_Name g = resourceName name port \<and> ig_ID g = i \<and> \<not> ipListEqual (ig_IpList g) (ranges service)) \<and>
     ranges service \<noteq> [] \<and> ips = ipList (ranges service)"
| "ensure_policy settings name service nodes S (PlCreate o1 _) \<longleftrightarrow>
     (\<exists>port l. working settings name service S port l \<and> ls_DefaultPoolID l = '''' \<and>
        pc_ListenerID o1 = ls_ID l \<and> pc_Name o1 = resourceName name port)"
| "ensure_policy settings name service nodes S (PlUpdate i o1 _) \<longleftrightarrow>
     (\<exists>port l p q. working settings name service S port l \<and> pool_from S l p \<and> pl_ID p = i \<and>
        PlGet (ls_DefaultPoolID l) (Inr q) \<in> S \<and> pool_differs settings service q) \<and>
     pu_LBMethod o1 = LBAlgorithm settings \<and> pu_Persistence o1 = desiredPersistence service"
| "ensure_policy settings name service nodes S (MbCreate j o1 r) \<longleftrightarrow>
     (\<exists>port p. working_pool settings name service S port p \<and> members_policy (pl_ID p) (NodePort port) nodes S (MbCreate j o1 r))"
| "ensure_policy settings name service nodes S (MbDelete j i r) \<longleftrightarrow>
     (\<exists>port p. working_pool settings name service S port p \<and> members_policy (pl_ID p) (NodePort port) nodes S (MbDelete j i r)) \<or>
     teardown (stale settings name service) name S (MbDelete j i r)"
| "ensure_policy settings name service nodes S (MoCreate o1 _) \<longleftrightarrow> HealthCheckEnabled settings \<and>
     (\<exists>port p. working_pool settings name service S port p \<and> oc_PoolID o1 = pl_ID p \<and>
        (pl_MonitorID p = '''' \<or> (\<exists>x r. MoGet (pl_MonitorID p) (Inr x) \<in> S \<and> other_kind settings service port x \<and>
           MoDelete (pl_MonitorID p) r \<in> S \<and> gone r)))"
| "ensure_policy settings name service nodes S (MoUpdate i _ _) \<longleftrightarrow> HealthCheckEnabled settings \<and>
     (\<exists>port p x. working_pool settings name service S port p \<and> pl_MonitorID p = i \<and> MoGet i (Inr x) \<in> S \<and>
        \<not> other_kind settings service port x \<and> other_values settings service port x)"
| "ensure_policy settings name service nodes S (MoDelete i r) \<longleftrightarrow>
     (\<exists>port p. working_pool settings name service S port p \<and> pl_MonitorID p = i \<and>
        (\<not> HealthCheckEnabled settings \<or> (\<exists>x. MoGet i (Inr x) \<in> S \<and> other_kind settings service port x))) \<or>
     teardown (stale settings name service) name S (MoDelete i r)"
| "ensure_policy settings name service nodes S e \<longleftrightarrow> teardown (stale settings name service) name S e"

lemma ensure_reads: "read_only e \<Longrightarrow> ensure_policy settings name service nodes S e"
  by (cases e) simp_all

lemma ensure_teardown: "teardown (stale settings name service) name S e \<Longrightarrow> ensure_policy settings name service nodes S e"
  by (cases e) simp_all

lemma no_balancer_mono: "no_balancer settings name S \<Longrightarrow> S \<subseteq> S' \<Longrightarrow> no_balancer settings name S'"
  by (auto simp: no_balancer_def)

lemma served_mono: "served settings name S b \<Longrightarrow> S \<subseteq> S' \<Longrightarrow> served settings name S' b"
  unfolding served_def by (blast intro: the_balancer_mono)

lemma shown_mono: "shown settings name S ls \<Longrightarrow> S \<subseteq> S' \<Longrightarrow> shown settings name S' ls"
  unfolding shown_def by (blast intro: served_mono)

lemma created_for_mono: "created_for name port S l \<Longrightarrow> S \<subseteq> S' \<Longrightarrow> created_for name port S' l"
  unfolding created_for_def by blast

lemma working_mono: "working settings name service S port l \<Longrightarrow> S \<subseteq> S' \<Longrightarrow> working settings name service S' port l"
  unfolding working_def by (blast intro: shown_mono created_for_mono)

lemma stable_stale: "stable (stale settings name service)"
  unfolding stable_def stale_def by (blast intro: shown_mono)

lemma pool_from_mono: "pool_from S l p \<Longrightarrow> S \<subseteq> S' \<Longrightarrow> pool_from S' l p"
  by (induction rule: pool_from.induct) (blast intro: pool_from.intros)+

lemma working_pool_mono:
  "working_pool settings name service S port p \<Longrightarrow> S \<subseteq> S' \<Longrightarrow> working_pool settings name service S' port p"
  unfolding working_pool_def by (blast intro: working_mono pool_from_mono)

lemma own_group_mono: "own_group name port S l i \<Longrightarrow> S \<subseteq> S' \<Longrightarrow> own_group name port S' l i"
  unfolding own_group_def by blast

lemma no_group_mono: "no_group S l \<Longrightarrow> S \<subseteq> S' \<Longrightarrow> no_group S' l"
  unfolding no_group_def by blast

lemma to_enable_mono: "to_enable S l i \<Longrightarrow> S \<subseteq> S' \<Longrightarrow> to_enable S' l i"
  unfolding to_enable_def by blast

lemma own_got: "IgGet (ls_IpGroupID l) (Inr g) \<in> S \<Longrightarrow> ig_Name g = resourceName name port \<Longrightarrow>
   own_group name port S l (ig_ID g) \<and> own_group name port S l (ls_IpGroupID l)"
  unfolding own_group_def by blast

lemma own_created: "IgCreate o1 (Inr g) \<in> S \<Longrightarrow> gc_Name o1 = resourceName name port \<Longrightarrow> own_group name port S l (ig_ID g)"
  unfolding own_group_def by blast

lemmas history_mono = the_balancer_mono served_mono shown_mono working_mono pool_from_mono working_pool_mono own_group_mono


subsection \<open>The operations\<close>

context wait_contract begin

lemma ensure_follows_reads: "emits read_only m \<Longrightarrow> follows (ensure_policy settings name service nodes) H m"
  by (erule follows_emits) (rule ensure_reads)

text \<open>The shape of a change: one call, retried, then a wait for the balancer.\<close>

lemma ensure_change:
  assumes "\<And>S r. H \<subseteq> S \<Longrightarrow> ensure_policy settings name service nodes S (ev r)"
  shows "follows (ensure_policy settings name service nodes) H (mutate E k i (bindG (sdkCall f ev) (\<lambda>_. returnG ())))"
  by (rule follows_mutate, rule follows_call, erule assms, rule ensure_reads)

lemma ensure_delete:
  assumes "\<And>S r. H \<subseteq> S \<Longrightarrow> ensure_policy settings name service nodes S (ev r)"
  shows "follows (ensure_policy settings name service nodes) H (ignoreNotFound fmt args (mutate E k i (sdkCall f ev)))"
  by (rule follows_ignoreNotFound, rule follows_mutate, rule follows_sdkCall, erule assms, rule ensure_reads)

lemma attachIPGroup_follows:
  assumes l: "working settings name service H port l" and g: "own_group name port H l i" and r: "ranges service \<noteq> []"
    and t: "to_enable H l i"
  shows "follows (ensure_policy settings name service nodes) H (attachIPGroup E k lbID (ls_ID l) i)"
  unfolding attachIPGroup_def lsUpdate_def
proof (rule follows_wrap, rule ensure_change)
  fix S x assume S: "H \<subseteq> S"
  show "ensure_policy settings name service nodes S (LsUpdate (ls_ID l) \<lparr>nu_KeepAliveTimeout = 0,
      nu_IpGroup = Some \<lparr>iu_IpGroupId = i, iu_Enable = True, iu_Type = ''white''\<rparr>\<rparr> x)"
    using working_mono [OF l S] own_group_mono [OF g S] to_enable_mono [OF t S] r
    by (auto intro!: exI [of _ port] exI [of _ l])
qed

lemma createGroup_follows:
  assumes l: "working settings name service H port l" and r: "ranges service \<noteq> []" and n: "no_group H l"
  shows "follows (ensure_policy settings name service nodes) H
    (bindG (wrapG fmt args (igCreate E k \<lparr>gc_Name = resourceName name port, gc_Description = d,
       gc_IpList = ipList (ranges service)\<rparr>)) (\<lambda>grp. attachIPGroup E k lbID (ls_ID l) (ig_ID grp)))"
proof (rule follows_known_bind)
  let ?o = "\<lparr>gc_Name = resourceName name port, gc_Description = d, gc_IpList = ipList (ranges service)\<rparr>"
  show "follows (ensure_policy settings name service nodes) H (wrapG fmt args (igCreate E k ?o))"
    unfolding igCreate_def
  proof (rule follows_wrap, rule follows_sdkCall)
    fix S x assume "H \<subseteq> S"
    then show "ensure_policy settings name service nodes S (IgCreate ?o x)"
      unfolding ensure_policy.simps using working_mono [OF l] no_group_mono [OF n] r
      by (intro conjI exI [of _ port] exI [of _ l]) simp_all
  qed
  show "known (wrapG fmt args (igCreate E k ?o)) (\<lambda>g S. IgCreate ?o (Inr g) \<in> S)"
    unfolding igCreate_def by (rule known_wrap, rule known_sdkCall)
  fix g H1 assume "H \<subseteq> H1" and "IgCreate ?o (Inr g) \<in> H1"
  then have "own_group name port H1 l (ig_ID g)" "to_enable H1 l (ig_ID g)"
    using own_created unfolding to_enable_def by fastforce+
  then show "follows (ensure_policy settings name service nodes) H1 (attachIPGroup E k lbID (ls_ID l) (ig_ID g))"
    using working_mono [OF l \<open>H \<subseteq> H1\<close>] r by (intro attachIPGroup_follows)
qed

lemma updateGroup_follows:
  assumes l: "working settings name service H port l" and r: "ranges service \<noteq> []"
    and g: "IgGet (ls_IpGroupID l) (Inr g) \<in> H" "ig_Name g = resourceName name port"
  shows "follows (ensure_policy settings name service nodes) H
    (bindG (if ipListEqual (ig_IpList g) (ranges service) then returnG ()
            else wrapG fmt args (retryOnConflict E lbID (igUpdate E k (ig_ID g) (ipList (ranges service))))) (\<lambda>_.
     if ls_IpGroupEnable l \<noteq> Some True then attachIPGroup E k lbID (ls_ID l) (ig_ID g) else returnG ()))"
proof (rule follows_bind)
  have "follows (ensure_policy settings name service nodes) H (igUpdate E k (ig_ID g) (ipList (ranges service)))"
    if "\<not> ipListEqual (ig_IpList g) (ranges service)"
    unfolding igUpdate_def
  proof (rule follows_sdkCall)
    fix S x assume "H \<subseteq> S"
    then show "ensure_policy settings name service nodes S (IgUpdate (ig_ID g) (ipList (ranges service)) x)"
      using working_mono [OF l] g r that unfolding ensure_policy.simps by blast
  qed
  then show "follows (ensure_policy settings name service nodes) H (if ipListEqual (ig_IpList g) (ranges service) then returnG ()
            else wrapG fmt args (retryOnConflict E lbID (igUpdate E k (ig_ID g) (ipList (ranges service)))))"
    by (simp add: follows_return follows_wrap follows_retry)
  fix H1 assume H1: "H \<subseteq> H1"
  show "follows (ensure_policy settings name service nodes) H1
      (if ls_IpGroupEnable l \<noteq> Some True then attachIPGroup E k lbID (ls_ID l) (ig_ID g) else returnG ())"
    using attachIPGroup_follows [OF working_mono [OF l H1] own_group_mono [OF _ H1] r] own_got [OF g]
    by (simp add: follows_return to_enable_def)
qed

lemma disableGroup_follows:
  assumes l: "working settings name service H port l" and g: "own_group name port H l (ls_IpGroupID l)" and r: "ranges service = []"
    and t: "ls_IpGroupEnable l = Some True"
  shows "follows (ensure_policy settings name service nodes) H
    (wrapG fmt args (mutate E k lbID (bindG (lsUpdate E k (ls_ID l) \<lparr>nu_KeepAliveTimeout = 0,
       nu_IpGroup = Some \<lparr>iu_IpGroupId = ls_IpGroupID l, iu_Enable = False, iu_Type = ''''\<rparr>\<rparr>) (\<lambda>_. returnG ()))))"
  unfolding lsUpdate_def
proof (rule follows_wrap, rule ensure_change)
  fix S x assume S: "H \<subseteq> S"
  show "ensure_policy settings name service nodes S (LsUpdate (ls_ID l) \<lparr>nu_KeepAliveTimeout = 0,
      nu_IpGroup = Some \<lparr>iu_IpGroupId = ls_IpGroupID l, iu_Enable = False, iu_Type = ''''\<rparr>\<rparr> x)"
    using working_mono [OF l S] own_group_mono [OF g S] r t by (auto intro!: exI [of _ port] exI [of _ l])
qed

lemma known_igGet: "known (getOrNone fmt args (igGet E k i)) (\<lambda>r S. case r of
     None \<Rightarrow> \<exists>e. IgGet i (Inl e) \<in> S \<and> isNotFound e | Some g \<Rightarrow> IgGet i (Inr g) \<in> S)"
  by (rule knownI) (auto simp: getOrNone_def catchG_def bindG_def returnG_def failG_def igGet_def sdkCall_def
      split: prod.splits res.splits sum.splits if_splits)

lemma ensure_follows_igGet: "follows (ensure_policy settings name service nodes) H (getOrNone fmt args (igGet E k i))"
  by (intro ensure_follows_reads emits_rules) simp

lemma reconcileIPGroup_follows:
  assumes l: "working settings name service H port l"
  shows "follows (ensure_policy settings name service nodes) H (reconcileIPGroup E k lbID l name service port)"
proof (cases "ranges service = []")
  case True
  have "follows (ensure_policy settings name service nodes) H
      (bindG (getOrNone ''failed to get ipgroup %s: %w'' [ls_IpGroupID l] (igGet E k (ls_IpGroupID l))) (\<lambda>g. case g of
         None \<Rightarrow> returnG ()
       | Some grp \<Rightarrow>
           if ig_Name grp \<noteq> resourceName name port \<or> ls_IpGroupEnable l \<noteq> Some True then returnG ()
           else wrapG ''failed to disable ipgroup on listener %s: %w'' [ls_ID l]
             (mutate E k lbID
               (bindG (lsUpdate E k (ls_ID l) \<lparr>nu_KeepAliveTimeout = 0,
                   nu_IpGroup = Some \<lparr>iu_IpGroupId = ls_IpGroupID l, iu_Enable = False, iu_Type = ''''\<rparr>\<rparr>)
                 (\<lambda>_. returnG ())))))"
    by (rule follows_known_bind [OF ensure_follows_igGet known_igGet])
      (auto split: option.split intro!: follows_return disableGroup_follows True intro: working_mono [OF l]
        dest: own_got)
  then show ?thesis
    unfolding reconcileIPGroup_def Let_def if_P [OF True] by (split if_split) (simp only: follows_return simp_thms)
next
  case False
  have create: "follows (ensure_policy settings name service nodes) H1
      (bindG (wrapG fmt args (igCreate E k \<lparr>gc_Name = resourceName name port, gc_Description = d,
         gc_IpList = ipList (ranges service)\<rparr>)) (\<lambda>grp. attachIPGroup E k lbID (ls_ID l) (ig_ID grp)))"
    if "H \<subseteq> H1" and "no_group H1 l" for H1 fmt args d
    by (rule createGroup_follows [OF working_mono [OF l that(1)] False that(2)])
  show ?thesis
    unfolding reconcileIPGroup_def Let_def if_not_P [OF False]
  proof (split if_split, intro conjI impI)
    show "follows (ensure_policy settings name service nodes) H
      (bindG (getOrNone ''failed to get ipgroup %s: %w'' [ls_IpGroupID l] (igGet E k (ls_IpGroupID l))) (\<lambda>g. case g of
               None \<Rightarrow> bindG (wrapG ''failed to create ipgroup for listener %s: %w'' [ls_ID l]
              (igCreate E k \<lparr>gc_Name = resourceName name port,
                 gc_Description = ''Kubernetes service '' @ Namespace service @ ''/'' @ ServiceName service,
                 gc_IpList = ipList (ranges service)\<rparr>)) (\<lambda>grp.
            attachIPGroup E k lbID (ls_ID l) (ig_ID grp))
             | Some grp \<Rightarrow>
                 if ig_Name grp \<noteq> resourceName name port then
                   failG (Errorf ''listener %s already has a foreign ipgroup %s; remove it or drop loadBalancerSourceRanges''
                     [ls_ID l, ig_ID grp])
                 else
                   bindG (if ipListEqual (ig_IpList grp) (ranges service) then returnG ()
                          else wrapG ''failed to update ipgroup %s: %w'' [ig_ID grp]
                            (retryOnConflict E lbID (igUpdate E k (ig_ID grp) (ipList (ranges service))))) (\<lambda>_.
                   if ls_IpGroupEnable l \<noteq> Some True
                   then attachIPGroup E k lbID (ls_ID l) (ig_ID grp)
                   else returnG ())))"
    proof (rule follows_known_bind [OF ensure_follows_igGet known_igGet], split option.split, intro conjI impI allI create)
      fix g H1 assume "case g of None \<Rightarrow> \<exists>e. IgGet (ls_IpGroupID l) (Inl e) \<in> H1 \<and> isNotFound e
          | Some x \<Rightarrow> IgGet (ls_IpGroupID l) (Inr x) \<in> H1" and "g = None"
      then show "no_group H1 l" by (simp add: no_group_def)
    next
      fix g H1 grp assume H1: "H \<subseteq> H1" and g: "case g of None \<Rightarrow> \<exists>e. IgGet (ls_IpGroupID l) (Inl e) \<in> H1 \<and> isNotFound e
          | Some x \<Rightarrow> IgGet (ls_IpGroupID l) (Inr x) \<in> H1" "g = Some grp"
      then have "IgGet (ls_IpGroupID l) (Inr grp) \<in> H1" by simp
      then show "follows (ensure_policy settings name service nodes) H1 (if ig_Name grp \<noteq> resourceName name port then
                   failG (Errorf ''listener %s already has a foreign ipgroup %s; remove it or drop loadBalancerSourceRanges''
                     [ls_ID l, ig_ID grp])
                 else
                   bindG (if ipListEqual (ig_IpList grp) (ranges service) then returnG ()
                          else wrapG ''failed to update ipgroup %s: %w'' [ig_ID grp]
                            (retryOnConflict E lbID (igUpdate E k (ig_ID grp) (ipList (ranges service))))) (\<lambda>_.
                   if ls_IpGroupEnable l \<noteq> Some True
                   then attachIPGroup E k lbID (ls_ID l) (ig_ID grp)
                   else returnG ()))"
        by (cases "ig_Name grp = resourceName name port")
          (simp_all only: simp_thms if_True if_False follows_fail updateGroup_follows [OF working_mono [OF l H1] False])
    qed
  qed (rule create, rule order_refl, simp add: no_group_def)
qed

text \<open>A created listener is the answer to a creation for the port.\<close>

lemma known_createListener:
  "known (createListener E k lbID name settings port) (\<lambda>r S. \<forall>l. r = Some l \<longrightarrow> created_for name port S l)"
proof (rule knownI, intro allI impI)
  fix w r w' l
  let ?o = "\<lparr>nc_LoadbalancerID = lbID, nc_Name = resourceName name port, nc_Protocol = Protocol port,
    nc_ProtocolPort = Port port, nc_KeepAliveTimeout = IdleTimeout settings\<rparr>"
  let ?fn = "bindG (lsCreate E k ?o) (\<lambda>l. modifyG (\<lambda>w. w\<lparr>v_listener := Some l\<rparr>))"
  assume "createListener E k lbID name settings port w = (Ok r, w')" and r: "r = Some l"
  then obtain w0 where m: "mutate E k lbID ?fn w0 = (Ok (), w')" and v: "v_listener w' = Some l"
    by (auto simp: createListener_def elim!: bindG_OkE dest!: wrapG_OkE)
  obtain w1 w2 where fn: "?fn w1 = (Ok (), w2)" and act: "waitForActive E k lbID w2 = (Ok (), w')"
    using m by (rule mutate_Ok)
  obtain l1 w3 where l1: "lsCreate E k ?o w1 = (Ok l1, w3)" and w2: "w2 = w3\<lparr>v_listener := Some l1\<rparr>"
    using fn by (auto elim: bindG_OkE)
  have "LsCreate ?o (Inr l1) \<in> set (trace w2)"
    using l1 w2 by (auto simp: lsCreate_def dest: sdkCall_shows)
  moreover have "l1 = l" using active_vars [OF act] v w2 by simp
  moreover obtain es where "trace w' = trace w2 @ es"
    using active_reads act by (rule emitsD)
  ultimately have "LsCreate ?o (Inr l) \<in> set (trace w')" by simp
  then show "created_for name port (set (trace w')) l"
    unfolding created_for_def by (rule exI [of _ ?o, OF conjI]) simp
qed

lemma createListener_follows:
  assumes b: "served settings name H b" and ls: "LsList (lb_ID b) (Inr (Inr ls)) \<in> H"
    and port: "port \<in> set (Ports service)" "listenersByKey ls (portKey port) = None"
  shows "follows (ensure_policy settings name service nodes) H (createListener E k (lb_ID b) name settings port)"
proof -
  let ?o = "\<lparr>nc_LoadbalancerID = lb_ID b, nc_Name = resourceName name port, nc_Protocol = Protocol port,
    nc_ProtocolPort = Port port, nc_KeepAliveTimeout = IdleTimeout settings\<rparr>"
  have set: "follows J H1 (modifyG f)" if "\<And>w. trace (f w) = trace w" for J H1 and f :: "'c world \<Rightarrow> 'c world"
    using that by (auto intro!: followsI)
  have get: "follows J H1 (getG f)" for J H1 and f :: "'c world \<Rightarrow> ListenerObj option"
    by (rule follows_quiet) (rule emits_rules)
  have "follows (ensure_policy settings name service nodes) H1 (lsCreate E k ?o)" if "H \<subseteq> H1" for H1
    unfolding lsCreate_def
  proof (rule follows_sdkCall)
    fix S x assume "H1 \<subseteq> S"
    then show "ensure_policy settings name service nodes S (LsCreate ?o x)"
      using served_mono [OF b] ls port that by (auto intro!: exI [of _ b] exI [of _ ls] exI [of _ port])
  qed
  then show ?thesis
    unfolding createListener_def
    by (intro follows_bind set get follows_wrap follows_mutate) (auto intro: ensure_reads)
qed

subsection \<open>Pools\<close>

lemma pool_update_maintains:
  assumes l: "working settings name service H port l"
    and differs: "PlGet (ls_DefaultPoolID l) (Inr p0) \<in> H" "pool_differs settings service p0"
  shows "maintains (ensure_policy settings name service nodes) H (\<lambda>w. \<forall>p. v_pool w = Some p \<longrightarrow> pool_from (set (trace w)) l p)
    (bindG derefPool (\<lambda>p. plUpdate E k (pl_ID p) \<lparr>pu_LBMethod = LBAlgorithm settings,
       pu_Persistence = desiredPersistence service\<rparr>))"
proof (rule maintainsI)
  fix w r w'
  let ?o = "\<lparr>pu_LBMethod = LBAlgorithm settings, pu_Persistence = desiredPersistence service\<rparr>"
  assume H: "H \<subseteq> set (trace w)" and I: "\<forall>p. v_pool w = Some p \<longrightarrow> pool_from (set (trace w)) l p"
    and run: "bindG derefPool (\<lambda>p. plUpdate E k (pl_ID p) ?o) w = (r, w')"
  show "(\<forall>p. v_pool w' = Some p \<longrightarrow> pool_from (set (trace w')) l p) \<and>
      (\<exists>es. trace w' = trace w @ es \<and> obeys (ensure_policy settings name service nodes) (set (trace w)) es)"
  proof (cases "v_pool w")
    case None
    then have "w' = w" using run by (auto simp: derefPool_def bindG_def getG_def derefG_def panicG_def)
    then show ?thesis using I by simp
  next
    case (Some q)
    then have "plUpdate E k (pl_ID q) ?o w = (r, w')"
      using run by (simp add: derefPool_def bindG_def returnG_def)
    then obtain p e where tr: "trace w' = trace w @ [PlUpdate (pl_ID q) ?o (p, e)]" and v: "v_pool w' = p"
      by (auto simp: plUpdate_def split: prod.splits)
    have q: "pool_from (set (trace w)) l q" using I Some by simp
    then have "ensure_policy settings name service nodes (set (trace w)) (PlUpdate (pl_ID q) ?o (p, e))"
      unfolding ensure_policy.simps using working_mono [OF l H] differs H
      by (intro conjI exI [of _ port], rule_tac x = l in exI, rule_tac x = q in exI, rule_tac x = p0 in exI) auto
    moreover have "pool_from (set (trace w')) l p'" if "p = Some p'" for p'
      by (rule pool_from.updated [of _ l q], rule pool_from_mono [OF q]) (auto simp: tr that)
    ultimately show ?thesis using tr v by auto
  qed
qed

lemma derefPool_keeps: "maintains J H I derefPool"
  by (auto intro!: maintainsI simp: derefPool_def bindG_def getG_def derefG_def split: option.splits)

text \<open>The part of \<open>ensurePool\<close> that updates a pool.\<close>

lemma pool_update_whole:
  assumes l: "working settings name service H port l"
    and differs: "PlGet (ls_DefaultPoolID l) (Inr p0) \<in> H" "pool_differs settings service p0"
  shows "maintains (ensure_policy settings name service nodes) H (\<lambda>w. \<forall>p. v_pool w = Some p \<longrightarrow> pool_from (set (trace w)) l p)
    (bindG (catchG
       (mutate E k lbID (bindG derefPool (\<lambda>p. plUpdate E k (pl_ID p)
          \<lparr>pu_LBMethod = LBAlgorithm settings, pu_Persistence = desiredPersistence service\<rparr>)))
       (\<lambda>e. bindG derefPool (\<lambda>p. failG (Wrapf fmt [pl_ID p] e)))) (\<lambda>_. derefPool))"
proof (rule maintains_bind [OF maintains_catch])
  show "maintains (ensure_policy settings name service nodes) H (\<lambda>w. \<forall>p. v_pool w = Some p \<longrightarrow> pool_from (set (trace w)) l p)
    (mutate E k lbID (bindG derefPool (\<lambda>p. plUpdate E k (pl_ID p)
       \<lparr>pu_LBMethod = LBAlgorithm settings, pu_Persistence = desiredPersistence service\<rparr>)))"
    by (rule maintains_mutate [OF pool_update_maintains [OF l differs]], erule ensure_reads) (auto intro: pool_from_mono)
qed (rule derefPool_keeps maintains_bind [OF derefPool_keeps maintains_fail])+

text \<open>The part that creates one.\<close>

lemma pool_create_follows:
  assumes l: "working settings name service H port l" and none: "ls_DefaultPoolID l = ''''"
    and o1: "pc_ListenerID o1 = ls_ID l" "pc_Name o1 = resourceName name port"
  shows "maintains (ensure_policy settings name service nodes) H (\<lambda>w. \<forall>p. v_pool w = Some p \<longrightarrow> pool_from (set (trace w)) l p)
    (bindG (wrapG fmt args (mutate E k lbID
       (bindG (plCreate E k o1) (\<lambda>p. modifyG (\<lambda>w. w\<lparr>v_pool := Some p\<rparr>))))) (\<lambda>_. derefPool))"
  unfolding wrapG_def
proof (rule maintains_bind [OF maintains_catch])
  let ?I = "\<lambda>w. \<forall>p. v_pool w = Some p \<longrightarrow> pool_from (set (trace w)) l p"
  have "maintains (ensure_policy settings name service nodes) H ?I
      (bindG (plCreate E k o1) (\<lambda>p. modifyG (\<lambda>w. w\<lparr>v_pool := Some p\<rparr>)))"
  proof (rule maintainsI)
    fix w r w'
    assume H: "H \<subseteq> set (trace w)" and I: "?I w"
      and run: "bindG (plCreate E k o1) (\<lambda>p. modifyG (\<lambda>w. w\<lparr>v_pool := Some p\<rparr>)) w = (r, w')"
    have ok: "ensure_policy settings name service nodes (set (trace w)) (PlCreate o1 x)" for x
      using working_mono [OF l H] none o1 by (auto intro!: exI [of _ port] exI [of _ l])
    from run show "?I w' \<and> (\<exists>es. trace w' = trace w @ es \<and> obeys (ensure_policy settings name service nodes) (set (trace w)) es)"
    proof (cases rule: bindG_cases)
      case ran: (ok p w1)
      have tr: "trace w1 = trace w @ [PlCreate o1 (Inr p)]"
        using ran(1) by (auto simp: plCreate_def sdkCall_def split: prod.splits sum.splits)
      then have "pool_from (set (trace w1)) l p" by (auto intro!: pool_from.created [OF none _ o1(1)])
      then show ?thesis using ran(2) tr ok by (auto simp del: ensure_policy.simps)
    next
      case (fail e)
      then have tr: "trace w' = trace w @ [PlCreate o1 (Inl e)]" "v_pool w' = v_pool w"
        by (auto simp: plCreate_def sdkCall_def split: prod.splits sum.splits)
      then have "?I w'" using I pool_from_mono [of "set (trace w)" l _ "set (trace w')"] by auto
      then show ?thesis using tr ok by (auto simp del: ensure_policy.simps)
    qed (auto simp: plCreate_def sdkCall_def split: prod.splits sum.splits)
  qed
  then show "maintains (ensure_policy settings name service nodes) H ?I
      (mutate E k lbID (bindG (plCreate E k o1) (\<lambda>p. modifyG (\<lambda>w. w\<lparr>v_pool := Some p\<rparr>))))"
    by (rule maintains_mutate, elim ensure_reads) (auto intro: pool_from_mono)
qed (rule derefPool_keeps maintains_fail)+

text \<open>Both parts end in the variable, so what they return is a pool of the listener.\<close>

lemma derefPool_result: "bindG m (\<lambda>_. derefPool) w = (Ok p, w') \<Longrightarrow> v_pool w' = Some p"
  by (auto simp: derefPool_def derefG_def bindG_def getG_def returnG_def panicG_def
      split: prod.splits res.splits option.splits)

lemma maintained_pool:
  assumes "maintains J H (\<lambda>w. \<forall>p. v_pool w = Some p \<longrightarrow> pool_from (set (trace w)) l p) (bindG m (\<lambda>_. derefPool))"
    and "bindG m (\<lambda>_. derefPool) w = (Ok p, w')" and "H \<subseteq> set (trace w)"
    and "\<forall>p. v_pool w = Some p \<longrightarrow> pool_from (set (trace w)) l p"
  shows "pool_from (set (trace w')) l p"
  using assms(1,2,3,4) by (rule maintainsE) (use derefPool_result [OF assms(2)] in blast)

lemma known_plGet: "known (wrapG fmt args (plGet E k i)) (\<lambda>p S. PlGet i (Inr p) \<in> S)"
  unfolding plGet_def by (rule known_wrap, rule known_sdkCall)

lemma ensurePool_follows:
  assumes l: "working settings name service H port l"
  shows "follows (ensure_policy settings name service nodes) H (ensurePool E k lbID l name settings service port)"
proof (cases "ls_DefaultPoolID l = ''''")
  case True
  then have named: "\<not> ls_DefaultPoolID l \<noteq> ''''" by simp
  show ?thesis
    unfolding ensurePool_def Let_def if_not_P [OF named]
    by (rule follows_of_maintains [OF pool_create_follows [OF l True]]) simp_all
next
  case False
  have upd: "follows (ensure_policy settings name service nodes) H1
      (bindG (modifyG (\<lambda>w. w\<lparr>v_pool := Some p\<rparr>)) (\<lambda>_. bindG (catchG
       (mutate E k lbID (bindG derefPool (\<lambda>p. plUpdate E k (pl_ID p)
          \<lparr>pu_LBMethod = LBAlgorithm settings, pu_Persistence = desiredPersistence service\<rparr>)))
       (\<lambda>e. bindG derefPool (\<lambda>p. failG (Wrapf fmt [pl_ID p] e)))) (\<lambda>_. derefPool)))"
    if "H \<subseteq> H1" and "PlGet (ls_DefaultPoolID l) (Inr p) \<in> H1" and "pool_differs settings service p" for H1 p fmt
  proof (rule follows_of_maintains [OF pool_update_whole [OF working_mono [OF l that(1)] that(2,3)]])
    fix w :: "'c world" assume "H1 \<subseteq> set (trace w)"
    then have "pool_from (set (trace w)) l p" using that(2) False by (blast intro: pool_from.named)
    then show "\<forall>q. v_pool (w\<lparr>v_pool := Some p\<rparr>) = Some q \<longrightarrow> pool_from (set (trace (w\<lparr>v_pool := Some p\<rparr>))) l q"
      by simp
  qed simp
  show ?thesis
    unfolding ensurePool_def Let_def if_P [OF False]
  proof (rule follows_known_bind [OF _ known_plGet])
    show "follows (ensure_policy settings name service nodes) H
        (wrapG ''failed to get pool %s: %w'' [ls_DefaultPoolID l] (plGet E k (ls_DefaultPoolID l)))"
      by (intro ensure_follows_reads emits_rules) simp
  qed (split if_split, fold pool_differs_def, intro conjI impI upd follows_return)
qed

lemma ensurePool_gives:
  assumes l: "working settings name service H port l" and H: "H \<subseteq> set (trace w)"
    and run: "ensurePool E k lbID l name settings service port w = (Ok p, w')"
  shows "pool_from (set (trace w')) l p"
proof (cases "ls_DefaultPoolID l = ''''")
  case True
  let ?o = "\<lparr>pc_ListenerID = ls_ID l, pc_Name = resourceName name port,
    pc_Protocol = Protocol port, pc_LBMethod = LBAlgorithm settings,
    pc_Description = ''Kubernetes service '' @ Namespace service @ ''/'' @ ServiceName service,
    pc_Persistence = desiredPersistence service\<rparr>"
  show ?thesis
    by (rule maintained_pool [OF pool_create_follows [OF l True, of ?o], of _ _ _ _ "w\<lparr>v_pool := None\<rparr>"])
      (use run H True in \<open>auto simp: ensurePool_def Let_def bindG_Ok\<close>)
next
  case False
  then obtain q w1 where q: "plGet E k (ls_DefaultPoolID l) w = (Ok q, w1)"
    and rest: "(if pl_LBMethod q \<noteq> LBAlgorithm settings \<or>
              (desiredPersistence service \<noteq> None \<and> \<not> persistenceEqual (pl_Persistence q) (desiredPersistence service)) then
             bindG (modifyG (\<lambda>w. w\<lparr>v_pool := Some q\<rparr>)) (\<lambda>_.
             bindG (catchG
               (mutate E k lbID
                 (bindG derefPool (\<lambda>p. plUpdate E k (pl_ID p)
                   \<lparr>pu_LBMethod = LBAlgorithm settings, pu_Persistence = desiredPersistence service\<rparr>)))
               (\<lambda>e. bindG derefPool (\<lambda>p. failG (Wrapf ''failed to update pool %s: %w'' [pl_ID p] e)))) (\<lambda>_.
             derefPool))
           else returnG q) w1 = (Ok p, w')"
    using run unfolding ensurePool_def Let_def if_P [OF False] by (auto elim!: bindG_OkE dest!: wrapG_OkE)
  have tr: "trace w1 = trace w @ [PlGet (ls_DefaultPoolID l) (Inr q)]"
    using q by (auto simp: plGet_def sdkCall_def split: prod.splits sum.splits)
  then have from_q: "pool_from (set (trace w1)) l q" using False by (auto intro!: pool_from.named)
  show ?thesis
  proof (cases "pl_LBMethod q \<noteq> LBAlgorithm settings \<or>
      (desiredPersistence service \<noteq> None \<and> \<not> persistenceEqual (pl_Persistence q) (desiredPersistence service))")
    case True
    show ?thesis
      by (rule maintained_pool [OF pool_update_whole [OF working_mono [OF l], of "set (trace w1)" q], of _ _ _ "w1\<lparr>v_pool := Some q\<rparr>"])
        (use rest [unfolded if_P [OF True]] H tr from_q True in \<open>auto simp: bindG_Ok pool_differs_def\<close>)
  next
    case False
    show ?thesis using rest [unfolded if_not_P [OF False]] from_q by simp
  qed
qed

subsection \<open>Members, monitors, ports\<close>

lemma reconcileMembers_follows_ensure:
  assumes "working_pool settings name service H port p"
  shows "follows (ensure_policy settings name service nodes) H (reconcileMembers E k b (pl_ID p) (NodePort port) nodes)"
proof (rule follows_weaken_in [OF reconcileMembers_follows])
  fix S e assume S: "H \<subseteq> S" and e: "members_policy (pl_ID p) (NodePort port) nodes S e"
  have "working_pool settings name service S port p" using assms S by (rule working_pool_mono)
  then show "ensure_policy settings name service nodes S e"
    using e by (cases e) (simp_all add: ensure_reads, blast+)
qed

lemma createMonitor_follows:
  assumes p: "working_pool settings name service H port p" and on: "HealthCheckEnabled settings"
    and free: "pl_MonitorID p = '''' \<or> (\<exists>x r. MoGet (pl_MonitorID p) (Inr x) \<in> H \<and> other_kind settings service port x \<and>
           MoDelete (pl_MonitorID p) r \<in> H \<and> gone r)"
  shows "follows (ensure_policy settings name service nodes) H (createMonitor E k lbID p name settings port probe)"
  unfolding createMonitor_def moCreate_def
proof (rule follows_wrap, rule ensure_change)
  fix S r assume S: "H \<subseteq> S"
  have "pl_MonitorID p = '''' \<or> (\<exists>x r. MoGet (pl_MonitorID p) (Inr x) \<in> S \<and> other_kind settings service port x \<and>
           MoDelete (pl_MonitorID p) r \<in> S \<and> gone r)" using free S by blast
  then show "ensure_policy settings name service nodes S (MoCreate \<lparr>oc_PoolID = pl_ID p, oc_Name = resourceName name port,
      oc_Type = pr_Type probe, oc_Delay = HealthCheckDelay settings, oc_Timeout = HealthCheckTimeout settings,
      oc_MaxRetries = HealthCheckMaxRetries settings, oc_URLPath = pr_URLPath probe,
      oc_HTTPMethod = pr_HTTPMethod probe, oc_MonitorPort = pr_Port probe\<rparr> r)"
    unfolding ensure_policy.simps using working_pool_mono [OF p S] on
    by (intro conjI exI [of _ port] exI [of _ p]) simp_all
qed

text \<open>The monitor that was read is replaced, left alone, or updated.\<close>

lemma changeMonitor_follows:
  assumes p: "working_pool settings name service H port p" and on: "HealthCheckEnabled settings"
    and x: "MoGet (pl_MonitorID p) (Inr x) \<in> H"
  shows "follows (ensure_policy settings name service nodes) H
        (if other_kind settings service port x then
             bindG (ignoreNotFound ''failed to delete monitor %s for recreation: %w'' [pl_MonitorID p]
               (mutate E k lbID (moDelete E k (pl_MonitorID p)))) (\<lambda>_.
             createMonitor E k lbID p name settings port probe)
           else if \<not> other_values settings service port x then returnG ()
           else wrapG fmt args (mutate E k lbID
             (bindG (moUpdate E k (pl_MonitorID p) o1) (\<lambda>_. returnG ()))))"
proof (cases "other_kind settings service port x")
  case True
  let ?del = "ignoreNotFound ''failed to delete monitor %s for recreation: %w'' [pl_MonitorID p]
               (mutate E k lbID (moDelete E k (pl_MonitorID p)))"
  have del: "follows (ensure_policy settings name service nodes) H ?del"
    unfolding moDelete_def by (rule ensure_delete)
      (use working_pool_mono [OF p] x True in \<open>auto intro!: disjI1 exI [of _ port] exI [of _ p]\<close>)
  have "known ?del (\<lambda>_ S. \<exists>r. MoDelete (pl_MonitorID p) r \<in> S \<and> gone r)"
    unfolding moDelete_def gone_def by (rule known_mutated_delete)
  then have "follows (ensure_policy settings name service nodes) H
      (bindG ?del (\<lambda>_. createMonitor E k lbID p name settings port probe))"
    by (rule follows_known_bind [OF del], intro createMonitor_follows [OF working_pool_mono [OF p] on]) (use x True in blast)+
  then show ?thesis using True by simp
next
  case False
  have "follows (ensure_policy settings name service nodes) H
      (wrapG fmt args (mutate E k lbID (bindG (moUpdate E k (pl_MonitorID p) o1) (\<lambda>_. returnG ()))))"
    if "other_values settings service port x"
    unfolding moUpdate_def by (rule follows_wrap, rule ensure_change)
      (use working_pool_mono [OF p] x False that on in \<open>auto intro!: exI [of _ port] exI [of _ p] exI [of _ x]\<close>)
  then show ?thesis using False by (simp add: follows_return)
qed

lemma reconcileMonitor_follows:
  assumes p: "working_pool settings name service H port p"
  shows "follows (ensure_policy settings name service nodes) H (reconcileMonitor E k lbID p name settings service port)"
proof (cases "HealthCheckEnabled settings")
  case False
  have "follows (ensure_policy settings name service nodes) H
      (ignoreNotFound fmt args (mutate E k lbID (moDelete E k (pl_MonitorID p))))" for fmt args
    unfolding moDelete_def by (rule ensure_delete)
      (use working_pool_mono [OF p] False in \<open>auto intro!: disjI1 exI [of _ port] exI [of _ p]\<close>)
  then show ?thesis
    unfolding reconcileMonitor_def Let_def if_P [OF False] by (auto intro: follows_return)
next
  case True
  then have on: "\<not> \<not> HealthCheckEnabled settings" by simp
  have get: "follows (ensure_policy settings name service nodes) H (wrapG fmt args (moGet E k i))" for fmt args i
    by (intro ensure_follows_reads emits_rules) simp
  have shows_it: "known (wrapG fmt args (moGet E k i)) (\<lambda>x S. MoGet i (Inr x) \<in> S)" for fmt args i
    unfolding moGet_def by (rule known_wrap, rule known_sdkCall)
  show ?thesis
  proof (cases "pl_MonitorID p = ''''")
    case none: True
    show ?thesis
      unfolding reconcileMonitor_def Let_def if_not_P [OF on] if_P [OF none]
      by (rule createMonitor_follows [OF p True disjI1 [OF none]])
  next
    case some: False
    have ok: "(mo_Delay x = HealthCheckDelay settings \<and> mo_Timeout x = HealthCheckTimeout settings \<and>
        mo_MaxRetries x = HealthCheckMaxRetries settings \<and> mo_URLPath x = pr_URLPath (desiredProbe settings service port) \<and>
        mo_HTTPMethod x = pr_HTTPMethod (desiredProbe settings service port)) \<longleftrightarrow> \<not> other_values settings service port x" for x
      by (auto simp: other_values_def)
    show ?thesis
      unfolding reconcileMonitor_def Let_def if_not_P [OF on] if_not_P [OF some] ok
      by (rule follows_known_bind [OF get shows_it], fold other_kind_def)
        (rule changeMonitor_follows [OF working_pool_mono [OF p] True])
  qed
qed

lemma findListener_follows:
  assumes b: "served settings name H b" and ls: "LsList (lb_ID b) (Inr (Inr ls)) \<in> H"
    and port: "port \<in> set (Ports service)"
  shows "follows (ensure_policy settings name service nodes) H
      (case listenersByKey ls (portKey port) of
         None \<Rightarrow> bindG (createListener E k (lb_ID b) name settings port) derefG
       | Some listener \<Rightarrow>
           if IdleTimeout settings > 0 then
             bindG (wrapG ''failed to update listener %s: %w'' [ls_ID listener]
               (mutate E k (lb_ID b)
                 (bindG (lsUpdate E k (ls_ID listener)
                     \<lparr>nu_KeepAliveTimeout = IdleTimeout settings, nu_IpGroup = None\<rparr>) (\<lambda>_. returnG ()))))
               (\<lambda>_. returnG listener)
           else returnG listener)"
proof (cases "listenersByKey ls (portKey port)")
  case None
  have deref: "follows J H1 (derefG x)" for J H1 and x :: "ListenerObj option"
    by (cases x) (auto intro!: followsI simp: derefG_def panicG_def)
  show ?thesis
    using createListener_follows [OF b ls port None] None by (simp add: follows_bind deref)
next
  case (Some l)
  have w: "working settings name service S port l" if "H \<subseteq> S" for S
    using port Some served_mono [OF b that] ls that unfolding working_def shown_def by blast
  have "follows (ensure_policy settings name service nodes) H
      (wrapG ''failed to update listener %s: %w'' [ls_ID l] (mutate E k (lb_ID b)
        (bindG (lsUpdate E k (ls_ID l) \<lparr>nu_KeepAliveTimeout = IdleTimeout settings, nu_IpGroup = None\<rparr>) (\<lambda>_. returnG ()))))"
    if "IdleTimeout settings > 0"
    unfolding lsUpdate_def by (rule follows_wrap, rule ensure_change) (use w that in \<open>auto intro!: exI [of _ port] exI [of _ l]\<close>)
  then show ?thesis using Some by (simp add: follows_bind follows_return)
qed

lemma known_findListener:
  assumes b: "served settings name H b" and ls: "LsList (lb_ID b) (Inr (Inr ls)) \<in> H"
    and port: "port \<in> set (Ports service)" and H: "H \<subseteq> set (trace w)"
    and run: "(case listenersByKey ls (portKey port) of
         None \<Rightarrow> bindG (createListener E k (lb_ID b) name settings port) derefG
       | Some listener \<Rightarrow>
           if IdleTimeout settings > 0 then
             bindG (wrapG ''failed to update listener %s: %w'' [ls_ID listener]
               (mutate E k (lb_ID b)
                 (bindG (lsUpdate E k (ls_ID listener)
                     \<lparr>nu_KeepAliveTimeout = IdleTimeout settings, nu_IpGroup = None\<rparr>) (\<lambda>_. returnG ()))))
               (\<lambda>_. returnG listener)
           else returnG listener) w = (Ok l, w')"
  shows "working settings name service (set (trace w')) port l"
proof (cases "listenersByKey ls (portKey port)")
  case None
  then obtain r w1 where "createListener E k (lb_ID b) name settings port w = (Ok r, w1)" "derefG r w1 = (Ok l, w')"
    using run by (auto elim: bindG_OkE)
  then have "createListener E k (lb_ID b) name settings port w = (Ok (Some l), w')"
    by (cases r) simp_all
  from knownD [OF known_createListener this] have "created_for name port (set (trace w')) l" by simp
  then show ?thesis using port by (simp add: working_def)
next
  case (Some l1)
  then have "l1 = l" using run by (auto elim!: bindG_OkE split: if_splits)
  moreover obtain es where "trace w' = trace w @ es"
    using findListener_follows [OF b ls port] run H by (rule followsE)
  then have "H \<subseteq> set (trace w')" using H by auto
  ultimately show ?thesis
    using port Some served_mono [OF b] ls unfolding working_def shown_def by blast
qed

subsection \<open>The whole reconciliation\<close>

lemma reconcilePort_follows:
  assumes b: "served settings name H b" and ls: "LsList (lb_ID b) (Inr (Inr ls)) \<in> H"
    and port: "port \<in> set (Ports service)"
  shows "follows (ensure_policy settings name service nodes) H
    (reconcilePort E k b name settings service nodes (listenersByKey ls) port)"
  unfolding reconcilePort_def
proof (rule follows_result_bind [OF findListener_follows [OF b ls port]], erule known_findListener [OF b ls port], assumption,
    rule follows_bind)
  fix l H1 assume l: "working settings name service H1 port l"
  show "follows (ensure_policy settings name service nodes) H1 (reconcileIPGroup E k (lb_ID b) l name service port)"
    using l by (rule reconcileIPGroup_follows)
  fix H2 assume "H1 \<subseteq> H2"
  note l2 = working_mono [OF l this]
  show "follows (ensure_policy settings name service nodes) H2
      (bindG (ensurePool E k (lb_ID b) l name settings service port) (\<lambda>pool.
       bindG (reconcileMembers E k b (pl_ID pool) (NodePort port) nodes) (\<lambda>_.
       reconcileMonitor E k (lb_ID b) pool name settings service port)))"
  proof (rule follows_result_bind [OF ensurePool_follows [OF l2]], erule ensurePool_gives [OF l2], assumption)
    fix p H3 assume H3: "H2 \<subseteq> H3" and p: "pool_from H3 l p"
    have w: "working_pool settings name service S port p" if "H3 \<subseteq> S" for S
      using working_mono [OF l2 order_trans [OF H3 that]] pool_from_mono [OF p that] by (auto simp: working_pool_def)
    show "follows (ensure_policy settings name service nodes) H3
       (bindG (reconcileMembers E k b (pl_ID p) (NodePort port) nodes) (\<lambda>_.
        reconcileMonitor E k (lb_ID b) p name settings service port))"
      by (intro follows_bind reconcileMembers_follows_ensure reconcileMonitor_follows w) simp_all
  qed
qed

lemma reconcile_follows:
  assumes b: "served settings name H b"
  shows "follows (ensure_policy settings name service nodes) H (reconcile E k b name settings service nodes)"
  unfolding reconcile_def
proof (rule follows_known_bind [OF ensure_follows_reads [OF reads(3)] known_listListeners], rule follows_bind)
  fix ls H1 assume H1: "H \<subseteq> H1" and ls: "LsList (lb_ID b) (Inr (Inr ls)) \<in> H1"
  show "follows (ensure_policy settings name service nodes) H1
      (eachG (reconcilePort E k b name settings service nodes (listenersByKey ls)) (Ports service))"
    by (rule follows_each, rule reconcilePort_follows) (use served_mono [OF b] H1 ls in auto)
  fix H2 assume H2: "H1 \<subseteq> H2"
  show "follows (ensure_policy settings name service nodes) H2 (eachG (\<lambda>listener.
       if \<not> HasPrefix (ls_Name listener) (name @ ''_'') then returnG ()
       else if listenerKey listener \<in> set (map portKey (Ports service)) then returnG ()
       else deleteListener E k (lb_ID b) name listener) ls)"
  proof (rule follows_each)
    fix l H3 assume l: "l \<in> set ls" and H3: "H2 \<subseteq> H3"
    have "shown settings name H3 ls"
      using served_mono [OF b] ls H1 H2 H3 unfolding shown_def by blast
    then have "stale settings name service H3 l"
      if "HasPrefix (ls_Name l) (name @ ''_'')" "listenerKey l \<notin> set (map portKey (Ports service))"
      using l that by (auto simp: stale_def owned_def)
    then have "follows (ensure_policy settings name service nodes) H3 (deleteListener E k (lb_ID b) name l)"
      if "HasPrefix (ls_Name l) (name @ ''_'')" "listenerKey l \<notin> set (map portKey (Ports service))"
      using that by (intro follows_weaken [OF deleteListener_follows [OF stable_stale] ensure_teardown])
    then show "follows (ensure_policy settings name service nodes) H3 (if \<not> HasPrefix (ls_Name l) (name @ ''_'') then returnG ()
       else if listenerKey l \<in> set (map portKey (Ports service)) then returnG ()
       else deleteListener E k (lb_ID b) name l)"
      by (split if_split, split if_split) (simp add: follows_return del: set_map)
  qed
qed

text \<open>Creation: only with a subnet and availability zones, and only when the lookup found nothing.\<close>

lemma createLoadBalancer_follows:
  assumes "no_balancer settings name H" and id: "LoadBalancerID settings = ''''"
  shows "follows (ensure_policy settings name service nodes) H (createLoadBalancer E k settings name service)"
  unfolding createLoadBalancer_def Let_def lbCreate_def
  using id no_balancer_mono [OF assms(1)] by (auto intro!: follows_fail follows_wrap follows_sdkCall)

lemma known_createLoadBalancer: "known (createLoadBalancer E k settings name service) (\<lambda>b S. \<exists>o1. LbCreate o1 (Inr b) \<in> S)"
  unfolding createLoadBalancer_def Let_def lbCreate_def
  by (auto simp: known_def dest!: wrapG_OkE sdkCall_shows)

lemma ensureFound_follows:
  assumes b: "served settings name H b"
  shows "follows (ensure_policy settings name service nodes) H
    (bindG (waitForActive E k (lb_ID b)) (\<lambda>_.
     bindG (reconcile E k b name settings service nodes) (\<lambda>_.
     bindG (wrapG ''failed to get load balancer after reconcile: %w'' [] (lbGet E k (lb_ID b))) (\<lambda>balancer'.
     returnG (lbStatus balancer')))))"
  by (intro follows_bind reconcile_follows follows_return ensure_follows_reads [OF active_reads])
    (use served_mono [OF b] in \<open>auto intro!: ensure_follows_reads emits_rules\<close>)

lemma EnsureLoadBalancer_follows:
  assumes s: "settingsForService (opts lb) service = Inr settings" and quiet: "emits (\<lambda>_. False) (newClient lb)"
  shows "follows (ensure_policy settings (GetLoadBalancerName c service) service nodes) H
    (EnsureLoadBalancer E lb c service nodes)"
proof -
  let ?n = "GetLoadBalancerName c service"
  have lift: "follows J H1 (liftG x)" for J H1 and x :: "err + unit"
    by (cases x) (simp_all add: follows_return follows_fail)
  have choose: "follows (ensure_policy settings ?n service nodes) H1 (case found of
              Some balancer \<Rightarrow> returnG balancer
            | None \<Rightarrow>
                if LoadBalancerID settings \<noteq> '''' then
                  failG (Errorf ''load balancer %q referenced by annotation %s not found''
                    [LoadBalancerID settings, AnnotationID])
                else createLoadBalancer E k settings ?n service)"
    if "case found of Some b \<Rightarrow> the_balancer settings ?n H1 b | None \<Rightarrow> no_balancer settings ?n H1" for found H1 k
    using that by (cases found) (simp_all add: follows_return follows_fail createLoadBalancer_follows)
  have chosen: "served settings ?n (set (trace w')) b"
    if "case found of Some b \<Rightarrow> the_balancer settings ?n H1 b | None \<Rightarrow> no_balancer settings ?n H1"
      and "H1 \<subseteq> set (trace w)" and "(case found of
              Some balancer \<Rightarrow> returnG balancer
            | None \<Rightarrow>
                if LoadBalancerID settings \<noteq> '''' then
                  failG (Errorf ''load balancer %q referenced by annotation %s not found''
                    [LoadBalancerID settings, AnnotationID])
                else createLoadBalancer E k settings ?n service) w = (Ok b, w')" for found H1 k b w w'
    using that the_balancer_mono knownD [OF known_createLoadBalancer]
    by (cases found) (fastforce simp: served_def split: if_splits)+
  have found: "follows (ensure_policy settings ?n service nodes) H1 (bindG (case found of
              Some balancer \<Rightarrow> returnG balancer
            | None \<Rightarrow>
                if LoadBalancerID settings \<noteq> '''' then
                  failG (Errorf ''load balancer %q referenced by annotation %s not found''
                    [LoadBalancerID settings, AnnotationID])
                else createLoadBalancer E k settings ?n service) (\<lambda>balancer.
          bindG (waitForActive E k (lb_ID balancer)) (\<lambda>_.
          bindG (reconcile E k balancer ?n settings service nodes) (\<lambda>_.
          bindG (wrapG ''failed to get load balancer after reconcile: %w'' [] (lbGet E k (lb_ID balancer))) (\<lambda>balancer'.
          returnG (lbStatus balancer'))))))"
    if f: "case found of Some b \<Rightarrow> the_balancer settings ?n H1 b | None \<Rightarrow> no_balancer settings ?n H1" for found H1 k
    by (rule follows_result_bind [OF choose [OF f], where Q = "\<lambda>b S. served settings ?n S b"], rule chosen [OF f], assumption, assumption,
        rule ensureFound_follows)
  have run: "follows (ensure_policy settings ?n service nodes) H1
      (bindG (newClient lb) (\<lambda>k. bindG (findLoadBalancer E k settings ?n) (\<lambda>found. bindG (case found of
              Some balancer \<Rightarrow> returnG balancer
            | None \<Rightarrow>
                if LoadBalancerID settings \<noteq> '''' then
                  failG (Errorf ''load balancer %q referenced by annotation %s not found''
                    [LoadBalancerID settings, AnnotationID])
                else createLoadBalancer E k settings ?n service) (\<lambda>balancer.
          bindG (waitForActive E k (lb_ID balancer)) (\<lambda>_.
          bindG (reconcile E k balancer ?n settings service nodes) (\<lambda>_.
          bindG (wrapG ''failed to get load balancer after reconcile: %w'' [] (lbGet E k (lb_ID balancer))) (\<lambda>balancer'.
          returnG (lbStatus balancer'))))))))" for H1
    by (rule follows_bind [OF follows_quiet [OF quiet]],
        rule follows_known_bind [OF ensure_follows_reads [OF reads(1)] known_findLoadBalancer], rule found)
  show ?thesis
    unfolding EnsureLoadBalancer_def s liftG_simps bindG_return Let_def
    by (split if_split, intro conjI impI follows_fail follows_bind [OF lift], split if_split,
        intro conjI impI follows_fail run)
qed

end

end
