(* ===== verification/Elb_Interface.thy ===== *)
theory Elb_Interface
  imports Elb_Ensure Elb_Deletion
begin

section \<open>The load balancer interface as a whole\<close>

text \<open>
  Properties of the methods Kubernetes calls, over any cloud: what \<open>EnsureLoadBalancer\<close> and
  \<open>UpdateLoadBalancer\<close> may touch, what a success tells, which requests are rejected without a call, and
  that \<open>GetLoadBalancer\<close> only reads.
\<close>

subsection \<open>No balancer\<close>

text \<open>The cloud said that there is none: the list holds no balancer of the name, or the id was not found.\<close>

definition absent :: "serviceSettings \<Rightarrow> string \<Rightarrow> call set \<Rightarrow> bool" where
  "absent settings name S \<longleftrightarrow> (if LoadBalancerID settings = '''' then no_balancer settings name S
     else \<exists>e. LbGet (LoadBalancerID settings) (Inl e) \<in> S \<and> isNotFound e)"

lemma find_none_by_id:
  assumes "findLoadBalancer E k settings name w = (Ok None, w')" and "LoadBalancerID settings \<noteq> ''''"
  shows "\<exists>e. LbGet (LoadBalancerID settings) (Inl e) \<in> set (trace w') \<and> isNotFound e"
  using assms
  by (auto simp: findLoadBalancer_def getOrNone_def catchG_def bindG_def returnG_def failG_def lbGet_def sdkCall_def
      split: prod.splits res.splits sum.splits if_splits)

lemma find_none:
  assumes "findLoadBalancer E k settings name w = (Ok None, w')"
  shows "absent settings name (set (trace w'))"
  using knownD [OF known_findLoadBalancer assms] find_none_by_id [OF assms] by (simp add: absent_def)

subsection \<open>Waiting\<close>

text \<open>A successful wait made calls of the condition only, the last of which said so.\<close>

lemma attempts_last:
  assumes "emits A cond" and "attempts n e cond w = (Ok (), w')"
  shows "\<exists>w1 es. trace w1 = trace w @ es \<and> (\<forall>e \<in> set es. A e) \<and> cond w1 = (Ok True, w')"
  using assms(2)
proof (induction n arbitrary: w)
  case (Suc n)
  then obtain ok w1 where c: "cond w = (Ok ok, w1)" and rest: "(if ok then returnG () else attempts n e cond) w1 = (Ok (), w')"
    by (auto elim: bindG_OkE)
  show ?case
  proof (cases ok)
    case True
    then show ?thesis using c rest by (intro exI [of _ w] exI [of _ "[]"]) simp
  next
    case False
    then have "attempts n e cond w1 = (Ok (), w')" using rest by simp
    from Suc.IH [OF this] obtain w2 es where IH: "trace w2 = trace w1 @ es" "\<forall>e \<in> set es. A e" "cond w2 = (Ok True, w')"
      by blast
    obtain es1 where "trace w1 = trace w @ es1" "\<forall>e \<in> set es1. A e" using assms(1) c by (rule emitsD)
    then show ?thesis using IH by (intro exI [of _ w2] exI [of _ "es1 @ es"]) auto
  qed
qed simp

subsection \<open>Updating the members\<close>

definition member_target ::
  "serviceSettings \<Rightarrow> string \<Rightarrow> Service \<Rightarrow> call set \<Rightarrow> ServicePort \<Rightarrow> PoolObj \<Rightarrow> bool" where
  "member_target settings name service S port p \<longleftrightarrow> port \<in> set (Ports service) \<and>
     (\<exists>b ls l. the_balancer settings name S b \<and> LsList (lb_ID b) (Inr (Inr ls)) \<in> S \<and>
        listenersByKey ls (portKey port) = Some l \<and> pool_of (ls_ID l) S p)"

fun update_policy :: "serviceSettings \<Rightarrow> string \<Rightarrow> Service \<Rightarrow> Node list \<Rightarrow> call set \<Rightarrow> call \<Rightarrow> bool" where
  "update_policy settings name service nodes S (MbCreate j o1 r) \<longleftrightarrow>
     (\<exists>port p. member_target settings name service S port p \<and>
        members_policy (pl_ID p) (NodePort port) nodes S (MbCreate j o1 r))"
| "update_policy settings name service nodes S (MbDelete j i r) \<longleftrightarrow>
     (\<exists>port p. member_target settings name service S port p \<and>
        members_policy (pl_ID p) (NodePort port) nodes S (MbDelete j i r))"
| "update_policy settings name service nodes S e \<longleftrightarrow> read_only e"

lemma update_reads: "read_only e \<Longrightarrow> update_policy settings name service nodes S e"
  by (cases e) simp_all

lemma member_target_mono:
  "member_target settings name service S port p \<Longrightarrow> S \<subseteq> S' \<Longrightarrow> member_target settings name service S' port p"
  unfolding member_target_def by (blast intro: the_balancer_mono pool_of_mono)

subsection \<open>Evidence of a successful change\<close>

context wait_contract begin

lemma active_extends: "waitForActive E k i w = (r, w') \<Longrightarrow> set (trace w) \<subseteq> set (trace w')"
  using active_reads by (rule emitsD) auto

lemma mutate_shows:
  assumes "mutate E k i (bindG (sdkCall f ev) (\<lambda>_. returnG ())) w = (Ok (), w')"
  shows "\<exists>x. ev (Inr x) \<in> set (trace w')"
proof -
  obtain w1 w2 where "bindG (sdkCall f ev) (\<lambda>_. returnG ()) w1 = (Ok (), w2)"
    and act: "waitForActive E k i w2 = (Ok (), w')"
    using assms by (rule mutate_Ok)
  then obtain x where "ev (Inr x) \<in> set (trace w2)"
    by (auto elim!: bindG_OkE dest: sdkCall_shows)
  then show ?thesis using active_extends [OF act] by blast
qed

lemma retry_shows:
  assumes "retryOnConflict E i (sdkCall f ev) w = (Ok (), w')"
  shows "ev (Inr ()) \<in> set (trace w')"
  using retry_Ok [OF assms] by (auto dest: sdkCall_shows)

end

text \<open>
  The list of the pool's members was read and acted on: every usable node address is listed with the node port or
  was added with it, and of the listed members no node wants one of each endpoint was deleted or found gone
  (of two members of one endpoint the code deletes one).
\<close>

definition synced :: "int \<Rightarrow> Node list \<Rightarrow> call set \<Rightarrow> string \<Rightarrow> MemberObj list \<Rightarrow> bool" where
  "synced p nodes S j ms \<longleftrightarrow> MbList j (Inr (Inr ms)) \<in> S \<and>
     (\<forall>n \<in> set nodes. \<forall>a. nodeAddress n = Inr a \<longrightarrow>
        (\<exists>m \<in> set ms. mb_Address m = a \<and> mb_ProtocolPort m = p) \<or>
        (\<exists>o1 m. MbCreate j o1 (Inr m) \<in> S \<and> mc_Address o1 = a \<and> mc_ProtocolPort o1 = p)) \<and>
     (\<forall>m \<in> set ms. serves p nodes (mb_Address m) (mb_ProtocolPort m) \<or>
        (\<exists>m' \<in> set ms. mb_Address m' = mb_Address m \<and> mb_ProtocolPort m' = mb_ProtocolPort m \<and>
           (\<exists>r. MbDelete j (mb_ID m') r \<in> S \<and> gone r)))"

lemma synced_mono: "synced p nodes S j ms \<Longrightarrow> S \<subseteq> S' \<Longrightarrow> synced p nodes S' j ms"
  unfolding synced_def by blast

text \<open>A port is served: it has a working pool whose members were synchronised with the nodes.\<close>

definition port_served :: "serviceSettings \<Rightarrow> string \<Rightarrow> Service \<Rightarrow> Node list \<Rightarrow> call set \<Rightarrow> ServicePort \<Rightarrow> bool" where
  "port_served settings name service nodes S port \<longleftrightarrow>
     (\<exists>p ms. working_pool settings name service S port p \<and> synced (NodePort port) nodes S (pl_ID p) ms)"

lemma port_served_mono:
  "port_served settings name service nodes S port \<Longrightarrow> S \<subseteq> S' \<Longrightarrow> port_served settings name service nodes S' port"
  unfolding port_served_def by (blast intro: working_pool_mono synced_mono)

lemma eachG_shows:
  assumes "eachG f xs w = (Ok (), w')" and "\<And>x. emits (\<lambda>_. True) (f x)"
    and "\<And>x w w'. f x w = (Ok (), w') \<Longrightarrow> Q x (set (trace w'))" and "\<And>x S S'. Q x S \<Longrightarrow> S \<subseteq> S' \<Longrightarrow> Q x S'"
  shows "set (trace w) \<subseteq> set (trace w') \<and> (\<forall>x \<in> set xs. Q x (set (trace w')))"
  using assms(1)
proof (induction xs arbitrary: w)
  case (Cons x xs)
  then obtain w1 where one: "f x w = (Ok (), w1)" and rest: "eachG f xs w1 = (Ok (), w')"
    by (auto elim: bindG_OkE)
  have "set (trace w) \<subseteq> set (trace w1)" using assms(2) one by (rule emitsD) auto
  then show ?case using Cons.IH [OF rest] assms(4) [OF assms(3) [OF one]] by auto
qed simp

context wait_contract begin

lemma update_follows_reads: "emits read_only m \<Longrightarrow> follows (update_policy settings name service nodes) H m"
  by (erule follows_emits) (rule update_reads)

lemma reconcileMembers_follows_update:
  assumes "member_target settings name service H port p"
  shows "follows (update_policy settings name service nodes) H (reconcileMembers E k b (pl_ID p) (NodePort port) nodes)"
proof (rule follows_weaken_in [OF reconcileMembers_follows])
  fix S e assume S: "H \<subseteq> S" and e: "members_policy (pl_ID p) (NodePort port) nodes S e"
  have "member_target settings name service S port p" using assms S by (rule member_target_mono)
  then show "update_policy settings name service nodes S e"
    using e by (cases e) (simp_all add: update_reads, blast+)
qed

lemma updatePort_follows:
  assumes b: "the_balancer settings name H b" and ls: "LsList (lb_ID b) (Inr (Inr ls)) \<in> H"
    and port: "port \<in> set (Ports service)"
  shows "follows (update_policy settings name service nodes) H
     (case listenersByKey ls (portKey port) of
               None \<Rightarrow> failG (Errorf fmt args)
             | Some listener \<Rightarrow>
                 bindG (findPoolForListener E k (ls_ID listener)) (\<lambda>p. case p of
                     None \<Rightarrow> failG (Errorf ''pool for listener %s not found'' [ls_ID listener])
                   | Some pool \<Rightarrow> reconcileMembers E k b (pl_ID pool) (NodePort port) nodes))"
proof (cases "listenersByKey ls (portKey port)")
  case None
  then show ?thesis by (simp add: follows_fail)
next
  case (Some l)
  have "follows (update_policy settings name service nodes) H
      (bindG (findPoolForListener E k (ls_ID l)) (\<lambda>p. case p of
           None \<Rightarrow> failG (Errorf ''pool for listener %s not found'' [ls_ID l])
         | Some pool \<Rightarrow> reconcileMembers E k b (pl_ID pool) (NodePort port) nodes))"
  proof (rule follows_known_bind [OF update_follows_reads [OF reads(2)] known_findPool])
    fix r H1 assume H1: "H \<subseteq> H1" and r: "\<forall>p. r = Some p \<longrightarrow> pool_of (ls_ID l) H1 p"
    have "member_target settings name service H1 port p" if "r = Some p" for p
      using the_balancer_mono [OF b H1] ls H1 Some port r that unfolding member_target_def by blast
    then show "follows (update_policy settings name service nodes) H1 (case r of
           None \<Rightarrow> failG (Errorf ''pool for listener %s not found'' [ls_ID l])
         | Some pool \<Rightarrow> reconcileMembers E k b (pl_ID pool) (NodePort port) nodes)"
      by (cases r) (simp_all add: follows_fail reconcileMembers_follows_update)
  qed
  then show ?thesis using Some by simp
qed

lemma UpdateLoadBalancer_follows:
  assumes s: "settingsForService (opts lb) service = Inr settings" and quiet: "emits (\<lambda>_. False) (newClient lb)"
  shows "follows (update_policy settings (GetLoadBalancerName c service) service nodes) H
    (UpdateLoadBalancer E lb c service nodes)"
proof -
  let ?n = "GetLoadBalancerName c service"
  have found: "follows (update_policy settings ?n service nodes) H1
      (bindG (listListeners E k (lb_ID b)) (\<lambda>existing.
           eachG (\<lambda>port. case listenersByKey existing (portKey port) of
               None \<Rightarrow> failG (Errorf ''listener for port %s/%d of service %s/%s not found''
                   [Protocol port, dec_int (Port port), Namespace service, ServiceName service])
             | Some listener \<Rightarrow>
                 bindG (findPoolForListener E k (ls_ID listener)) (\<lambda>p. case p of
                     None \<Rightarrow> failG (Errorf ''pool for listener %s not found'' [ls_ID listener])
                   | Some pool \<Rightarrow> reconcileMembers E k b (pl_ID pool) (NodePort port) nodes))
             (Ports service)))"
    if b: "the_balancer settings ?n H1 b" for b H1 k
    by (rule follows_known_bind [OF update_follows_reads [OF reads(3)] known_listListeners], rule follows_each,
        rule updatePort_follows) (use the_balancer_mono [OF b] in auto)
  show ?thesis
    unfolding UpdateLoadBalancer_def s liftG_simps bindG_return Let_def
    by (rule follows_bind [OF follows_quiet [OF quiet]],
        rule follows_known_bind [OF update_follows_reads [OF reads(1)] known_findLoadBalancer])
      (auto split: option.splits intro: follows_fail found)
qed

subsection \<open>What a success tells\<close>

lemma follows_extends: "follows J H m \<Longrightarrow> m w = (r, w') \<Longrightarrow> H \<subseteq> set (trace w) \<Longrightarrow> set (trace w) \<subseteq> set (trace w')"
  by (erule (2) followsE) auto

lemma emits_addMember: "emits (\<lambda>_. True) (addMember E k b j p wanted present key)"
  unfolding addMember_def Let_def
  by (auto intro!: emits_rules mutate_emits split: option.split)

lemma emits_removeMember: "emits (\<lambda>_. True) (removeMember E k b j wanted present key)"
  unfolding removeMember_def by (auto intro!: emits_rules mutate_emits split: option.split)

lemma addMember_gives:
  assumes "addMember E k b j p (wantedMembers p nodes) (haveMembers ms) key w = (Ok (), w')"
  shows "map_of (wantedMembers p nodes) key \<noteq> None \<longrightarrow> map_of (haveMembers ms) key \<noteq> None \<or>
    (\<exists>o1 m. MbCreate j o1 (Inr m) \<in> set (trace w') \<and> key = memberKey (mc_Address o1) p \<and> mc_ProtocolPort o1 = p)"
proof (rule impI, rule disj_imp [THEN iffD2], rule impI)
  assume some: "map_of (wantedMembers p nodes) key \<noteq> None" and "\<not> map_of (haveMembers ms) key \<noteq> None"
  then have none: "map_of (haveMembers ms) key = None" by simp
  obtain n where n: "map_of (wantedMembers p nodes) key = Some n" using some by blast
  obtain a where a: "nodeAddress n = Inr a" "key = memberKey a p" using wantedMembers_Some [OF n] by blast
  let ?o = "\<lparr>mc_Address = a, mc_ProtocolPort = p, mc_Name = cutString (NodeName n) maxResourceNameLength,
      mc_SubnetID = lb_VipSubnetCidrID b\<rparr>"
  have "mutate E k (lb_ID b) (bindG (mbCreate E k j ?o) (\<lambda>_. returnG ())) w = (Ok (), w')"
    using assms none n a(1) by (auto simp: addMember_def dest: wrapG_OkE)
  then obtain m where "MbCreate j ?o (Inr m) \<in> set (trace w')"
    unfolding mbCreate_def using mutate_shows by blast
  then show "\<exists>o1 m. MbCreate j o1 (Inr m) \<in> set (trace w') \<and> key = memberKey (mc_Address o1) p \<and> mc_ProtocolPort o1 = p"
    using a(2) by (intro exI [of _ ?o] exI [of _ m]) simp
qed

lemma removeMember_gives:
  assumes "removeMember E k b j wanted present key w = (Ok (), w')"
  shows "map_of wanted key = None \<longrightarrow> (\<forall>i. map_of present key = Some i \<longrightarrow>
    (\<exists>r. MbDelete j i r \<in> set (trace w') \<and> gone r))"
proof (intro impI allI)
  fix i assume "map_of wanted key = None" and "map_of present key = Some i"
  then have run: "ignoreNotFound ''failed to remove member %s from pool %s: %w'' [key, j]
      (mutate E k (lb_ID b) (mbDelete E k j i)) w = (Ok (), w')"
    using assms by (simp add: removeMember_def)
  have "known (ignoreNotFound ''failed to remove member %s from pool %s: %w'' [key, j]
      (mutate E k (lb_ID b) (mbDelete E k j i))) (\<lambda>_ S. \<exists>r. MbDelete j i r \<in> S \<and> gone r)"
    unfolding mbDelete_def gone_def by (rule known_mutated_delete)
  from knownD [OF this run] show "\<exists>r. MbDelete j i r \<in> set (trace w') \<and> gone r" .
qed

lemma addMembers_gives:
  assumes "eachG (addMember E k b j p (wantedMembers p nodes) (haveMembers ms)) keys w = (Ok (), w')"
    and "set keys = fst ` set (wantedMembers p nodes)"
    and "n \<in> set nodes" and "nodeAddress n = Inr a"
  shows "(\<exists>m \<in> set ms. mb_Address m = a \<and> mb_ProtocolPort m = p) \<or>
    (\<exists>o1 m. MbCreate j o1 (Inr m) \<in> set (trace w') \<and> mc_Address o1 = a \<and> mc_ProtocolPort o1 = p)"
proof -
  let ?Q = "\<lambda>key S. map_of (wantedMembers p nodes) key \<noteq> None \<longrightarrow> map_of (haveMembers ms) key \<noteq> None \<or>
    (\<exists>o1 m. MbCreate j o1 (Inr m) \<in> S \<and> key = memberKey (mc_Address o1) p \<and> mc_ProtocolPort o1 = p)"
  have each: "\<forall>key \<in> set keys. ?Q key (set (trace w'))"
    by (rule conjunct2 [OF eachG_shows [OF assms(1) emits_addMember, of ?Q]]) (erule addMember_gives, blast)
  have some: "map_of (wantedMembers p nodes) (memberKey a p) \<noteq> None"
    unfolding wantedMembers_None using assms(3,4) by blast
  then have "memberKey a p \<in> set keys" unfolding assms(2) by (metis map_of_eq_None_iff)
  from bspec [OF each this] some show ?thesis
    by (auto simp: haveMembers_None)
qed

lemma removeMembers_gives:
  assumes "eachG (removeMember E k b j (wantedMembers p nodes) (haveMembers ms)) keys w = (Ok (), w')"
    and "set keys = fst ` set (haveMembers ms)" and m: "m \<in> set ms"
  shows "serves p nodes (mb_Address m) (mb_ProtocolPort m) \<or>
    (\<exists>m' \<in> set ms. mb_Address m' = mb_Address m \<and> mb_ProtocolPort m' = mb_ProtocolPort m \<and>
       (\<exists>r. MbDelete j (mb_ID m') r \<in> set (trace w') \<and> gone r))"
proof (rule disj_imp [THEN iffD2], rule impI)
  let ?key = "memberKey (mb_Address m) (mb_ProtocolPort m)"
  let ?Q = "\<lambda>key S. map_of (wantedMembers p nodes) key = None \<longrightarrow> (\<forall>i. map_of (haveMembers ms) key = Some i \<longrightarrow>
    (\<exists>r. MbDelete j i r \<in> S \<and> gone r))"
  assume "\<not> serves p nodes (mb_Address m) (mb_ProtocolPort m)"
  then have unwanted: "map_of (wantedMembers p nodes) ?key = None"
    by (auto simp: wantedMembers_None serves_def)
  have each: "\<forall>key \<in> set keys. ?Q key (set (trace w'))"
    by (rule conjunct2 [OF eachG_shows [OF assms(1) emits_removeMember, of ?Q]]) (erule removeMember_gives, blast)
  have "map_of (haveMembers ms) ?key \<noteq> None" unfolding haveMembers_None using m by blast
  then obtain i where i: "map_of (haveMembers ms) ?key = Some i" by blast
  then have "?key \<in> set keys" unfolding assms(2) by (metis map_of_SomeD fst_conv image_eqI)
  from bspec [OF each this] unwanted i have del: "\<exists>r. MbDelete j i r \<in> set (trace w') \<and> gone r" by blast
  obtain m' where "m' \<in> set ms" "mb_Address m' = mb_Address m" "mb_ProtocolPort m' = mb_ProtocolPort m" "mb_ID m' = i"
    using haveMembers_Some [OF i] by auto
  then show "\<exists>m' \<in> set ms. mb_Address m' = mb_Address m \<and> mb_ProtocolPort m' = mb_ProtocolPort m \<and>
       (\<exists>r. MbDelete j (mb_ID m') r \<in> set (trace w') \<and> gone r)"
    using del by blast
qed

lemma reconcileMembers_gives:
  assumes run: "reconcileMembers E k b j p nodes w = (Ok (), w')"
  shows "p \<noteq> 0 \<and> (\<exists>ms. synced p nodes (set (trace w')) j ms) \<and> (\<exists>n \<in> set nodes. \<exists>a. nodeAddress n = Inr a)"
proof -
  have p: "p \<noteq> 0" using run by (auto simp: reconcileMembers_def)
  obtain ms w1 where ms: "listMembers E k j w = (Ok ms, w1)"
    and rest: "(if wantedMembers p nodes = [] then failG (Errorf ''no usable node addresses for pool %s'' [j])
           else
             bindG (getG (\<lambda>w. rangeOrder w (map fst (wantedMembers p nodes)))) (\<lambda>keys.
             bindG (eachG (addMember E k b j p (wantedMembers p nodes) (haveMembers ms)) keys) (\<lambda>_.
             bindG (getG (\<lambda>w. rangeOrder w (map fst (haveMembers ms)))) (\<lambda>keys'.
             eachG (removeMember E k b j (wantedMembers p nodes) (haveMembers ms)) keys')))) w1 = (Ok (), w')"
    using run p by (auto simp: reconcileMembers_def Let_def elim: bindG_OkE)
  have wanted: "wantedMembers p nodes \<noteq> []" using rest by auto
  then have "\<exists>n \<in> set nodes. \<exists>a. nodeAddress n = Inr a"
    unfolding wantedMembers_Nil by (metis sum.exhaust)
  moreover obtain w2 where
      add: "eachG (addMember E k b j p (wantedMembers p nodes) (haveMembers ms)) (rangeOrder w1 (map fst (wantedMembers p nodes))) w1 = (Ok (), w2)"
    and remove: "eachG (removeMember E k b j (wantedMembers p nodes) (haveMembers ms)) (rangeOrder w2 (map fst (haveMembers ms))) w2 = (Ok (), w')"
    using rest wanted by (auto simp: getG_def bindG_def split: prod.splits res.splits)
  have keys: "set (rangeOrder u (map fst xs)) = fst ` set xs" for u :: "'c world" and xs :: "(string \<times> 'x) list"
    using mset_eq_setD [OF range_order [of u "map fst xs"]] by simp
  have e1: "set (trace w1) \<subseteq> set (trace w2)"
    by (rule emitsD [OF emits_each [OF emits_addMember] add]) auto
  have e2: "set (trace w2) \<subseteq> set (trace w')"
    by (rule emitsD [OF emits_each [OF emits_removeMember] remove]) auto
  have "MbList j (Inr (Inr ms)) \<in> set (trace w')"
    using knownD [OF known_listMembers ms] e1 e2 by blast
  then have "synced p nodes (set (trace w')) j ms"
    unfolding synced_def using addMembers_gives [OF add keys] removeMembers_gives [OF remove keys] e2 by blast
  ultimately show ?thesis using p by blast
qed

lemma reconcilePort_gives:
  assumes b: "served settings name H b" and ls: "LsList (lb_ID b) (Inr (Inr ls)) \<in> H"
    and port: "port \<in> set (Ports service)" and H: "H \<subseteq> set (trace w)"
    and run: "reconcilePort E k b name settings service nodes (listenersByKey ls) port w = (Ok (), w')"
  shows "port_served settings name service nodes (set (trace w')) port \<and> NodePort port \<noteq> 0 \<and>
    (\<exists>n \<in> set nodes. \<exists>a. nodeAddress n = Inr a)"
proof -
  from run [unfolded reconcilePort_def] obtain l w1 u w2 p w3 v w4
    where l: "working settings name service (set (trace w1)) port l"
      and g: "reconcileIPGroup E k (lb_ID b) l name service port w1 = (Ok u, w2)"
      and p: "ensurePool E k (lb_ID b) l name settings service port w2 = (Ok p, w3)"
      and m: "reconcileMembers E k b (pl_ID p) (NodePort port) nodes w3 = (Ok v, w4)"
      and o1: "reconcileMonitor E k (lb_ID b) p name settings service port w4 = (Ok (), w')"
    by (elim bindG_OkE) (use known_findListener [OF b ls port H] in blast)
  note l2 = working_mono [OF l follows_extends [OF reconcileIPGroup_follows [OF l] g order_refl]]
  note l3 = working_mono [OF l2 follows_extends [OF ensurePool_follows [OF l2] p order_refl]]
  have "working_pool settings name service (set (trace w3)) port p"
    using l3 ensurePool_gives [OF l2 order_refl p] by (auto simp: working_pool_def)
  then have p4: "working_pool settings name service (set (trace w4)) port p"
    using follows_extends [OF reconcileMembers_follows m order_refl] by (rule working_pool_mono)
  have "port_served settings name service nodes (set (trace w4)) port"
    using p4 reconcileMembers_gives m unfolding port_served_def by fastforce
  then have "port_served settings name service nodes (set (trace w')) port"
    using follows_extends [OF reconcileMonitor_follows [OF p4] o1 order_refl] by (rule port_served_mono)
  then show ?thesis using reconcileMembers_gives m by fastforce
qed

lemma ports_served:
  assumes b: "served settings name H b" and ls: "LsList (lb_ID b) (Inr (Inr ls)) \<in> H"
    and "set ports \<subseteq> set (Ports service)" and "H \<subseteq> set (trace w)"
    and "eachG (reconcilePort E k b name settings service nodes (listenersByKey ls)) ports w = (Ok (), w')"
  shows "H \<subseteq> set (trace w') \<and> (\<forall>port \<in> set ports. port_served settings name service nodes (set (trace w')) port)"
  using assms(3,4,5)
proof (induction ports arbitrary: w)
  case (Cons port ports)
  then obtain w1 where one: "reconcilePort E k b name settings service nodes (listenersByKey ls) port w = (Ok (), w1)"
    and rest: "eachG (reconcilePort E k b name settings service nodes (listenersByKey ls)) ports w1 = (Ok (), w')"
    by (auto elim: bindG_OkE)
  have port: "port \<in> set (Ports service)" and sub: "set ports \<subseteq> set (Ports service)" using Cons.prems by auto
  have H1: "H \<subseteq> set (trace w1)"
    using follows_extends [OF reconcilePort_follows [OF b ls port] one Cons.prems(2)] Cons.prems(2) by blast
  have each: "follows (ensure_policy settings name service nodes) H
      (eachG (reconcilePort E k b name settings service nodes (listenersByKey ls)) ports)"
    by (rule follows_each, rule reconcilePort_follows) (use served_mono [OF b] ls sub in auto)
  have "port_served settings name service nodes (set (trace w')) port"
    using reconcilePort_gives [OF b ls port Cons.prems(2) one] follows_extends [OF each rest H1] port_served_mono by blast
  then show ?case using Cons.IH [OF sub H1 rest] by simp
qed simp

lemma reconcile_gives:
  assumes b: "served settings name H b" and H: "H \<subseteq> set (trace w)"
    and run: "reconcile E k b name settings service nodes w = (Ok (), w')"
  shows "\<forall>port \<in> set (Ports service). port_served settings name service nodes (set (trace w')) port"
proof -
  let ?del = "\<lambda>ls. eachG (\<lambda>listener.
       if \<not> HasPrefix (ls_Name listener) (name @ ''_'') then returnG ()
       else if listenerKey listener \<in> set (map portKey (Ports service)) then returnG ()
       else deleteListener E k (lb_ID b) name listener) ls"
  from run [unfolded reconcile_def] obtain ls w1 u w2
    where ls: "listListeners E k (lb_ID b) w = (Ok ls, w1)"
      and each: "eachG (reconcilePort E k b name settings service nodes (listenersByKey ls)) (Ports service) w1 = (Ok u, w2)"
      and del: "?del ls w2 = (Ok (), w')"
    by (elim bindG_OkE)
  have H1: "set (trace w) \<subseteq> set (trace w1)"
    using reads(3) ls by (rule emitsD) auto
  note b1 = served_mono [OF b order_trans [OF H H1]]
  have list: "LsList (lb_ID b) (Inr (Inr ls)) \<in> set (trace w1)"
    using knownD [OF known_listListeners ls] .
  have ports: "\<forall>port \<in> set (Ports service). port_served settings name service nodes (set (trace w2)) port"
    using ports_served [OF b1 list order_refl order_refl] each by simp
  have "follows (teardown (\<lambda>_ _. True) name) (set (trace w2)) (?del ls)"
    by (rule follows_each) (simp add: follows_return deleteListener_follows stable_def)
  then have "set (trace w2) \<subseteq> set (trace w')" using del by (rule follows_extends) simp
  then show ?thesis using ports port_served_mono by blast
qed

lemma emits_createLoadBalancer: "emits (\<lambda>e. \<exists>o1 r. e = LbCreate o1 r) (createLoadBalancer E k settings name service)"
  unfolding createLoadBalancer_def Let_def by (auto intro!: emits_rules)

lemma active_last:
  assumes "waitForActive E k i w = (Ok (), w')"
  shows "\<exists>es b. trace w' = trace w @ es @ [LbGet i (Inr b)] \<and> lb_ProvisioningStatus b = statusActive \<and>
    (\<forall>e \<in> set es. \<exists>r. e = LbGet i r)"
proof -
  obtain n e where att: "attempts n e (activeCond E k i) w = (Ok (), w')"
    using assms by (rule activeE)
  have "emits (\<lambda>e. \<exists>r. e = LbGet i r) (activeCond E k i)"
    unfolding activeCond_def by (intro emits_rules) blast
  then obtain w1 es where es: "trace w1 = trace w @ es" "\<forall>e \<in> set es. \<exists>r. e = LbGet i r"
    and last: "activeCond E k i w1 = (Ok True, w')"
    using attempts_last [OF _ att] by blast
  obtain b where "trace w' = trace w1 @ [LbGet i (Inr b)]" "lb_ProvisioningStatus b = statusActive"
    using last by (auto simp: activeCond_def lbGet_def sdkCall_def bindG_def
        split: prod.splits res.splits if_splits sum.splits)
  then show ?thesis using es by (intro exI [of _ es] exI [of _ b]) simp
qed

lemma EnsureLoadBalancer_gives:
  assumes s: "settingsForService (opts lb) service = Inr settings" and quiet: "emits (\<lambda>_. False) (newClient lb)"
    and run: "EnsureLoadBalancer E lb c service nodes w = (Ok status, w')"
  shows "\<exists>es0 es1 b b1 b2.
    trace w' = trace w @ es0 @ [LbGet (lb_ID b) (Inr b1)] @ es1 @ [LbGet (lb_ID b) (Inr b2)] \<and>
    (\<forall>e \<in> set es0. read_only e \<or> (\<exists>o1 r. e = LbCreate o1 r)) \<and>
    lb_ProvisioningStatus b1 = statusActive \<and> status = lbStatus b2 \<and>
    served settings (GetLoadBalancerName c service) (set (trace w @ es0)) b \<and>
    (\<forall>port \<in> set (Ports service). port_served settings (GetLoadBalancerName c service) service nodes (set (trace w')) port)"
proof -
  let ?n = "GetLoadBalancerName c service"
  let ?choose = "\<lambda>k found. case found of
              Some balancer \<Rightarrow> returnG balancer
            | None \<Rightarrow>
                if LoadBalancerID settings \<noteq> '''' then
                  failG (Errorf ''load balancer %q referenced by annotation %s not found''
                    [LoadBalancerID settings, AnnotationID])
                else createLoadBalancer E k settings ?n service"
  have ports: "Ports service \<noteq> []" using run by (auto simp: EnsureLoadBalancer_def)
  obtain u0 where valid: "validatePorts service = Inr u0"
    using run ports by (cases "validatePorts service") (auto simp: EnsureLoadBalancer_def)
  have "nodes \<noteq> []" using run ports valid by (auto simp: EnsureLoadBalancer_def)
  with run ports valid obtain k w1 found w2 b w3 u w4 v w5 b2 where
      client: "newClient lb w = (Ok k, w1)" and find: "findLoadBalancer E k settings ?n w1 = (Ok found, w2)"
    and choose: "?choose k found w2 = (Ok b, w3)"
    and act: "waitForActive E k (lb_ID b) w3 = (Ok u, w4)"
    and rec: "reconcile E k b ?n settings service nodes w4 = (Ok v, w5)"
    and get: "lbGet E k (lb_ID b) w5 = (Ok b2, w')" and st: "status = lbStatus b2"
    unfolding EnsureLoadBalancer_def s liftG_simps bindG_return Let_def
    by (auto elim!: bindG_OkE dest!: wrapG_OkE)
  have b3: "served settings ?n (set (trace w3)) b"
    using knownD [OF known_findLoadBalancer find] choose knownD [OF known_createLoadBalancer]
    by (cases found) (auto simp: served_def split: if_splits)
  have w1: "trace w1 = trace w"
    using quiet client by (rule emitsD) (simp add: ex_in_conv [symmetric])
  obtain ea where ea: "trace w2 = trace w1 @ ea" "\<forall>e \<in> set ea. read_only e"
    using reads(1) find by (rule emitsD)
  have "emits (\<lambda>e. \<exists>o1 r. e = LbCreate o1 r) (?choose k found)"
    by (auto intro!: emits_rules emits_createLoadBalancer split: option.split)
  then obtain eb where eb: "trace w3 = trace w2 @ eb" "\<forall>e \<in> set eb. \<exists>o1 r. e = LbCreate o1 r"
    using choose by (rule emitsD)
  have "waitForActive E k (lb_ID b) w3 = (Ok (), w4)" using act by simp
  then obtain ec and b1 :: BalancerObj where ec: "trace w4 = trace w3 @ ec @ [LbGet (lb_ID b) (Inr b1)]"
    "lb_ProvisioningStatus b1 = statusActive" "\<forall>e \<in> set ec. \<exists>r. e = LbGet (lb_ID b) r"
    by (elim exE conjE active_last [elim_format]) (rule that)
  have b4: "served settings ?n (set (trace w4)) b" by (rule served_mono [OF b3]) (auto simp: ec(1))
  obtain ed where ed: "trace w5 = trace w4 @ ed"
    using reconcile_follows [OF b4] rec order_refl by (rule followsE)
  have w': "trace w' = trace w5 @ [LbGet (lb_ID b) (Inr b2)]"
    using get by (auto simp: lbGet_def sdkCall_def split: prod.splits sum.splits)
  have "\<forall>port \<in> set (Ports service). port_served settings ?n service nodes (set (trace w5)) port"
    using reconcile_gives [OF b4 order_refl] rec by simp
  then have ports: "\<forall>port \<in> set (Ports service). port_served settings ?n service nodes (set (trace w')) port"
    using port_served_mono [of settings ?n service nodes "set (trace w5)" _ "set (trace w')"] w' by auto
  have "served settings ?n (set (trace w @ ea @ eb @ ec)) b"
    by (rule served_mono [OF b3]) (simp add: w1 ea(1) eb(1) subset_iff)
  moreover have "\<forall>e \<in> set (ea @ eb @ ec). read_only e \<or> (\<exists>o1 r. e = LbCreate o1 r)"
    using ea(2) eb(2) ec(3) by fastforce
  moreover have "trace w' = trace w @ (ea @ eb @ ec) @ [LbGet (lb_ID b) (Inr b1)] @ ed @ [LbGet (lb_ID b) (Inr b2)]"
    using w1 ea(1) eb(1) ec(1) ed w' by simp
  ultimately show ?thesis using ports st ec(2)
    by (intro exI [of _ "ea @ eb @ ec"] exI [of _ ed] exI [of _ b] exI [of _ b1] exI [of _ b2] conjI)
qed

end

end
