(* ===== verification/Elb_Requests.thy ===== *)
theory Elb_Requests
  imports Elb_Interface
begin

section \<open>Requests to the load balancer\<close>

text \<open>
  The properties of the methods Kubernetes calls, with runs on the fake ELB as witnesses.
\<close>

subsection \<open>A run on the fake ELB\<close>

text \<open>
  \<open>EnsureLoadBalancer\<close> for one port and one node, on the balancer of \<open>testState\<close> whose listener has no
  pool yet, and the state it leaves.
\<close>

definition servedState :: fakeELB where
  "servedState = testState\<lparr>nextID := 3,
     listeners := [(''ls-1'', \<lparr>fl_obj = \<lparr>ls_ID = ''ls-1'', ls_Name = ''kube_service_c_default_web_TCP_80'',
         ls_Protocol = ''TCP'', ls_ProtocolPort = 80, ls_DefaultPoolID = ''pool-0001'', ls_IpGroupID = '''',
         ls_IpGroupEnable = None\<rparr>, fl_loadbalancer_id = ''lb-1'', fl_keepalive = 0\<rparr>),
       (''ls-2'', testListener ''ls-2'' ''somebody-else'' 443)],
     pools := [(''pool-0001'', \<lparr>pl_ID = ''pool-0001'', pl_Name = ''kube_service_c_default_web_TCP_80'',
       pl_LBMethod = ''ROUND_ROBIN'', pl_Persistence = None, pl_MonitorID = ''monitor-0003''\<rparr>)],
     monitors := [(''monitor-0003'', \<lparr>fm_obj = \<lparr>mo_ID = ''monitor-0003'', mo_Type = ''TCP'', mo_MonitorPort = 0,
       mo_Delay = 5, mo_Timeout = 3, mo_MaxRetries = 3, mo_URLPath = '''', mo_HTTPMethod = ''''\<rparr>,
       fm_pool_id = ''pool-0001''\<rparr>)],
     members := [(''pool-0001'', [(''member-0002'', \<lparr>mb_ID = ''member-0002'', mb_Address = ''10.0.0.1'',
       mb_ProtocolPort = 30080\<rparr>)])]\<rparr>"

declare servedState_def [run]

lemma ensure_run:
  "\<exists>w'. EnsureLoadBalancer fake_env testLoadBalancer ''c'' (testService [port80]) [testNode ''n1'' ''10.0.0.1'']
      (world_of testState) = (Ok \<lparr>Ingress = [''80.158.0.1'']\<rparr>, w') \<and> cloud w' = servedState"
  by (simp add: run)

lemma testService_settings: "settingsForService (opts testLoadBalancer) (testService ps) = Inr plainSettings"
  by (simp only: testService_def fixture_fields settings_fixtures)

lemma testLoadBalancer_clients: "clients_quiet testLoadBalancer"
  by (simp add: clients_quiet_def)

subsection \<open>Reconciliation\<close>

text \<open>
  C4: what a reconciliation may do. Every call of \<open>EnsureLoadBalancer\<close> is allowed by \<open>ensure_policy\<close>
  at the moment it is made, whatever the cloud answers: a balancer is created only when no id is given, the
  list showed none of the name, and subnet and zones are set; it and EIPs are never deleted. A listener is
  created only for a port that had none in the list. All further work is on the listeners that serve a port:
  those the list showed with its protocol and port, whoever made them, and those just created. They
  are updated to set the idle timeout (whenever one is configured; it is not compared) or to attach or detach
  an IP group that carries the port's name; such a group is created only where none is and changed
  only when it compares different. Their pool is created only when they have none, and changed only when it
  differs from the wanted algorithm and persistence; a member is added only for a node that has none in the
  pool's list, and deleted only when no node wants it; a monitor is created only where none is or
  the old one is gone, updated only when it differs, and deleted only when it has the wrong type or port
  or checks are disabled. Every other deletion is of a listener that carries the Service's name and serves none of
  its ports, or of what hangs on it.
\<close>

theorem ensure_follows_policy:
  assumes "wait_contract E" and "clients_quiet lb"
    and "settingsForService (opts lb) service = Inr settings"
    and "EnsureLoadBalancer E lb c service nodes w = (r, w')"
  shows "\<exists>es. trace w' = trace w @ es \<and>
    (\<forall>i < length es. ensure_policy settings (GetLoadBalancerName c service) service nodes
       (set (trace w) \<union> set (take i es)) (es ! i))"
proof -
  have "emits (\<lambda>_. False) (newClient lb)" using assms(2) by (simp add: clients_quiet_def)
  then obtain es where "trace w' = trace w @ es"
    "obeys (ensure_policy settings (GetLoadBalancerName c service) service nodes) (set (trace w)) es"
    using wait_contract.EnsureLoadBalancer_follows [OF assms(1,3), of c nodes "{}"] assms(4)
    by (auto elim: followsE)
  then show ?thesis by (auto intro: obeys_at)
qed

theorem ensure_follows_policy_witness:
  "\<exists>w'. EnsureLoadBalancer fake_env testLoadBalancer ''c'' (testService [port80]) [testNode ''n1'' ''10.0.0.1'']
      (world_of testState) = (Ok \<lparr>Ingress = [''80.158.0.1'']\<rparr>, w') \<and> cloud w' = servedState \<and>
     (\<forall>i < length (trace w'). ensure_policy plainSettings (GetLoadBalancerName ''c'' (testService [port80]))
        (testService [port80]) [testNode ''n1'' ''10.0.0.1''] (set (take i (trace w'))) (trace w' ! i))"
proof -
  obtain w' where run: "EnsureLoadBalancer fake_env testLoadBalancer ''c'' (testService [port80])
      [testNode ''n1'' ''10.0.0.1''] (world_of testState) = (Ok \<lparr>Ingress = [''80.158.0.1'']\<rparr>, w')"
    "cloud w' = servedState" using ensure_run by (elim exE conjE)
  from ensure_follows_policy [OF fake.wait_contract_axioms testLoadBalancer_clients testService_settings run(1)] run
  show ?thesis by (simp add: world_of_def)
qed

text \<open>
  C13: a success means what it says. When \<open>EnsureLoadBalancer\<close> returns a status, it is that of the
  balancer as read by the last call; that balancer is the one found by name or id, or just created, and it
  was read ACTIVE before any listener, pool, member or monitor was touched (up to that read the call only
  looked things up and created the balancer); and every port has a listener and a pool whose members were listed
  and brought in line with the nodes: every usable node address is listed with the node port or
  was added, and of the listed members no node wants one of each endpoint was deleted or found gone.
\<close>

theorem ensure_success:
  assumes "wait_contract E" and "clients_quiet lb"
    and "settingsForService (opts lb) service = Inr settings"
    and "EnsureLoadBalancer E lb c service nodes w = (Ok status, w')"
  shows "\<exists>es0 es1 b b1 b2.
    trace w' = trace w @ es0 @ [LbGet (lb_ID b) (Inr b1)] @ es1 @ [LbGet (lb_ID b) (Inr b2)] \<and>
    (\<forall>e \<in> set es0. read_only e \<or> (\<exists>o1 r. e = LbCreate o1 r)) \<and>
    lb_ProvisioningStatus b1 = statusActive \<and> status = lbStatus b2 \<and>
    served settings (GetLoadBalancerName c service) (set (trace w @ es0)) b \<and>
    (\<forall>port \<in> set (Ports service). port_served settings (GetLoadBalancerName c service) service nodes (set (trace w')) port)"
proof -
  have "emits (\<lambda>_. False) (newClient lb)" using assms(2) by (simp add: clients_quiet_def)
  then show ?thesis by (rule wait_contract.EnsureLoadBalancer_gives [OF assms(1,3) _ assms(4)])
qed

theorem ensure_success_witness:
  "\<exists>w' es0 es1 (b :: BalancerObj) (b1 :: BalancerObj) (b2 :: BalancerObj).
     EnsureLoadBalancer fake_env testLoadBalancer ''c'' (testService [port80]) [testNode ''n1'' ''10.0.0.1'']
       (world_of testState) = (Ok \<lparr>Ingress = [''80.158.0.1'']\<rparr>, w') \<and>
     trace w' = es0 @ [LbGet (lb_ID b) (Inr b1)] @ es1 @ [LbGet (lb_ID b) (Inr b2)] \<and>
     lbStatus b2 = \<lparr>Ingress = [''80.158.0.1'']\<rparr> \<and>
     port_served plainSettings (GetLoadBalancerName ''c'' (testService [port80])) (testService [port80])
       [testNode ''n1'' ''10.0.0.1''] (set (trace w')) port80"
proof -
  obtain w' where run: "EnsureLoadBalancer fake_env testLoadBalancer ''c'' (testService [port80])
      [testNode ''n1'' ''10.0.0.1''] (world_of testState) = (Ok \<lparr>Ingress = [''80.158.0.1'']\<rparr>, w')"
    using ensure_run by (elim exE conjE)
  have port: "port80 \<in> set (Ports (testService [port80]))" by (simp add: testService_def fixture_fields)
  obtain es0 es1 and b b1 b2 :: BalancerObj where
      tr: "trace w' = trace (world_of testState) @ es0 @ [LbGet (lb_ID b) (Inr b1)] @ es1 @ [LbGet (lb_ID b) (Inr b2)]"
    and st: "\<lparr>Ingress = [''80.158.0.1'']\<rparr> = lbStatus b2"
    and served: "\<forall>port \<in> set (Ports (testService [port80])).
      port_served plainSettings (GetLoadBalancerName ''c'' (testService [port80])) (testService [port80])
        [testNode ''n1'' ''10.0.0.1''] (set (trace w')) port"
    using ensure_success [OF fake.wait_contract_axioms testLoadBalancer_clients testService_settings run]
    by (elim exE conjE) (rule that)
  have "trace w' = es0 @ [LbGet (lb_ID b) (Inr b1)] @ es1 @ [LbGet (lb_ID b) (Inr b2)]"
    using tr by (simp add: world_of_def)
  then show ?thesis
    using run st [symmetric] bspec [OF served port]
    by (intro exI [of _ w'] exI [of _ es0] exI [of _ es1] exI [of _ b] exI [of _ b1] exI [of _ b2] conjI)
qed

subsection \<open>Node updates\<close>

text \<open>
  C16: a node update touches members only. Every call of \<open>UpdateLoadBalancer\<close> reads, adds a member
  for a node that has none, or deletes a member no node wants, in the pool of a listener that the list
  showed for one of the Service's ports; listeners, pools, monitors and the balancer stay as they are.
\<close>

theorem update_follows_policy:
  assumes "wait_contract E" and "clients_quiet lb"
    and "settingsForService (opts lb) service = Inr settings"
    and "UpdateLoadBalancer E lb c service nodes w = (r, w')"
  shows "\<exists>es. trace w' = trace w @ es \<and>
    (\<forall>i < length es. update_policy settings (GetLoadBalancerName c service) service nodes
       (set (trace w) \<union> set (take i es)) (es ! i))"
proof -
  have "emits (\<lambda>_. False) (newClient lb)" using assms(2) by (simp add: clients_quiet_def)
  then obtain es where "trace w' = trace w @ es"
    "obeys (update_policy settings (GetLoadBalancerName c service) service nodes) (set (trace w)) es"
    using wait_contract.UpdateLoadBalancer_follows [OF assms(1,3), of c nodes "{}"] assms(4)
    by (auto elim: followsE)
  then show ?thesis by (auto intro: obeys_at)
qed

theorem update_follows_policy_witness:
  "\<exists>w'. UpdateLoadBalancer fake_env testLoadBalancer ''c'' (testService [port80]) [testNode ''n2'' ''10.0.0.2'']
      (world_of servedState) = (Ok (), w') \<and>
     MbDelete ''pool-0001'' ''member-0002'' (Inr ()) \<in> set (trace w') \<and>
     (\<forall>i < length (trace w'). update_policy plainSettings (GetLoadBalancerName ''c'' (testService [port80]))
        (testService [port80]) [testNode ''n2'' ''10.0.0.2''] (set (take i (trace w'))) (trace w' ! i))"
proof -
  have "\<exists>w'. UpdateLoadBalancer fake_env testLoadBalancer ''c'' (testService [port80]) [testNode ''n2'' ''10.0.0.2'']
      (world_of servedState) = (Ok (), w') \<and> MbDelete ''pool-0001'' ''member-0002'' (Inr ()) \<in> set (trace w')"
    by (simp add: run)
  then obtain w' where run: "UpdateLoadBalancer fake_env testLoadBalancer ''c'' (testService [port80])
      [testNode ''n2'' ''10.0.0.2''] (world_of servedState) = (Ok (), w')"
    "MbDelete ''pool-0001'' ''member-0002'' (Inr ()) \<in> set (trace w')" by (elim exE conjE)
  from update_follows_policy [OF fake.wait_contract_axioms testLoadBalancer_clients testService_settings run(1)] run
  show ?thesis by (simp add: world_of_def)
qed


subsection \<open>Queries and rejected requests\<close>

text \<open>
  C31: \<open>GetLoadBalancer\<close> only reads and reports what it read: a status is that of the balancer with the
  annotated id, or of a listed one with exactly the Service's name; "none" is reported only when the cloud
  said so: the id was not found, or the list holds no balancer of the name.
\<close>

theorem GetLoadBalancer_reports:
  assumes "clients_quiet lb" and "settingsForService (opts lb) service = Inr settings"
    and "GetLoadBalancer E lb c service w = (r, w')"
  shows "(\<exists>es. trace w' = trace w @ es \<and> (\<forall>e \<in> set es. read_only e)) \<and>
    (\<forall>status. r = Ok (Some status) \<longrightarrow>
       (\<exists>b. the_balancer settings (GetLoadBalancerName c service) (set (trace w')) b \<and> status = lbStatus b)) \<and>
    (r = Ok None \<longrightarrow> absent settings (GetLoadBalancerName c service) (set (trace w')))"
proof -
  let ?n = "GetLoadBalancerName c service"
  have run: "bindG (newClient lb) (\<lambda>k. bindG (findLoadBalancer E k settings ?n) (\<lambda>balancer.
      returnG (map_option lbStatus balancer))) w = (r, w')"
    using assms(2,3) by (simp add: GetLoadBalancer_def)
  have "emits read_only (newClient lb)"
    using assms(1) by (auto simp: clients_quiet_def emits_def elim!: produces_weaken)
  then have "emits read_only (bindG (newClient lb) (\<lambda>k. bindG (findLoadBalancer E k settings ?n) (\<lambda>balancer.
      returnG (map_option lbStatus balancer))))"
    by (intro emits_rules)
  then obtain es where es: "trace w' = trace w @ es" "\<forall>e \<in> set es. read_only e"
    using run by (rule emitsD)
  have found: "\<exists>k w1 b. findLoadBalancer E k settings ?n w1 = (Ok b, w') \<and> x = map_option lbStatus b" if "r = Ok x" for x
    using run that by (auto elim!: bindG_OkE) blast
  show ?thesis
  proof (intro conjI allI impI)
    show "\<exists>es. trace w' = trace w @ es \<and> (\<forall>e \<in> set es. read_only e)" using es by blast
  next
    fix status assume "r = Ok (Some status)"
    then obtain k w1 b where "findLoadBalancer E k settings ?n w1 = (Ok (Some b), w')" "status = lbStatus b"
      using found by (metis map_option_eq_Some)
    then show "\<exists>b. the_balancer settings ?n (set (trace w')) b \<and> status = lbStatus b"
      using knownD [OF known_findLoadBalancer] by fastforce
  next
    assume "r = Ok None"
    then obtain k w1 where "findLoadBalancer E k settings ?n w1 = (Ok None, w')"
      using found by (metis option.map_disc_iff)
    then show "absent settings ?n (set (trace w'))" by (rule find_none)
  qed
qed

theorem GetLoadBalancer_reports_witness:
  "\<exists>w' b. GetLoadBalancer fake_env testLoadBalancer ''c'' (testService [port80]) (world_of testState) =
       (Ok (Some \<lparr>Ingress = [''80.158.0.1'']\<rparr>), w') \<and>
     the_balancer plainSettings (GetLoadBalancerName ''c'' (testService [port80])) (set (trace w')) b \<and>
     lbStatus b = \<lparr>Ingress = [''80.158.0.1'']\<rparr>"
proof -
  have "\<exists>w'. GetLoadBalancer fake_env testLoadBalancer ''c'' (testService [port80]) (world_of testState) =
       (Ok (Some \<lparr>Ingress = [''80.158.0.1'']\<rparr>), w')"
    by (simp add: run)
  then obtain w' where run: "GetLoadBalancer fake_env testLoadBalancer ''c'' (testService [port80]) (world_of testState) =
       (Ok (Some \<lparr>Ingress = [''80.158.0.1'']\<rparr>), w')" ..
  from GetLoadBalancer_reports [OF testLoadBalancer_clients testService_settings run] run
  show ?thesis by fastforce
qed

text \<open>
  C20: what is rejected before anything is asked of the cloud. Without ports, with a port that is neither TCP
  nor UDP, without nodes or with annotations that are not acceptable, \<open>EnsureLoadBalancer\<close> fails and
  neither the cloud nor the history changes. The other three methods check the annotations only: when they are
  not acceptable, these fail the same way, with the error of the settings, deletion included.
\<close>

theorem invalid_requests_rejected:
  assumes "Ports service = [] \<or> (\<exists>e. validatePorts service = Inl e) \<or> nodes = [] \<or>
    (\<exists>e. settingsForService (opts lb) service = Inl e)"
  shows "(\<exists>e. EnsureLoadBalancer E lb c service nodes w = (Fail e, w)) \<and>
    (\<forall>e. settingsForService (opts lb) service = Inl e \<longrightarrow>
       GetLoadBalancer E lb c service w = (Fail e, w) \<and>
       UpdateLoadBalancer E lb c service nodes w = (Fail e, w) \<and>
       EnsureLoadBalancerDeleted E lb c service w = (Fail e, w))"
proof (intro conjI allI impI)
  show "\<exists>e. EnsureLoadBalancer E lb c service nodes w = (Fail e, w)"
    using assms by (cases "validatePorts service"; cases "settingsForService (opts lb) service")
      (auto simp: EnsureLoadBalancer_def bindG_Fail)
qed (simp_all add: GetLoadBalancer_def UpdateLoadBalancer_def EnsureLoadBalancerDeleted_def)

theorem invalid_requests_rejected_witness:
  "\<exists>e. EnsureLoadBalancer fake_env testLoadBalancer ''c'' (testService []) [testNode ''n1'' ''10.0.0.1'']
     (world_of testState) = (Fail e, world_of testState)"
  using invalid_requests_rejected [of "testService []" "[testNode ''n1'' ''10.0.0.1'']" testLoadBalancer fake_env
      "''c''" "world_of testState"]
  by (simp add: testService_def fixture_fields)

end
