(* ===== verification/Elb_Effects.thy ===== *)
theory Elb_Effects
  imports Elb_Interface
begin

section \<open>What the operations achieve\<close>

text \<open>
  What the history shows when an operation on a sub-resource reports success: retries are bounded and
  conflicts are not passed on, a change is followed by an ACTIVE balancer, the whitelist of a listener is in
  place, the monitor of a pool is the wanted one. And where \<open>ensurePool\<close> does not return at all.
\<close>

subsection \<open>IP address groups\<close>

context wait_contract begin

lemma attachIPGroup_gives:
  assumes "attachIPGroup E k lbID lsID i w = (Ok (), w')"
  shows "\<exists>o1 x. LsUpdate lsID o1 (Inr x) \<in> set (trace w') \<and>
    nu_IpGroup o1 = Some \<lparr>iu_IpGroupId = i, iu_Enable = True, iu_Type = ''white''\<rparr>"
proof -
  let ?o = "\<lparr>nu_KeepAliveTimeout = 0, nu_IpGroup = Some \<lparr>iu_IpGroupId = i, iu_Enable = True, iu_Type = ''white''\<rparr>\<rparr>"
  have "mutate E k lbID (bindG (lsUpdate E k lsID ?o) (\<lambda>_. returnG ())) w = (Ok (), w')"
    using assms unfolding attachIPGroup_def by (rule wrapG_OkE)
  then obtain x where "LsUpdate lsID ?o (Inr x) \<in> set (trace w')"
    unfolding lsUpdate_def using mutate_shows by blast
  then show ?thesis by (intro exI [of _ ?o] exI [of _ x]) simp
qed

lemma attachIPGroup_extends: "attachIPGroup E k lbID lsID i w = (r, w') \<Longrightarrow> set (trace w) \<subseteq> set (trace w')"
proof -
  have "follows (\<lambda>_ _. True) {} (attachIPGroup E k lbID lsID i)"
    unfolding attachIPGroup_def lsUpdate_def by (intro follows_wrap follows_mutate follows_call) simp_all
  then show "attachIPGroup E k lbID lsID i w = (r, w') \<Longrightarrow> set (trace w) \<subseteq> set (trace w')"
    by (rule follows_extends) simp_all
qed

end

text \<open>The group \<open>i\<close> holds exactly the ranges, as far as the answers tell, and is enabled on the listener.\<close>

definition group_holds :: "call set \<Rightarrow> ListenerObj \<Rightarrow> string list \<Rightarrow> string \<Rightarrow> bool" where
  "group_holds S l rs i \<longleftrightarrow>
     (\<exists>o1 g. IgCreate o1 (Inr g) \<in> S \<and> gc_IpList o1 = ipList rs \<and> ig_ID g = i) \<or>
     (\<exists>g. IgGet (ls_IpGroupID l) (Inr g) \<in> S \<and> ig_ID g = i \<and>
        (ipListEqual (ig_IpList g) rs \<or> IgUpdate i (ipList rs) (Inr ()) \<in> S))"

text \<open>The same with the addresses of a group that was read compared as multisets.\<close>

definition group_exact :: "call set \<Rightarrow> ListenerObj \<Rightarrow> string list \<Rightarrow> string \<Rightarrow> bool" where
  "group_exact S l rs i \<longleftrightarrow>
     (\<exists>o1 g. IgCreate o1 (Inr g) \<in> S \<and> gc_IpList o1 = ipList rs \<and> ig_ID g = i) \<or>
     (\<exists>g. IgGet (ls_IpGroupID l) (Inr g) \<in> S \<and> ig_ID g = i \<and>
        (mset (ig_IpList g) = mset rs \<or> IgUpdate i (ipList rs) (Inr ()) \<in> S))"

lemma group_holds_exact: "group_holds S l rs i \<Longrightarrow> distinct rs \<Longrightarrow> group_exact S l rs i"
  unfolding group_holds_def group_exact_def by (blast dest: ipListEqual_exact)

definition group_enabled :: "call set \<Rightarrow> ListenerObj \<Rightarrow> string \<Rightarrow> bool" where
  "group_enabled S l i \<longleftrightarrow>
     (ls_IpGroupEnable l = Some True \<and> (\<exists>g. IgGet (ls_IpGroupID l) (Inr g) \<in> S \<and> ig_ID g = i)) \<or>
     (\<exists>o1 x. LsUpdate (ls_ID l) o1 (Inr x) \<in> S \<and>
        nu_IpGroup o1 = Some \<lparr>iu_IpGroupId = i, iu_Enable = True, iu_Type = ''white''\<rparr>)"

definition group_released :: "call set \<Rightarrow> ListenerObj \<Rightarrow> string \<Rightarrow> bool" where
  "group_released S l groupName \<longleftrightarrow> ls_IpGroupID l = '''' \<or> ls_IpGroupEnable l \<noteq> Some True \<or>
     (\<exists>e. IgGet (ls_IpGroupID l) (Inl e) \<in> S \<and> isNotFound e) \<or>
     (\<exists>g. IgGet (ls_IpGroupID l) (Inr g) \<in> S \<and> ig_Name g \<noteq> groupName) \<or>
     (\<exists>o1 x. LsUpdate (ls_ID l) o1 (Inr x) \<in> S \<and>
        nu_IpGroup o1 = Some \<lparr>iu_IpGroupId = ls_IpGroupID l, iu_Enable = False, iu_Type = ''''\<rparr>)"

context wait_contract begin

lemma createGroup_gives:
  assumes "bindG (wrapG fmt args (igCreate E k o1)) (\<lambda>grp. attachIPGroup E k lbID (ls_ID l) (ig_ID grp)) w = (Ok (), w')"
    and "gc_IpList o1 = ipList rs"
  shows "\<exists>i. group_holds (set (trace w')) l rs i \<and> group_enabled (set (trace w')) l i"
proof -
  obtain g w1 where g: "igCreate E k o1 w = (Ok g, w1)" and att: "attachIPGroup E k lbID (ls_ID l) (ig_ID g) w1 = (Ok (), w')"
    using assms(1) by (auto elim!: bindG_OkE dest: wrapG_OkE)
  have "IgCreate o1 (Inr g) \<in> set (trace w1)" using g by (auto simp: igCreate_def dest: sdkCall_shows)
  then have "IgCreate o1 (Inr g) \<in> set (trace w')" using attachIPGroup_extends [OF att] by blast
  then have "group_holds (set (trace w')) l rs (ig_ID g)" using assms(2) unfolding group_holds_def by blast
  moreover have "group_enabled (set (trace w')) l (ig_ID g)"
    using attachIPGroup_gives [OF att] unfolding group_enabled_def by blast
  ultimately show ?thesis by blast
qed

lemma updateGroup_gives:
  assumes run: "bindG (if ipListEqual (ig_IpList g) rs then returnG ()
            else wrapG fmt args (retryOnConflict E lbID (igUpdate E k (ig_ID g) (ipList rs)))) (\<lambda>_.
     if ls_IpGroupEnable l \<noteq> Some True then attachIPGroup E k lbID (ls_ID l) (ig_ID g) else returnG ()) w = (Ok (), w')"
    and g: "IgGet (ls_IpGroupID l) (Inr g) \<in> set (trace w)"
  shows "\<exists>i. group_holds (set (trace w')) l rs i \<and> group_enabled (set (trace w')) l i"
proof -
  let ?upd = "if ipListEqual (ig_IpList g) rs then returnG ()
            else wrapG fmt args (retryOnConflict E lbID (igUpdate E k (ig_ID g) (ipList rs)))"
  obtain u w1 where upd: "?upd w = (Ok u, w1)"
    and att: "(if ls_IpGroupEnable l \<noteq> Some True then attachIPGroup E k lbID (ls_ID l) (ig_ID g) else returnG ()) w1 = (Ok (), w')"
    using run by (rule bindG_OkE)
  have "follows (\<lambda>_ _. True) {} ?upd"
    unfolding igUpdate_def by (auto intro!: follows_return follows_wrap follows_retry follows_sdkCall)
  then have ext: "set (trace w) \<subseteq> set (trace w1)" using upd by (rule follows_extends) simp
  have ext': "set (trace w1) \<subseteq> set (trace w')"
    using att by (auto split: if_splits dest: attachIPGroup_extends)
  have "ipListEqual (ig_IpList g) rs \<or> IgUpdate (ig_ID g) (ipList rs) (Inr ()) \<in> set (trace w1)"
    using upd retry_shows unfolding igUpdate_def by (auto split: if_splits dest!: wrapG_OkE)
  then have "group_holds (set (trace w')) l rs (ig_ID g)"
    using g ext ext' unfolding group_holds_def by blast
  moreover have "group_enabled (set (trace w')) l (ig_ID g)"
    using att g ext ext' attachIPGroup_gives unfolding group_enabled_def by (auto split: if_splits)
  ultimately show ?thesis by blast
qed

lemma disableGroup_gives:
  assumes "wrapG fmt args (mutate E k lbID (bindG (lsUpdate E k (ls_ID l) \<lparr>nu_KeepAliveTimeout = 0,
       nu_IpGroup = Some \<lparr>iu_IpGroupId = ls_IpGroupID l, iu_Enable = False, iu_Type = ''''\<rparr>\<rparr>) (\<lambda>_. returnG ()))) w = (Ok (), w')"
  shows "group_released (set (trace w')) l groupName"
proof -
  let ?o = "\<lparr>nu_KeepAliveTimeout = 0,
       nu_IpGroup = Some \<lparr>iu_IpGroupId = ls_IpGroupID l, iu_Enable = False, iu_Type = ''''\<rparr>\<rparr>"
  obtain x where "LsUpdate (ls_ID l) ?o (Inr x) \<in> set (trace w')"
    using mutate_shows [OF assms [THEN wrapG_OkE, unfolded lsUpdate_def]] by blast
  then have "\<exists>o1 x. LsUpdate (ls_ID l) o1 (Inr x) \<in> set (trace w') \<and>
        nu_IpGroup o1 = Some \<lparr>iu_IpGroupId = ls_IpGroupID l, iu_Enable = False, iu_Type = ''''\<rparr>"
    by (intro exI [of _ ?o] exI [of _ x]) simp
  then show ?thesis by (simp add: group_released_def)
qed

lemma reconcileIPGroup_releases:
  assumes run: "reconcileIPGroup E k lbID l name service port w = (Ok (), w')" and none: "ranges service = []"
  shows "group_released (set (trace w')) l (resourceName name port)"
proof (cases "ls_IpGroupID l = ''''")
  case True
  then show ?thesis by (simp add: group_released_def)
next
  case False
  from run [unfolded reconcileIPGroup_def Let_def if_P [OF none] if_not_P [OF False]] obtain r w1
    where r: "getOrNone ''failed to get ipgroup %s: %w'' [ls_IpGroupID l] (igGet E k (ls_IpGroupID l)) w = (Ok r, w1)"
      and rest: "(case r of None \<Rightarrow> returnG () | Some grp \<Rightarrow>
         if ig_Name grp \<noteq> resourceName name port \<or> ls_IpGroupEnable l \<noteq> Some True then returnG ()
         else wrapG ''failed to disable ipgroup on listener %s: %w'' [ls_ID l]
           (mutate E k lbID (bindG (lsUpdate E k (ls_ID l) \<lparr>nu_KeepAliveTimeout = 0,
              nu_IpGroup = Some \<lparr>iu_IpGroupId = ls_IpGroupID l, iu_Enable = False, iu_Type = ''''\<rparr>\<rparr>)
             (\<lambda>_. returnG ())))) w1 = (Ok (), w')"
    by (rule bindG_OkE)
  show ?thesis
  proof (cases r)
    case None
    then show ?thesis using rest knownD [OF known_igGet r] by (auto simp: group_released_def)
  next
    case (Some g)
    show ?thesis
    proof (cases "ig_Name g \<noteq> resourceName name port \<or> ls_IpGroupEnable l \<noteq> Some True")
      case True
      then show ?thesis using rest Some knownD [OF known_igGet r] by (auto simp: group_released_def)
    next
      case False
      show ?thesis using rest [unfolded Some option.case if_not_P [OF False]] by (rule disableGroup_gives)
    qed
  qed
qed

lemma reconcileIPGroup_restricts:
  assumes run: "reconcileIPGroup E k lbID l name service port w = (Ok (), w')" and some: "ranges service \<noteq> []"
  shows "\<exists>i. group_holds (set (trace w')) l (ranges service) i \<and> group_enabled (set (trace w')) l i"
proof (cases "ls_IpGroupID l \<noteq> ''''")
  case False
  show ?thesis
    using run [unfolded reconcileIPGroup_def Let_def if_not_P [OF some] if_not_P [OF False]]
    by (rule createGroup_gives) simp
next
  case True
  from run [unfolded reconcileIPGroup_def Let_def if_not_P [OF some] if_P [OF True]] show ?thesis
  proof (rule bindG_OkE)
    fix r w1
    assume r: "getOrNone ''failed to get ipgroup %s: %w'' [ls_IpGroupID l] (igGet E k (ls_IpGroupID l)) w = (Ok r, w1)"
      and rest: "(case r of
               None \<Rightarrow> bindG (wrapG ''failed to create ipgroup for listener %s: %w'' [ls_ID l]
              (igCreate E k \<lparr>gc_Name = resourceName name port,
                 gc_Description = ''Kubernetes service '' @ Namespace service @ ''/'' @ ServiceName service,
                 gc_IpList = ipList (ranges service)\<rparr>)) (\<lambda>grp.
            attachIPGroup E k lbID (ls_ID l) (ig_ID grp))
             | Some grp \<Rightarrow>
                 if ig_Name grp \<noteq> resourceName name port then
                   failG (Errorf ''listener %s already has a foreign ipgroup %s; remove it or drop loadBalancerSourceRanges''
                     [ls_ID l, ig_ID grp])
                 else
                   bindG (if ipListEqual (ig_IpList grp) (ranges service) then returnG ()
                          else wrapG ''failed to update ipgroup %s: %w'' [ig_ID grp]
                            (retryOnConflict E lbID (igUpdate E k (ig_ID grp) (ipList (ranges service))))) (\<lambda>_.
                   if ls_IpGroupEnable l \<noteq> Some True
                   then attachIPGroup E k lbID (ls_ID l) (ig_ID grp)
                   else returnG ())) w1 = (Ok (), w')"
    show ?thesis
    proof (cases r)
      case None
      show ?thesis using rest [unfolded None option.case] by (rule createGroup_gives) simp
    next
      case (Some g)
      then have "ig_Name g = resourceName name port" using rest by (auto split: if_splits)
      then have own: "\<not> ig_Name g \<noteq> resourceName name port" by simp
      show ?thesis
        by (rule updateGroup_gives, rule rest [unfolded Some option.case if_not_P [OF own]])
          (use knownD [OF known_igGet r] Some in simp)
    qed
  qed
qed

end

subsection \<open>Health monitors\<close>

definition monitor_made :: "serviceSettings \<Rightarrow> Service \<Rightarrow> ServicePort \<Rightarrow> PoolObj \<Rightarrow> MonitorCreateOpts \<Rightarrow> bool" where
  "monitor_made settings service port p o1 \<longleftrightarrow> (let probe = desiredProbe settings service port in
     oc_PoolID o1 = pl_ID p \<and> oc_Type o1 = pr_Type probe \<and> oc_MonitorPort o1 = pr_Port probe \<and>
     oc_Delay o1 = HealthCheckDelay settings \<and> oc_Timeout o1 = HealthCheckTimeout settings \<and>
     oc_MaxRetries o1 = HealthCheckMaxRetries settings \<and> oc_URLPath o1 = pr_URLPath probe \<and>
     oc_HTTPMethod o1 = pr_HTTPMethod probe)"

definition monitor_changed :: "serviceSettings \<Rightarrow> Service \<Rightarrow> ServicePort \<Rightarrow> MonitorUpdateOpts \<Rightarrow> bool" where
  "monitor_changed settings service port o1 \<longleftrightarrow> (let probe = desiredProbe settings service port in
     ou_Delay o1 = HealthCheckDelay settings \<and> ou_Timeout o1 = HealthCheckTimeout settings \<and>
     ou_MaxRetries o1 = HealthCheckMaxRetries settings \<and> ou_URLPath o1 = pr_URLPath probe \<and>
     ou_HTTPMethod o1 = pr_HTTPMethod probe)"

text \<open>The pool has the wanted monitor: just created, found as wanted, or brought up to date.\<close>

definition monitored :: "serviceSettings \<Rightarrow> Service \<Rightarrow> ServicePort \<Rightarrow> call set \<Rightarrow> PoolObj \<Rightarrow> bool" where
  "monitored settings service port S p \<longleftrightarrow>
     (\<exists>o1 x. MoCreate o1 (Inr x) \<in> S \<and> monitor_made settings service port p o1) \<or>
     (\<exists>x. MoGet (pl_MonitorID p) (Inr x) \<in> S \<and> \<not> other_kind settings service port x \<and>
        (\<not> other_values settings service port x \<or>
         (\<exists>o1 y. MoUpdate (pl_MonitorID p) o1 (Inr y) \<in> S \<and> monitor_changed settings service port o1)))"

definition unmonitored :: "call set \<Rightarrow> PoolObj \<Rightarrow> bool" where
  "unmonitored S p \<longleftrightarrow> pl_MonitorID p = '''' \<or> (\<exists>r. MoDelete (pl_MonitorID p) r \<in> S \<and> gone r)"

context wait_contract begin

lemma createMonitor_gives:
  assumes "createMonitor E k lbID p name settings port (desiredProbe settings service port) w = (Ok (), w')"
  shows "monitored settings service port (set (trace w')) p"
proof -
  let ?d = "desiredProbe settings service port"
  let ?o = "\<lparr>oc_PoolID = pl_ID p, oc_Name = resourceName name port,
             oc_Type = pr_Type ?d, oc_Delay = HealthCheckDelay settings,
             oc_Timeout = HealthCheckTimeout settings, oc_MaxRetries = HealthCheckMaxRetries settings,
             oc_URLPath = pr_URLPath ?d, oc_HTTPMethod = pr_HTTPMethod ?d,
             oc_MonitorPort = pr_Port ?d\<rparr>"
  have "mutate E k lbID (bindG (moCreate E k ?o) (\<lambda>_. returnG ())) w = (Ok (), w')"
    using assms unfolding createMonitor_def by (rule wrapG_OkE)
  then obtain x where "MoCreate ?o (Inr x) \<in> set (trace w')"
    unfolding moCreate_def using mutate_shows by blast
  moreover have "monitor_made settings service port p ?o" by (simp add: monitor_made_def Let_def)
  ultimately show ?thesis unfolding monitored_def by blast
qed

lemma updateMonitor_gives:
  assumes "wrapG fmt args (mutate E k lbID (bindG (moUpdate E k (pl_MonitorID p) \<lparr>ou_Delay = HealthCheckDelay settings,
                     ou_Timeout = HealthCheckTimeout settings, ou_MaxRetries = HealthCheckMaxRetries settings,
                     ou_URLPath = pr_URLPath (desiredProbe settings service port),
                     ou_HTTPMethod = pr_HTTPMethod (desiredProbe settings service port)\<rparr>) (\<lambda>_. returnG ()))) w = (Ok (), w')"
    and "MoGet (pl_MonitorID p) (Inr x) \<in> set (trace w)" and "\<not> other_kind settings service port x"
  shows "monitored settings service port (set (trace w')) p"
proof -
  let ?o = "\<lparr>ou_Delay = HealthCheckDelay settings,
                     ou_Timeout = HealthCheckTimeout settings, ou_MaxRetries = HealthCheckMaxRetries settings,
                     ou_URLPath = pr_URLPath (desiredProbe settings service port),
                     ou_HTTPMethod = pr_HTTPMethod (desiredProbe settings service port)\<rparr>"
  obtain y where "MoUpdate (pl_MonitorID p) ?o (Inr y) \<in> set (trace w')"
    using mutate_shows [OF assms(1) [THEN wrapG_OkE, unfolded moUpdate_def]] by blast
  moreover have "monitor_changed settings service port ?o" by (simp add: monitor_changed_def Let_def)
  moreover have "follows (\<lambda>_ _. True) {} (wrapG fmt args (mutate E k lbID (bindG (moUpdate E k (pl_MonitorID p) ?o) (\<lambda>_. returnG ()))))"
    unfolding moUpdate_def by (intro follows_wrap follows_mutate follows_call) simp_all
  then have "set (trace w) \<subseteq> set (trace w')" using assms(1) by (rule follows_extends) simp
  ultimately show ?thesis using assms(2,3) unfolding monitored_def by blast
qed

lemma reconcileMonitor_removes:
  assumes run: "reconcileMonitor E k lbID p name settings service port w = (Ok (), w')"
    and off: "\<not> HealthCheckEnabled settings"
  shows "unmonitored (set (trace w')) p"
proof (cases "pl_MonitorID p = ''''")
  case True
  then show ?thesis by (simp add: unmonitored_def)
next
  case False
  have "known (ignoreNotFound ''failed to delete monitor %s: %w'' [pl_MonitorID p]
      (mutate E k lbID (moDelete E k (pl_MonitorID p)))) (\<lambda>_ S. \<exists>r. MoDelete (pl_MonitorID p) r \<in> S \<and> gone r)"
    unfolding moDelete_def gone_def by (rule known_mutated_delete)
  from knownD [OF this run [unfolded reconcileMonitor_def Let_def if_P [OF off] if_not_P [OF False]]]
  show ?thesis by (simp add: unmonitored_def)
qed

lemma reconcileMonitor_sets:
  assumes run: "reconcileMonitor E k lbID p name settings service port w = (Ok (), w')"
    and on: "HealthCheckEnabled settings"
  shows "monitored settings service port (set (trace w')) p"
proof (cases "pl_MonitorID p = ''''")
  case True
  then have "createMonitor E k lbID p name settings port (desiredProbe settings service port) w = (Ok (), w')"
    using run on by (simp add: reconcileMonitor_def Let_def)
  then show ?thesis by (rule createMonitor_gives)
next
  case False
  then obtain x w1 where x: "moGet E k (pl_MonitorID p) w = (Ok x, w1)"
    and rest: "(if other_kind settings service port x then
             bindG (ignoreNotFound ''failed to delete monitor %s for recreation: %w'' [pl_MonitorID p]
               (mutate E k lbID (moDelete E k (pl_MonitorID p)))) (\<lambda>_.
             createMonitor E k lbID p name settings port (desiredProbe settings service port))
           else if \<not> other_values settings service port x then returnG ()
           else wrapG ''failed to update monitor %s: %w'' [pl_MonitorID p] (mutate E k lbID
                 (bindG (moUpdate E k (pl_MonitorID p) \<lparr>ou_Delay = HealthCheckDelay settings,
                     ou_Timeout = HealthCheckTimeout settings, ou_MaxRetries = HealthCheckMaxRetries settings,
                     ou_URLPath = pr_URLPath (desiredProbe settings service port),
                     ou_HTTPMethod = pr_HTTPMethod (desiredProbe settings service port)\<rparr>)
                   (\<lambda>_. returnG ())))) w1 = (Ok (), w')"
    using run on unfolding reconcileMonitor_def Let_def other_kind_def other_values_def not_not
    by (auto elim!: bindG_OkE dest!: wrapG_OkE simp del: de_Morgan_conj)
  have get: "MoGet (pl_MonitorID p) (Inr x) \<in> set (trace w1)"
    using x by (auto simp: moGet_def dest: sdkCall_shows)
  show ?thesis
  proof (cases "other_kind settings service port x")
    case True
    then show ?thesis using rest by (auto elim!: bindG_OkE intro: createMonitor_gives)
  next
    case kind: False
    show ?thesis
    proof (cases "other_values settings service port x")
      case True
      show ?thesis
        by (rule updateMonitor_gives [OF _ get kind]) (use rest kind True in simp)
    next
      case False
      then show ?thesis using rest kind get by (auto simp: monitored_def)
    qed
  qed
qed

subsection \<open>Deletion\<close>

lemma deletePool_gives:
  assumes run: "deletePool E k lbID p w = (Ok (), w')"
  shows "\<exists>r. PlDelete (pl_ID p) r \<in> set (trace w') \<and> gone r"
proof -
  have "known (ignoreNotFound ''failed to delete pool %s: %w'' [pl_ID p] (mutate E k lbID (plDelete E k (pl_ID p))))
      (\<lambda>_ S. \<exists>r. PlDelete (pl_ID p) r \<in> S \<and> gone r)"
    unfolding plDelete_def gone_def by (rule known_mutated_delete)
  then show ?thesis using run unfolding deletePool_def by (elim bindG_OkE) (drule knownD, assumption, simp)
qed

end

text \<open>A deleted listener is gone, and so is the pool it had when the deletion started.\<close>

definition listener_gone :: "call set \<Rightarrow> ListenerObj \<Rightarrow> bool" where
  "listener_gone S l \<longleftrightarrow> (\<exists>r. LsDelete (ls_ID l) r \<in> S \<and> gone r) \<and>
     (\<exists>l1. LsGet (ls_ID l) (Inr l1) \<in> S \<and> (ls_DefaultPoolID l1 = '''' \<or>
        (\<exists>e. PlGet (ls_DefaultPoolID l1) (Inl e) \<in> S \<and> isNotFound e) \<or>
        (\<exists>p r. PlGet (ls_DefaultPoolID l1) (Inr p) \<in> S \<and> PlDelete (pl_ID p) r \<in> S \<and> gone r)))"

lemma listener_gone_mono: "listener_gone S l \<Longrightarrow> S \<subseteq> S' \<Longrightarrow> listener_gone S' l"
  unfolding listener_gone_def by blast

lemma extends: "emits (\<lambda>_. True) m \<Longrightarrow> m w = (r, w') \<Longrightarrow> set (trace w) \<subseteq> set (trace w')"
  by (erule (1) emitsD) simp

lemma findPool_answers:
  assumes "findPoolForListener E k i w = (Ok r, w')"
  shows "\<exists>l1. LsGet i (Inr l1) \<in> set (trace w') \<and> (case r of
      None \<Rightarrow> ls_DefaultPoolID l1 = '''' \<or> (\<exists>e. PlGet (ls_DefaultPoolID l1) (Inl e) \<in> set (trace w') \<and> isNotFound e)
    | Some p \<Rightarrow> PlGet (ls_DefaultPoolID l1) (Inr p) \<in> set (trace w'))"
  using assms
  by (auto simp: findPoolForListener_def getOrNone_def wrapG_def catchG_def bindG_def returnG_def failG_def
      lsGet_def plGet_def sdkCall_def split: prod.splits res.splits sum.splits if_splits) blast

context wait_contract begin

lemma emits_deletePool: "emits (\<lambda>_. True) (deletePool E k lbID p)"
  unfolding deletePool_def by (auto intro!: emits_rules mutate_emits emits_mono [OF reads(4)])

lemma emits_deleteIPGroup: "emits (\<lambda>_. True) (deleteIPGroup E k lbID i name)"
  unfolding deleteIPGroup_def by (auto intro!: emits_rules retry_emits split: option.split)

lemma deleteListener_gives:
  assumes run: "deleteListener E k lbID name l w = (Ok (), w')"
  shows "listener_gone (set (trace w')) l \<and> set (trace w) \<subseteq> set (trace w')"
proof -
  let ?del = "ignoreNotFound ''failed to delete listener %s: %w'' [ls_ID l] (mutate E k lbID (lsDelete E k (ls_ID l)))"
  obtain r w1 u w2 v w3
    where find: "findPoolForListener E k (ls_ID l) w = (Ok r, w1)"
      and pool: "(case r of None \<Rightarrow> returnG () | Some p \<Rightarrow> deletePool E k lbID p) w1 = (Ok u, w2)"
      and del: "?del w2 = (Ok v, w3)"
      and grp: "deleteIPGroup E k lbID (ls_IpGroupID l) name w3 = (Ok (), w')"
    using run unfolding deleteListener_def by (elim bindG_OkE)
  have e1: "set (trace w) \<subseteq> set (trace w1)" by (rule extends [OF emits_mono [OF reads(2)] find]) simp
  have e2: "set (trace w1) \<subseteq> set (trace w2)"
    using pool by (cases r) (auto dest: extends [OF emits_deletePool])
  have "emits (\<lambda>_. True) ?del" by (intro emits_rules mutate_emits) simp_all
  then have e3: "set (trace w2) \<subseteq> set (trace w3)" using del by (rule extends)
  have e4: "set (trace w3) \<subseteq> set (trace w')" using emits_deleteIPGroup grp by (rule extends)
  have "known ?del (\<lambda>_ S. \<exists>r. LsDelete (ls_ID l) r \<in> S \<and> gone r)"
    unfolding lsDelete_def gone_def by (rule known_mutated_delete)
  then have "\<exists>r. LsDelete (ls_ID l) r \<in> set (trace w3) \<and> gone r" using del by (rule knownD)
  moreover obtain l1 where l1: "LsGet (ls_ID l) (Inr l1) \<in> set (trace w1)" and ans: "case r of
      None \<Rightarrow> ls_DefaultPoolID l1 = '''' \<or> (\<exists>e. PlGet (ls_DefaultPoolID l1) (Inl e) \<in> set (trace w1) \<and> isNotFound e)
    | Some p \<Rightarrow> PlGet (ls_DefaultPoolID l1) (Inr p) \<in> set (trace w1)"
    using findPool_answers [OF find] by blast
  have "ls_DefaultPoolID l1 = '''' \<or> (\<exists>e. PlGet (ls_DefaultPoolID l1) (Inl e) \<in> set (trace w2) \<and> isNotFound e) \<or>
        (\<exists>p r. PlGet (ls_DefaultPoolID l1) (Inr p) \<in> set (trace w2) \<and> PlDelete (pl_ID p) r \<in> set (trace w2) \<and> gone r)"
  proof (cases r)
    case None
    then show ?thesis using ans e2 by auto
  next
    case (Some p)
    then have "PlGet (ls_DefaultPoolID l1) (Inr p) \<in> set (trace w2)" using ans e2 by auto
    then show ?thesis using deletePool_gives pool Some by auto
  qed
  ultimately have "listener_gone (set (trace w')) l"
    using l1 e2 e3 e4 unfolding listener_gone_def by blast
  then show ?thesis using e1 e2 e3 e4 by blast
qed

lemma deleteListeners_gives:
  assumes "eachG (\<lambda>l. if P l then returnG () else deleteListener E k lbID name l) ls w = (Ok (), w')"
  shows "set (trace w) \<subseteq> set (trace w') \<and> (\<forall>l \<in> set ls. \<not> P l \<longrightarrow> listener_gone (set (trace w')) l)"
  using assms
proof (induction ls arbitrary: w)
  case (Cons l ls)
  then obtain w1 where one: "(if P l then returnG () else deleteListener E k lbID name l) w = (Ok (), w1)"
    and rest: "eachG (\<lambda>l. if P l then returnG () else deleteListener E k lbID name l) ls w1 = (Ok (), w')"
    by (auto elim: bindG_OkE)
  have "set (trace w) \<subseteq> set (trace w1) \<and> (\<not> P l \<longrightarrow> listener_gone (set (trace w1)) l)"
    using one deleteListener_gives by (auto split: if_splits)
  then show ?case using Cons.IH [OF rest] listener_gone_mono by auto
qed simp

text \<open>EIPs are released; the retried closure turns some errors into conflicts, but not "not found".\<close>

lemma releaseEip_gives:
  assumes run: "releaseEip E nk eip w = (Ok (), w')" and some: "PublicIpID eip \<noteq> ''''"
  shows "\<exists>r. EipDelete (PublicIpID eip) r \<in> set (trace w') \<and> gone r"
proof -
  let ?fn = "catchG (eipDelete E nk (PublicIpID eip)) (\<lambda>e. if isConflict e \<or> isBadRequest e then failG (Http 409) else failG e)"
  from run obtain r where r: "retryOnConflict E (PublicIpID eip) ?fn w = (r, w')"
    and ok: "r = Ok () \<or> (\<exists>e. r = Fail e \<and> isNotFound e)"
    unfolding releaseEip_def if_not_P [OF some] by (rule ignoreNotFound_OkE)
  have "\<exists>w1 r1. ?fn w1 = (r1, w') \<and> (r1 = Ok () \<or> (\<exists>e. r1 = Fail e \<and> isNotFound e))"
    using ok
  proof (elim disjE exE conjE)
    assume "r = Ok ()"
    then show ?thesis using retry_Ok r by blast
  next
    fix e assume e: "r = Fail e" "isNotFound e"
    then have "\<not> gaveUp e" using gaveUp_class by blast
    then show ?thesis using retry_Fail r e by blast
  qed
  then show ?thesis
    by (auto simp: catchG_def eipDelete_def sdkCall_def failG_def gone_def split: prod.splits res.splits sum.splits if_splits)
qed

lemma emits_releaseEip: "emits (\<lambda>_. True) (releaseEip E nk eip)"
  unfolding releaseEip_def by (auto intro!: emits_rules retry_emits)

lemma releaseAll_gives:
  assumes "eachG (releaseEip E nk) infos w = (Ok (), w')"
  shows "\<forall>eip \<in> set infos. PublicIpID eip \<noteq> '''' \<longrightarrow> (\<exists>r. EipDelete (PublicIpID eip) r \<in> set (trace w') \<and> gone r)"
  using assms
proof (induction infos arbitrary: w)
  case (Cons eip infos)
  then obtain w1 where one: "releaseEip E nk eip w = (Ok (), w1)" and rest: "eachG (releaseEip E nk) infos w1 = (Ok (), w')"
    by (auto elim: bindG_OkE)
  have "emits (\<lambda>_. True) (eachG (releaseEip E nk) infos)" by (intro emits_rules emits_releaseEip)
  then have "set (trace w1) \<subseteq> set (trace w')" using rest by (rule extends)
  then show ?case using releaseEip_gives [OF one] Cons.IH [OF rest] by auto
qed simp

text \<open>What is left of a balancer after its deletion, given its listeners.\<close>

lemma destroyBalancer_gives:
  assumes run: "destroyBalancer E lb k settings b w = (Ok (), w')" and quiet: "clients_quiet lb"
  shows "set (trace w) \<subseteq> set (trace w') \<and> (\<exists>r. LbDelete (lb_ID b) r \<in> set (trace w') \<and> gone r) \<and>
    (EipBandwidth settings > 0 \<and> \<not> EipKeep settings \<longrightarrow> (\<forall>eip \<in> set (lb_PublicIps b). PublicIpID eip \<noteq> '''' \<longrightarrow>
       (\<exists>r. EipDelete (PublicIpID eip) r \<in> set (trace w') \<and> gone r)))"
proof -
  let ?del = "ignoreNotFound ''failed to delete load balancer %s: %w'' [lb_ID b] (retryOnConflict E (lb_ID b) (lbDelete E k (lb_ID b)))"
  let ?rel = "if EipBandwidth settings > 0 \<and> \<not> EipKeep settings then releaseEips E lb (lb_PublicIps b) else returnG ()"
  obtain u w1 where del: "?del w = (Ok u, w1)" and rel: "?rel w1 = (Ok (), w')"
    using run unfolding destroyBalancer_def by (rule bindG_OkE)
  have "known ?del (\<lambda>_ S. \<exists>r. LbDelete (lb_ID b) r \<in> S \<and> gone r)"
    unfolding lbDelete_def gone_def by (rule known_retried_delete)
  then have gone: "\<exists>r. LbDelete (lb_ID b) r \<in> set (trace w1) \<and> gone r" using del by (rule knownD)
  have "emits (\<lambda>_. True) ?del" by (intro emits_rules retry_emits) simp
  then have e1: "set (trace w) \<subseteq> set (trace w1)" using del by (rule extends)
  have "emits (\<lambda>_. True) (newNetworkClient lb)"
    using quiet by (auto simp: clients_quiet_def intro: emits_mono)
  then have "emits (\<lambda>_. True) ?rel"
    by (auto simp: releaseEips_def intro!: emits_rules emits_releaseEip)
  then have e2: "set (trace w1) \<subseteq> set (trace w')" using rel by (rule extends)
  have "\<forall>eip \<in> set (lb_PublicIps b). PublicIpID eip \<noteq> '''' \<longrightarrow> (\<exists>r. EipDelete (PublicIpID eip) r \<in> set (trace w') \<and> gone r)"
    if "EipBandwidth settings > 0 \<and> \<not> EipKeep settings"
    using rel that releaseAll_gives by (auto simp: releaseEips_def elim!: bindG_OkE split: if_splits)
  then show ?thesis using gone e1 e2 by blast
qed

lemma deleteBalancer_gives:
  assumes run: "deleteBalancer E lb k settings name b w = (Ok (), w')" and quiet: "clients_quiet lb"
  shows "set (trace w) \<subseteq> set (trace w') \<and> (\<exists>ls. LsList (lb_ID b) (Inr (Inr ls)) \<in> set (trace w') \<and>
      (\<forall>l \<in> set ls. LoadBalancerID settings = '''' \<or> owned name (ls_Name l) \<longrightarrow> listener_gone (set (trace w')) l)) \<and>
    (LoadBalancerID settings = '''' \<longrightarrow> (\<exists>r. LbDelete (lb_ID b) r \<in> set (trace w') \<and> gone r) \<and>
       (EipBandwidth settings > 0 \<and> \<not> EipKeep settings \<longrightarrow> (\<forall>eip \<in> set (lb_PublicIps b). PublicIpID eip \<noteq> '''' \<longrightarrow>
          (\<exists>r. EipDelete (PublicIpID eip) r \<in> set (trace w') \<and> gone r))))"
proof -
  let ?P = "\<lambda>l. LoadBalancerID settings \<noteq> '''' \<and> \<not> HasPrefix (ls_Name l) (name @ ''_'')"
  from run [unfolded deleteBalancer_def Let_def] obtain ls w1 u w2
    where ls: "listListeners E k (lb_ID b) w = (Ok ls, w1)"
      and each: "eachG (\<lambda>l. if ?P l then returnG () else deleteListener E k (lb_ID b) name l) ls w1 = (Ok u, w2)"
      and rest: "(if LoadBalancerID settings \<noteq> '''' then returnG () else destroyBalancer E lb k settings b) w2 = (Ok (), w')"
    by (elim bindG_OkE)
  have e1: "set (trace w) \<subseteq> set (trace w1)" by (rule extends [OF emits_mono [OF reads(3)] ls]) simp
  have list: "LsList (lb_ID b) (Inr (Inr ls)) \<in> set (trace w1)" using knownD [OF known_listListeners ls] .
  have "eachG (\<lambda>l. if ?P l then returnG () else deleteListener E k (lb_ID b) name l) ls w1 = (Ok (), w2)"
    using each by simp
  from deleteListeners_gives [OF this] have e2: "set (trace w1) \<subseteq> set (trace w2)"
    and ls_gone: "\<forall>l \<in> set ls. \<not> ?P l \<longrightarrow> listener_gone (set (trace w2)) l" by auto
  have e3: "set (trace w2) \<subseteq> set (trace w')"
    using rest destroyBalancer_gives [OF _ quiet] by (auto split: if_splits)
  have all_gone: "listener_gone (set (trace w')) l"
    if "l \<in> set ls" and "LoadBalancerID settings = '''' \<or> owned name (ls_Name l)" for l
    using ls_gone that listener_gone_mono [OF _ e3] by (auto simp: owned_def)
  have "\<exists>ls. LsList (lb_ID b) (Inr (Inr ls)) \<in> set (trace w') \<and>
      (\<forall>l \<in> set ls. LoadBalancerID settings = '''' \<or> owned name (ls_Name l) \<longrightarrow> listener_gone (set (trace w')) l)"
    using list e2 e3 all_gone by (intro exI [of _ ls]) blast
  moreover have "(\<exists>r. LbDelete (lb_ID b) r \<in> set (trace w') \<and> gone r) \<and>
       (EipBandwidth settings > 0 \<and> \<not> EipKeep settings \<longrightarrow> (\<forall>eip \<in> set (lb_PublicIps b). PublicIpID eip \<noteq> '''' \<longrightarrow>
          (\<exists>r. EipDelete (PublicIpID eip) r \<in> set (trace w') \<and> gone r)))" if "LoadBalancerID settings = ''''"
    using rest that destroyBalancer_gives [OF _ quiet, of k settings b w2 w'] by simp
  ultimately show ?thesis using e1 e2 e3 by blast
qed

end

end
