(* ===== verification/Elb_Outcomes.thy ===== *)
theory Elb_Outcomes
  imports Elb_Effects
begin

section \<open>Outcomes of the operations\<close>

text \<open>
  The properties that rest on \<open>Elb_Effects\<close> and on the contract of the \<open>wait\<close> package, each with a
  run on the fake ELB or on a variant of it.
\<close>

subsection \<open>Retrying and waiting\<close>

text \<open>
  C17: retrying is bounded and hides conflicts. \<open>retryOnConflict\<close> makes at most six attempts; a
  conflict is never its result: an error is the last attempt's own, or the sign that it gave up; it
  succeeds only if the last attempt did.
\<close>

theorem retry_bounded:
  assumes "wait_contract E" and "produces fn (\<lambda>es _. length es \<le> 1)"
    and "retryOnConflict E lbID fn w = (r, w')"
  shows "\<exists>es. trace w' = trace w @ es \<and> length es \<le> 6 \<and>
    (r = Ok () \<longrightarrow> (\<exists>w1. fn w1 = (Ok (), w'))) \<and>
    (\<forall>e. r = Fail e \<longrightarrow> \<not> isConflict e \<and> (gaveUp e \<or> (\<exists>w1. fn w1 = (Fail e, w'))))"
proof -
  obtain es where "trace w' = trace w @ es" "length es \<le> 6 * 1"
    using wait_contract.retry_count [OF assms(1,2)] assms(3) by (rule producesE)
  moreover have "r = Ok () \<longrightarrow> (\<exists>w1. fn w1 = (Ok (), w'))"
    using wait_contract.retry_Ok [OF assms(1)] assms(3) by blast
  moreover have "\<not> isConflict e \<and> (gaveUp e \<or> (\<exists>w1. fn w1 = (Fail e, w')))" if "r = Fail e" for e
  proof -
    have "gaveUp e \<or> (\<not> isConflict e \<and> (\<exists>w1. fn w1 = (Fail e, w')))"
      using wait_contract.retry_Fail [OF assms(1)] assms(3) that by simp
    then show ?thesis using gaveUp_class by blast
  qed
  ultimately show ?thesis by (intro exI [of _ es]) simp
qed

text \<open>A deletion the cloud always answers with a conflict.\<close>

definition busyDelete :: "(fakeELB world, unit) go" where
  "busyDelete = sdkCall (\<lambda>c. (Inl (Http 409), c)) (LbDelete ''lb-1'')"

theorem retry_bounded_witness:
  "\<exists>w'. retryOnConflict fake_env ''lb-1'' busyDelete (world_of testState) = (Fail WaitTimeout, w') \<and>
     length (trace w') = 6 \<and> \<not> isConflict WaitTimeout"
proof -
  have one: "produces busyDelete (\<lambda>es _. length es \<le> 1)"
    by (auto simp: busyDelete_def sdkCall_def intro!: producesI)
  have "\<exists>w'. retryOnConflict fake_env ''lb-1'' busyDelete (world_of testState) = (Fail WaitTimeout, w') \<and>
      length (trace w') = 6"
    by (simp add: run busyDelete_def world_of_def)
  then obtain w' where run: "retryOnConflict fake_env ''lb-1'' busyDelete (world_of testState) = (Fail WaitTimeout, w')"
    "length (trace w') = 6" by (elim exE conjE)
  from retry_bounded [OF fake.wait_contract_axioms one run(1)] run show ?thesis by simp
qed

text \<open>
  C18: after a change the balancer is waited for. When \<open>mutate\<close> succeeds, its last call read the
  balancer ACTIVE, after the change succeeded; between the change and that, it only reads the
  balancer.
\<close>

theorem mutate_waits:
  assumes "wait_contract E" and "mutate E k lbID fn w = (Ok (), w')"
  shows "\<exists>w1 w2 es b. fn w1 = (Ok (), w2) \<and> trace w' = trace w2 @ es @ [LbGet lbID (Inr b)] \<and>
    lb_ProvisioningStatus b = statusActive \<and> (\<forall>e \<in> set es. \<exists>r. e = LbGet lbID r)"
proof -
  obtain w1 w2 where fn: "fn w1 = (Ok (), w2)" and act: "waitForActive E k lbID w2 = (Ok (), w')"
    using wait_contract.mutate_Ok [OF assms] .
  from wait_contract.active_last [OF assms(1) act] fn show ?thesis by blast
qed


theorem mutate_waits_witness:
  "\<exists>w' es b. mutate fake_env ElbClient ''lb-1'' (lsDelete fake_env ElbClient ''ls-2'') (world_of testState) = (Ok (), w') \<and>
     trace w' = es @ [LbGet ''lb-1'' (Inr b)] \<and> lb_ProvisioningStatus b = statusActive"
proof -
  have "\<exists>w'. mutate fake_env ElbClient ''lb-1'' (lsDelete fake_env ElbClient ''ls-2'') (world_of testState) = (Ok (), w')"
    by (simp add: run)
  then obtain w' where run: "mutate fake_env ElbClient ''lb-1'' (lsDelete fake_env ElbClient ''ls-2'') (world_of testState) = (Ok (), w')" ..
  from mutate_waits [OF fake.wait_contract_axioms run] obtain w2 :: "fakeELB world" and es and b :: BalancerObj
    where "trace w' = trace w2 @ es @ [LbGet ''lb-1'' (Inr b)]" "lb_ProvisioningStatus b = statusActive"
    by (elim exE conjE) (rule that)
  then show ?thesis using run by (intro exI [of _ w'] exI [of _ "trace w2 @ es"] exI [of _ b]) simp
qed

subsection \<open>The whitelist of a listener\<close>

text \<open>
  C15: the source ranges of a Service are in force when \<open>reconcileIPGroup\<close> succeeds, provided they have no
  duplicates. With ranges there is a group, enabled as the listener's white list, that was created with
  them, was updated to them, or was read and compared equal by \<open>ipListEqual\<close>; if the ranges are distinct,
  the group that was read has exactly their addresses. (With a duplicate the comparison may accept a group with
  another address, see \<open>Elb_Helpers\<close>, which then stays admitted.) Without ranges the listener has no enabled group of
  the Service: none was attached, it was disabled already or is now, it is gone, or it belongs to somebody
  else.
\<close>

theorem whitelist_in_place:
  assumes "wait_contract E" and "reconcileIPGroup E k lbID l name service port w = (Ok (), w')"
  shows "if ranges service = [] then group_released (set (trace w')) l (resourceName name port)
    else \<exists>i. group_holds (set (trace w')) l (ranges service) i \<and> group_enabled (set (trace w')) l i \<and>
      (distinct (ranges service) \<longrightarrow> group_exact (set (trace w')) l (ranges service) i)"
proof (cases "ranges service = []")
  case True
  then show ?thesis using wait_contract.reconcileIPGroup_releases [OF assms] by simp
next
  case False
  then show ?thesis
    using wait_contract.reconcileIPGroup_restricts [OF assms False] group_holds_exact by (simp only: if_False) blast
qed

definition rangedService :: Service where
  "rangedService = (testService [port80])\<lparr>LoadBalancerSourceRanges := [''10.0.0.0/8'', '' '']\<rparr>"

definition plainListener :: ListenerObj where
  "plainListener = fl_obj (testListener ''ls-1'' ''kube_service_c_default_web_TCP_80'' 80)"

lemma ranges_rangedService: "ranges rangedService = [''10.0.0.0/8'']"
  by (simp add: rangedService_def normalizeRanges_def TrimSpace_def is_space_def)

theorem whitelist_in_place_witness:
  "\<exists>w' i. reconcileIPGroup fake_env ElbClient ''lb-1'' plainListener ''kube_service_c_default_web'' rangedService port80
      (world_of testState) = (Ok (), w') \<and>
     group_exact (set (trace w')) plainListener [''10.0.0.0/8''] i \<and> group_enabled (set (trace w')) plainListener i"
proof -
  have "\<exists>w'. reconcileIPGroup fake_env ElbClient ''lb-1'' plainListener ''kube_service_c_default_web'' rangedService port80
      (world_of testState) = (Ok (), w')"
    by (simp add: run rangedService_def plainListener_def ipList_def TrimSpace_def is_space_def)
  then obtain w' where run: "reconcileIPGroup fake_env ElbClient ''lb-1'' plainListener ''kube_service_c_default_web''
      rangedService port80 (world_of testState) = (Ok (), w')" ..
  from whitelist_in_place [OF fake.wait_contract_axioms run] run show ?thesis
    unfolding ranges_rangedService by auto
qed

subsection \<open>The monitor of a pool\<close>

text \<open>
  C21: when \<open>reconcileMonitor\<close> succeeds, the pool is monitored as the settings say. With health checks
  enabled a monitor of the wanted type, port, timing, path and method was created, or the pool's monitor was
  read with the wanted type and port and either had the other values already or was updated to them. With
  health checks disabled the pool has none, or it was deleted or found gone.
\<close>

theorem monitor_in_place:
  assumes "wait_contract E" and "reconcileMonitor E k lbID p name settings service port w = (Ok (), w')"
  shows "if HealthCheckEnabled settings then monitored settings service port (set (trace w')) p
    else unmonitored (set (trace w')) p"
  using wait_contract.reconcileMonitor_sets [OF assms] wait_contract.reconcileMonitor_removes [OF assms]
  by simp

definition barePool :: PoolObj where
  "barePool = \<lparr>pl_ID = ''p'', pl_Name = ''pool'', pl_LBMethod = ''ROUND_ROBIN'', pl_Persistence = None, pl_MonitorID = ''''\<rparr>"

theorem monitor_in_place_witness:
  "\<exists>w'. reconcileMonitor fake_env ElbClient ''lb-1'' barePool ''kube_service_c_default_web'' plainSettings
      (testService [port80]) port80 (world_of (testState\<lparr>pools := [(''p'', barePool)]\<rparr>)) = (Ok (), w') \<and>
     monitored plainSettings (testService [port80]) port80 (set (trace w')) barePool"
proof -
  have "\<exists>w'. reconcileMonitor fake_env ElbClient ''lb-1'' barePool ''kube_service_c_default_web'' plainSettings
      (testService [port80]) port80 (world_of (testState\<lparr>pools := [(''p'', barePool)]\<rparr>)) = (Ok (), w')"
    by (simp add: run barePool_def)
  then obtain w' where run: "reconcileMonitor fake_env ElbClient ''lb-1'' barePool ''kube_service_c_default_web'' plainSettings
      (testService [port80]) port80 (world_of (testState\<lparr>pools := [(''p'', barePool)]\<rparr>)) = (Ok (), w')" ..
  have "HealthCheckEnabled plainSettings" by (simp add: plainSettings_def)
  with monitor_in_place [OF fake.wait_contract_axioms run] run show ?thesis by simp
qed


subsection \<open>A pool update that fails\<close>

lemma failed_update:
  assumes "pools_Update E k (pl_ID q) o1 (cloud w) = ((None, Some e), c')" and "v_pool w = Some q"
  shows "bindG derefPool (\<lambda>p. plUpdate E k (pl_ID p) o1) w =
    (Fail e, w\<lparr>cloud := c', trace := trace w @ [PlUpdate (pl_ID q) o1 (None, Some e)], v_pool := None\<rparr>)"
  using assms by (simp add: derefPool_def bindG_def returnG_def plUpdate_def)

lemma derefPool_nil: "v_pool w = None \<Longrightarrow> bindG derefPool f w = (Panicked ''nil pointer dereference'', w)"
  by (simp add: derefPool_def bindG_def panicG_def)

lemma retry_crashing:
  assumes "patient_wait E" and "fn w1 = (Fail e, w2)" and "fn w2 = (Panicked s, w2)"
  shows "retryOnConflict E i fn w1 = (if isConflict e then (Panicked s, w2) else (Fail e, w2))"
proof -
  have "retryCond fn w1 = (if isConflict e then (Ok False, w2) else (Fail e, w2))"
    "retryCond fn w2 = (Panicked s, w2)"
    by (simp_all add: retryCond_def bindG_def catchG_def assms(2,3) returnG_def failG_def)
  then show ?thesis
    by (simp add: retryOnConflict_def patient_wait.all_steps [OF assms(1)] conflictBackoff_def numeral_eq_Suc
        bindG_def)
qed

text \<open>
  C19: when the update of a pool fails, \<open>ensurePool\<close> does not report the error: it crashes. The
  retried closure overwrites the variable \<open>pool\<close> with the result of the call, nil beside an error,
  and both the next attempt and the error message read \<open>pool.ID\<close>. So with a pool that
  needs an update, and updates that fail with a nil pool, the result is a nil dereference, whatever the
  error is: a conflict, which \<open>retryOnConflict\<close> is there for, included.
\<close>

theorem ensurePool_update_crashes:
  assumes "patient_wait E" and "ls_DefaultPoolID l \<noteq> ''''"
    and "pools_Get E k (ls_DefaultPoolID l) (cloud w) = (Inr q, c)" and "pool_differs settings service q"
    and "\<And>o1 c. \<exists>e c'. pools_Update E k (pl_ID q) o1 c = ((None, Some e), c')"
  shows "\<exists>w'. ensurePool E k lbID l name settings service port w = (Panicked ''nil pointer dereference'', w')"
proof -
  let ?o = "\<lparr>pu_LBMethod = LBAlgorithm settings, pu_Persistence = desiredPersistence service\<rparr>"
  let ?fn = "bindG derefPool (\<lambda>p. plUpdate E k (pl_ID p) ?o)"
  let ?w1 = "w\<lparr>cloud := c, trace := trace w @ [PlGet (ls_DefaultPoolID l) (Inr q)], v_pool := Some q\<rparr>"
  obtain e c' where upd: "pools_Update E k (pl_ID q) ?o c = ((None, Some e), c')" using assms(5) by blast
  define w2 where "w2 = ?w1\<lparr>cloud := c', trace := trace ?w1 @ [PlUpdate (pl_ID q) ?o (None, Some e)], v_pool := None\<rparr>"
  have fn: "?fn ?w1 = (Fail e, w2)"
    using failed_update [of E k q ?o ?w1 e c'] upd unfolding w2_def by simp
  have nil: "v_pool w2 = None" by (simp add: w2_def)
  have again: "?fn w2 = (Panicked ''nil pointer dereference'', w2)"
    using nil by (rule derefPool_nil)
  have retry: "retryOnConflict E lbID ?fn ?w1 =
      (if isConflict e then (Panicked ''nil pointer dereference'', w2) else (Fail e, w2))"
    using assms(1) fn again by (rule retry_crashing)
  have "mutate E k lbID ?fn ?w1 = (if isConflict e then (Panicked ''nil pointer dereference'', w2) else (Fail e, w2))"
    unfolding mutate_def by (simp add: bindG_Fail bindG_Panicked retry)
  then have "bindG (catchG (mutate E k lbID ?fn) (\<lambda>e. bindG derefPool (\<lambda>p. failG (Wrapf ''failed to update pool %s: %w'' [pl_ID p] e))))
      (\<lambda>_. derefPool) ?w1 = (Panicked ''nil pointer dereference'', w2)"
    by (simp add: bindG_Panicked catchG_def derefPool_nil [OF nil] split: if_splits)
  moreover have "ensurePool E k lbID l name settings service port w =
      bindG (catchG (mutate E k lbID ?fn) (\<lambda>e. bindG derefPool (\<lambda>p. failG (Wrapf ''failed to update pool %s: %w'' [pl_ID p] e))))
      (\<lambda>_. derefPool) ?w1"
    using assms(2,3,4)
    by (simp add: ensurePool_def Let_def bindG_def wrapG_def catchG_def plGet_def sdkCall_def pool_differs_def)
  ultimately have "ensurePool E k lbID l name settings service port w = (Panicked ''nil pointer dereference'', w2)" by simp
  then show ?thesis ..
qed

text \<open>The fake ELB with updates of pools answered by a conflict.\<close>

definition stubbornElb :: "(fakeClient, fakeELB) env" where
  "stubbornElb = fake_env\<lparr>pools_Update := \<lambda>k i o1 c. ((None, Some (Http 409)), c)\<rparr>"

theorem ensurePool_update_crashes_witness:
  "\<exists>w'. ensurePool stubbornElb ElbClient ''lb-1'' (plainListener\<lparr>ls_DefaultPoolID := ''p''\<rparr>) ''kube_service_c_default_web''
     (plainSettings\<lparr>LBAlgorithm := ''SOURCE_IP''\<rparr>) (testService [port80]) port80
     (world_of (testState\<lparr>pools := [(''p'', barePool)]\<rparr>)) = (Panicked ''nil pointer dereference'', w')"
proof (rule ensurePool_update_crashes)
  show "patient_wait stubbornElb" by (rule patient_env) (simp_all add: stubbornElb_def fake_env_def)
  show "pools_Get stubbornElb ElbClient (ls_DefaultPoolID (plainListener\<lparr>ls_DefaultPoolID := ''p''\<rparr>))
      (cloud (world_of (testState\<lparr>pools := [(''p'', barePool)]\<rparr>))) = (Inr barePool, testState\<lparr>pools := [(''p'', barePool)]\<rparr>)"
    by (simp add: stubbornElb_def fake_env_def onElb_def world_of_def run)
  show "pool_differs (plainSettings\<lparr>LBAlgorithm := ''SOURCE_IP''\<rparr>) (testService [port80]) barePool"
    by (simp add: pool_differs_def barePool_def)
qed (simp_all add: stubbornElb_def)


subsection \<open>A finished deletion\<close>

text \<open>
  C14: what a successful \<open>EnsureLoadBalancerDeleted\<close> has done. Either there is no balancer, or of the
  balancer found every listener in its list (on a shared balancer every own one) was deleted or found gone, and
  with it the pool it had; the balancer itself, unless shared, was deleted or found gone; and, unless it is
  shared, when the annotations ask for an EIP by bandwidth and not to keep it, so was every EIP bound to it.
  Without a bandwidth, or with \<open>eip-keep\<close>, nothing is said about EIPs: those given by \<open>eip-ids\<close> stay.
\<close>

theorem deletion_complete:
  assumes "wait_contract E" and "clients_quiet lb"
    and "settingsForService (opts lb) service = Inr settings"
    and "EnsureLoadBalancerDeleted E lb c service w = (Ok (), w')"
  shows "absent settings (GetLoadBalancerName c service) (set (trace w')) \<or>
    (\<exists>b ls. the_balancer settings (GetLoadBalancerName c service) (set (trace w')) b \<and>
       LsList (lb_ID b) (Inr (Inr ls)) \<in> set (trace w') \<and>
       (\<forall>l \<in> set ls. LoadBalancerID settings = '''' \<or> owned (GetLoadBalancerName c service) (ls_Name l) \<longrightarrow>
          listener_gone (set (trace w')) l) \<and>
       (LoadBalancerID settings = '''' \<longrightarrow> (\<exists>r. LbDelete (lb_ID b) r \<in> set (trace w') \<and> gone r) \<and>
          (EipBandwidth settings > 0 \<and> \<not> EipKeep settings \<longrightarrow>
             (\<forall>eip \<in> set (lb_PublicIps b). PublicIpID eip \<noteq> '''' \<longrightarrow>
                (\<exists>r. EipDelete (PublicIpID eip) r \<in> set (trace w') \<and> gone r)))))"
proof -
  let ?n = "GetLoadBalancerName c service"
  have "bindG (newClient lb) (\<lambda>k. bindG (findLoadBalancer E k settings ?n) (\<lambda>found. case found of
         None \<Rightarrow> returnG () | Some b \<Rightarrow> deleteBalancer E lb k settings ?n b)) w = (Ok (), w')"
    using assms(3,4) by (simp add: EnsureLoadBalancerDeleted_def Let_def)
  then obtain k w1 found w2 where find: "findLoadBalancer E k settings ?n w1 = (Ok found, w2)"
    and rest: "(case found of None \<Rightarrow> returnG () | Some b \<Rightarrow> deleteBalancer E lb k settings ?n b) w2 = (Ok (), w')"
    by (elim bindG_OkE)
  show ?thesis
  proof (cases found)
    case None
    then show ?thesis using find find_none rest by auto
  next
    case (Some b)
    then have del: "deleteBalancer E lb k settings ?n b w2 = (Ok (), w')" using rest by simp
    have b: "the_balancer settings ?n (set (trace w2)) b"
      using knownD [OF known_findLoadBalancer find] Some by simp
    note gives = wait_contract.deleteBalancer_gives [OF assms(1) del assms(2)]
    have "the_balancer settings ?n (set (trace w')) b" using b conjunct1 [OF gives] by (rule the_balancer_mono)
    then show ?thesis using gives by blast
  qed
qed

theorem deletion_complete_witness:
  "\<exists>w' (b :: BalancerObj) ls. EnsureLoadBalancerDeleted fake_env testLoadBalancer ''c''
        (annotatedService [AnnotationEipBandwidth \<mapsto> ''100''] [port80]) (world_of testState) = (Ok (), w') \<and>
     LsList (lb_ID b) (Inr (Inr ls)) \<in> set (trace w') \<and> (\<forall>l \<in> set ls. listener_gone (set (trace w')) l) \<and>
     (\<forall>eip \<in> set (lb_PublicIps b). PublicIpID eip \<noteq> '''' \<longrightarrow>
        (\<exists>r. EipDelete (PublicIpID eip) r \<in> set (trace w') \<and> gone r))"
proof -
  let ?s = "annotatedService [AnnotationEipBandwidth \<mapsto> ''100''] [port80]"
  let ?set = "plainSettings\<lparr>EipBandwidth := 100\<rparr>"
  have "\<exists>w'. EnsureLoadBalancerDeleted fake_env testLoadBalancer ''c'' ?s (world_of testState) = (Ok (), w') \<and>
     \<not> absent ?set (GetLoadBalancerName ''c'' ?s) (set (trace w'))"
    by (simp add: run absent_def no_balancer_def)
  then obtain w' where run: "EnsureLoadBalancerDeleted fake_env testLoadBalancer ''c'' ?s (world_of testState) = (Ok (), w')"
    and found: "\<not> absent ?set (GetLoadBalancerName ''c'' ?s) (set (trace w'))" by (elim exE conjE)
  have s: "settingsForService (opts testLoadBalancer) ?s = Inr ?set"
    by (simp only: fixture_fields settings_fixtures)
  have q: "clients_quiet testLoadBalancer" by (simp add: clients_quiet_def)
  obtain b :: BalancerObj and ls where "LsList (lb_ID b) (Inr (Inr ls)) \<in> set (trace w')"
    "\<forall>l \<in> set ls. LoadBalancerID ?set = '''' \<or> owned (GetLoadBalancerName ''c'' ?s) (ls_Name l) \<longrightarrow> listener_gone (set (trace w')) l"
    "LoadBalancerID ?set = '''' \<longrightarrow> (\<exists>r. LbDelete (lb_ID b) r \<in> set (trace w') \<and> gone r) \<and>
          (EipBandwidth ?set > 0 \<and> \<not> EipKeep ?set \<longrightarrow>
             (\<forall>eip \<in> set (lb_PublicIps b). PublicIpID eip \<noteq> '''' \<longrightarrow>
                (\<exists>r. EipDelete (PublicIpID eip) r \<in> set (trace w') \<and> gone r)))"
    using deletion_complete [OF fake.wait_contract_axioms q s run] found by blast
  moreover have "LoadBalancerID ?set = ''''" "EipBandwidth ?set > 0" "\<not> EipKeep ?set"
    by (simp_all add: plainSettings_def)
  ultimately show ?thesis
    using run by (intro exI [of _ w'] exI [of _ b] exI [of _ ls] conjI) simp_all
qed

subsection \<open>A deletion that is tried again\<close>

text \<open>
  The EIPs to release are known only from the balancer, which \<open>destroyBalancer\<close> deletes first. When the
  release fails, here for want of a network client, the deletion returns the error; tried again, it finds no
  balancer and reports success, and the EIP created with the balancer stays allocated.
\<close>

lemma eips_leak_after_failed_release:
  "\<exists>e w1 w2. EnsureLoadBalancerDeleted fake_env
        (testLoadBalancer\<lparr>newNetworkClient := failG (Errorf ''no network client'' [])\<rparr>) ''c''
        (annotatedService [AnnotationEipBandwidth \<mapsto> ''100''] [port80]) (world_of testState) = (Fail e, w1) \<and>
     EnsureLoadBalancerDeleted fake_env testLoadBalancer ''c''
        (annotatedService [AnnotationEipBandwidth \<mapsto> ''100''] [port80]) w1 = (Ok (), w2) \<and>
     loadBalancers (cloud w2) = [] \<and> eips (cloud w2) = eips testState \<and> eips testState \<noteq> []"
  by (simp add: run)

end
