(* ===== verification/Elb_Settled.thy ===== *)
theory Elb_Settled
  imports Elb_Members
begin

section \<open>Nothing left to do\<close>

text \<open>
  What it means that the cloud already is as a Service wants it (\<open>settled\<close>), read off the answers the
  cloud gives, and that reconciling a settled Service only looks: \<open>looks c m x\<close> says that \<open>m\<close>, started
  in the cloud \<open>c\<close>, returns \<open>x\<close>, makes read-only calls and leaves \<open>c\<close> as it is.
\<close>

subsection \<open>Runs that only look\<close>

definition looks :: "'c \<Rightarrow> ('c world, 'a) go \<Rightarrow> 'a \<Rightarrow> bool" where
  "looks c m x \<longleftrightarrow> (\<forall>w. cloud w = c \<longrightarrow> (\<exists>w' es. m w = (Ok x, w') \<and> cloud w' = c \<and>
     trace w' = trace w @ es \<and> (\<forall>e \<in> set es. read_only e)))"

named_theorems looks_rules "composition rules for looks"

lemma looksE:
  assumes "looks (cloud w) m x"
  obtains w' es where "m w = (Ok x, w')" and "cloud w' = cloud w" and "trace w' = trace w @ es"
    and "\<forall>e \<in> set es. read_only e"
  using assms unfolding looks_def by blast

lemma looks_return [looks_rules]: "looks c (returnG x) x"
  by (simp add: looks_def)

lemma looks_bind:
  assumes "looks c m x" and "looks c (f x) y"
  shows "looks c (bindG m f) y"
  unfolding looks_def
proof (intro allI impI)
  fix w :: "'a world" assume w: "cloud w = c"
  obtain w1 es where 1: "m w = (Ok x, w1)" "cloud w1 = c" "trace w1 = trace w @ es" "\<forall>e \<in> set es. read_only e"
    using assms(1) w by (auto elim: looksE)
  obtain w2 es' where 2: "f x w1 = (Ok y, w2)" "cloud w2 = c" "trace w2 = trace w1 @ es'" "\<forall>e \<in> set es'. read_only e"
    using assms(2) 1(2) by (auto elim: looksE)
  show "\<exists>w' es. bindG m f w = (Ok y, w') \<and> cloud w' = c \<and> trace w' = trace w @ es \<and> (\<forall>e \<in> set es. read_only e)"
    using 1 2 by (intro exI [of _ w2] exI [of _ "es @ es'"]) (auto simp: bindG_Ok)
qed

lemma looks_catch: "looks c m x \<Longrightarrow> looks c (catchG m h) x"
  unfolding looks_def by (metis catchG_Ok)

lemma looks_wrap [looks_rules]: "looks c m x \<Longrightarrow> looks c (wrapG fmt args m) x"
  unfolding wrapG_def by (rule looks_catch)

lemma looks_lift [looks_rules]: "r = Inr x \<Longrightarrow> looks c (liftG r) x"
  by (simp add: looks_return)

lemma looks_get: "(\<And>w. looks c (g (f w)) x) \<Longrightarrow> looks c (bindG (getG f) g) x"
  unfolding looks_def by (simp add: bindG_def)

lemma looks_each [looks_rules]: "(\<And>x. x \<in> set xs \<Longrightarrow> looks c (f x) ()) \<Longrightarrow> looks c (eachG f xs) ()"
  by (induction xs) (auto intro: looks_return looks_bind)

lemma looks_sdkCall: "f c = (Inr x, c) \<Longrightarrow> read_only (ev (Inr x)) \<Longrightarrow> looks c (sdkCall f ev) x"
  by (auto simp: looks_def sdkCall_def)

lemma looks_calls [looks_rules]:
  "loadbalancers_List E k n c = (Inr bs, c) \<Longrightarrow> looks c (lbList E k n) bs"
  "loadbalancers_Get E k i c = (Inr b, c) \<Longrightarrow> looks c (lbGet E k i) b"
  "listeners_List E k i c = (Inr ls, c) \<Longrightarrow> looks c (lsList E k i) ls"
  "pools_Get E k i c = (Inr p, c) \<Longrightarrow> looks c (plGet E k i) p"
  "members_List E k i c = (Inr ms, c) \<Longrightarrow> looks c (mbList E k i) ms"
  "monitors_Get E k i c = (Inr m, c) \<Longrightarrow> looks c (moGet E k i) m"
  by (simp_all add: sdk_defs looks_sdkCall)

text \<open>A get that finds its object, or is told that it does not exist.\<close>

definition getAnswers :: "('c \<Rightarrow> (err + 'a) \<times> 'c) \<Rightarrow> 'c \<Rightarrow> 'a option \<Rightarrow> bool" where
  "getAnswers f c x \<longleftrightarrow> (\<exists>r. f c = (r, c) \<and> (case r of Inr y \<Rightarrow> x = Some y | Inl e \<Rightarrow> isNotFound e \<and> x = None))"

lemma looks_getOrNone:
  assumes "getAnswers f c x" and "\<And>r. read_only (ev r)"
  shows "looks c (getOrNone fmt args (sdkCall f ev)) x"
proof -
  obtain r where r: "f c = (r, c)" "case r of Inr y \<Rightarrow> x = Some y | Inl e \<Rightarrow> isNotFound e \<and> x = None"
    using assms(1) unfolding getAnswers_def by blast
  show ?thesis
    using r assms(2) by (cases r) (auto simp: looks_def getOrNone_def catchG_def bindG_def sdkCall_def returnG_def failG_def)
qed

lemma looks_attempts: "looks c cond True \<Longrightarrow> 0 < n \<Longrightarrow> looks c (attempts n e cond) ()"
  by (cases n) (auto intro!: looks_bind [where x = True] looks_return)

context wait_contract begin

lemma looks_active:
  assumes "loadbalancers_Get E k i c = (Inr b, c)" and "lb_ProvisioningStatus b = statusActive"
  shows "looks c (waitForActive E k i) ()"
  unfolding looks_def
proof (intro allI impI)
  fix w :: "'c world" assume w: "cloud w = c"
  obtain n e where n: "0 < n" and poll: "pollUntilContextTimeout E activePollIntervalMs activePollTimeoutMs True
      (activeCond E k i) w = attempts n e (activeCond E k i) w"
    using poll_attempts [of True activePollIntervalMs activePollTimeoutMs "activeCond E k i" w] by blast
  have "looks c (activeCond E k i) True"
    unfolding activeCond_def by (rule looks_bind [OF looks_calls(2) [OF assms(1)]]) (simp add: assms(2) looks_return)
  from looks_attempts [OF this n, of e] show "\<exists>w' es. waitForActive E k i w = (Ok (), w') \<and> cloud w' = c \<and>
      trace w' = trace w @ es \<and> (\<forall>e \<in> set es. read_only e)"
    using w unfolding looks_def waitForActive_def poll by blast
qed

end

subsection \<open>A settled Service\<close>

text \<open>The whitelist of a port's listener: in force with the wanted ranges; or, when none are wanted, no
  enabled group of the port is attached.\<close>

definition whitelist_settled ::
  "('k, 'c) env \<Rightarrow> 'k \<Rightarrow> 'c \<Rightarrow> string \<Rightarrow> Service \<Rightarrow> ServicePort \<Rightarrow> ListenerObj \<Rightarrow> bool" where
  "whitelist_settled E k c name service port l \<longleftrightarrow>
     (let ranges = normalizeRanges (LoadBalancerSourceRanges service)
      in if ranges = [] then
           ls_IpGroupID l = '''' \<or> (\<exists>g. getAnswers (ipgroups_Get E k (ls_IpGroupID l)) c g \<and>
             (\<forall>grp. g = Some grp \<longrightarrow> ig_Name grp \<noteq> resourceName name port \<or> ls_IpGroupEnable l \<noteq> Some True))
         else ls_IpGroupID l \<noteq> '''' \<and> ls_IpGroupEnable l = Some True \<and>
           (\<exists>grp. ipgroups_Get E k (ls_IpGroupID l) c = (Inr grp, c) \<and> ig_Name grp = resourceName name port \<and>
              ipListEqual (ig_IpList grp) ranges))"

text \<open>The health monitor of a pool: as the settings say, or absent when checks are disabled.\<close>

definition probes :: "serviceSettings \<Rightarrow> Probe \<Rightarrow> MonitorObj \<Rightarrow> bool" where
  "probes settings probe m \<longleftrightarrow> mo_Type m = pr_Type probe \<and> mo_MonitorPort m = pr_Port probe \<and>
     mo_Delay m = HealthCheckDelay settings \<and> mo_Timeout m = HealthCheckTimeout settings \<and>
     mo_MaxRetries m = HealthCheckMaxRetries settings \<and> mo_URLPath m = pr_URLPath probe \<and>
     mo_HTTPMethod m = pr_HTTPMethod probe"

definition monitor_settled ::
  "('k, 'c) env \<Rightarrow> 'k \<Rightarrow> 'c \<Rightarrow> serviceSettings \<Rightarrow> Service \<Rightarrow> ServicePort \<Rightarrow> PoolObj \<Rightarrow> bool" where
  "monitor_settled E k c settings service port p \<longleftrightarrow>
     (if HealthCheckEnabled settings then
        pl_MonitorID p \<noteq> '''' \<and> (\<exists>m. monitors_Get E k (pl_MonitorID p) c = (Inr m, c) \<and>
          probes settings (desiredProbe settings service port) m)
      else pl_MonitorID p = '''')"

definition pool_settled :: "serviceSettings \<Rightarrow> Service \<Rightarrow> PoolObj \<Rightarrow> bool" where
  "pool_settled settings service p \<longleftrightarrow> pl_LBMethod p = LBAlgorithm settings \<and>
     (desiredPersistence service = None \<or> pl_Persistence p = desiredPersistence service)"

text \<open>The members of a pool: one endpoint per usable node address on the node port.\<close>

definition members_settled :: "Node list \<Rightarrow> ServicePort \<Rightarrow> MemberObj list \<Rightarrow> bool" where
  "members_settled nodes port ms \<longleftrightarrow> NodePort port \<noteq> 0 \<and> (\<exists>n \<in> set nodes. \<exists>a. nodeAddress n = Inr a) \<and>
     (\<lambda>m. (mb_Address m, mb_ProtocolPort m)) ` set ms = {(a, NodePort port) |a. \<exists>n \<in> set nodes. nodeAddress n = Inr a}"

definition port_settled ::
  "('k, 'c) env \<Rightarrow> 'k \<Rightarrow> 'c \<Rightarrow> string \<Rightarrow> serviceSettings \<Rightarrow> Service \<Rightarrow> Node list \<Rightarrow> ListenerObj \<Rightarrow> ServicePort \<Rightarrow> bool" where
  "port_settled E k c name settings service nodes l port \<longleftrightarrow>
     whitelist_settled E k c name service port l \<and> ls_DefaultPoolID l \<noteq> '''' \<and>
     (\<exists>p ms. pools_Get E k (ls_DefaultPoolID l) c = (Inr p, c) \<and> pool_settled settings service p \<and>
        members_List E k (pl_ID p) c = (Inr (Inr ms), c) \<and> members_settled nodes port ms \<and>
        monitor_settled E k c settings service port p)"

text \<open>The balancer \<open>b\<close>: active, every port settled, no stale listener of the Service.\<close>

definition settled ::
  "('k, 'c) env \<Rightarrow> 'k \<Rightarrow> 'c \<Rightarrow> string \<Rightarrow> serviceSettings \<Rightarrow> Service \<Rightarrow> Node list \<Rightarrow> string \<Rightarrow> BalancerObj \<Rightarrow> bool" where
  "settled E k c name settings service nodes lbID b \<longleftrightarrow>
     loadbalancers_Get E k lbID c = (Inr b, c) \<and> lb_ProvisioningStatus b = statusActive \<and>
     (\<exists>ls. listeners_List E k lbID c = (Inr (Inr ls), c) \<and>
        (\<forall>port \<in> set (Ports service). \<exists>l. listenersByKey ls (portKey port) = Some l \<and>
           port_settled E k c name settings service nodes l port) \<and>
        (\<forall>l \<in> set ls. HasPrefix (ls_Name l) (name @ ''_'') \<longrightarrow> listenerKey l \<in> portKey ` set (Ports service)))"

text \<open>Looking the balancer up, by id or by name, yields it.\<close>

definition found_as :: "('k, 'c) env \<Rightarrow> 'k \<Rightarrow> 'c \<Rightarrow> string \<Rightarrow> serviceSettings \<Rightarrow> BalancerObj \<Rightarrow> bool" where
  "found_as E k c name settings b \<longleftrightarrow>
     (if LoadBalancerID settings \<noteq> '''' then loadbalancers_Get E k (LoadBalancerID settings) c = (Inr b, c)
      else \<exists>bs. loadbalancers_List E k name c = (Inr (Inr bs), c) \<and> find (\<lambda>b. lb_Name b = name) bs = Some b)"

subsection \<open>Reconciling it only looks\<close>

lemma looks_findLoadBalancer:
  assumes "found_as E k c name settings b"
  shows "looks c (findLoadBalancer E k settings name) (Some b)"
proof (cases "LoadBalancerID settings = ''''")
  case True
  then obtain bs where bs: "loadbalancers_List E k name c = (Inr (Inr bs), c)" "find (\<lambda>b. lb_Name b = name) bs = Some b"
    using assms by (auto simp: found_as_def)
  show ?thesis
    using True bs(2) looks_calls(1) [OF bs(1)] unfolding findLoadBalancer_def
    by (auto intro!: looks_bind [where x = "Inr bs"] looks_wrap looks_bind [where x = bs] looks_lift looks_return)
next
  case False
  then have "getAnswers (loadbalancers_Get E k (LoadBalancerID settings)) c (Some b)"
    using assms by (simp add: found_as_def getAnswers_def)
  then show ?thesis
    using False by (simp add: findLoadBalancer_def lbGet_def looks_getOrNone)
qed

lemma looks_lists:
  "listeners_List E k i c = (Inr (Inr ls), c) \<Longrightarrow> looks c (listListeners E k i) ls"
  "members_List E k i c = (Inr (Inr ms), c) \<Longrightarrow> looks c (listMembers E k i) ms"
  unfolding listListeners_def listMembers_def
  by (auto intro!: looks_bind [where x = "Inr ls"] looks_bind [where x = "Inr ms"] looks_wrap looks_lift looks_calls
      simp: looks_return)

lemma looks_reconcileIPGroup:
  assumes "whitelist_settled E k c name service port l"
  shows "looks c (reconcileIPGroup E k lbID l name service port) ()"
proof -
  let ?get = "getOrNone ''failed to get ipgroup %s: %w'' [ls_IpGroupID l] (igGet E k (ls_IpGroupID l))"
  have get: "looks c ?get g" if "getAnswers (ipgroups_Get E k (ls_IpGroupID l)) c g" for g
    unfolding igGet_def using that by (rule looks_getOrNone) simp
  show ?thesis
  proof (cases "normalizeRanges (LoadBalancerSourceRanges service) = []")
    case True
    show ?thesis
    proof (cases "ls_IpGroupID l = ''''")
      case False
      then obtain g where g: "getAnswers (ipgroups_Get E k (ls_IpGroupID l)) c g"
        "\<forall>grp. g = Some grp \<longrightarrow> ig_Name grp \<noteq> resourceName name port \<or> ls_IpGroupEnable l \<noteq> Some True"
        using assms True by (auto simp: whitelist_settled_def)
      show ?thesis
        unfolding reconcileIPGroup_def Let_def if_P [OF True] if_not_P [OF False]
        by (rule looks_bind [OF get [OF g(1)]]) (use g(2) in \<open>auto intro: looks_return split: option.split\<close>)
    qed (simp add: reconcileIPGroup_def True looks_return)
  next
    case False
    then obtain grp where grp: "ipgroups_Get E k (ls_IpGroupID l) c = (Inr grp, c)" and id: "ls_IpGroupID l \<noteq> ''''"
      and same: "ls_IpGroupEnable l = Some True" "ig_Name grp = resourceName name port"
        "ipListEqual (ig_IpList grp) (normalizeRanges (LoadBalancerSourceRanges service))"
      using assms by (auto simp: whitelist_settled_def)
    have "looks c ?get (Some grp)" by (rule get) (simp add: getAnswers_def grp)
    then show ?thesis
      unfolding reconcileIPGroup_def Let_def if_not_P [OF False] if_P [OF id]
      by (rule looks_bind) (simp add: same looks_return)
  qed
qed

lemma looks_ensurePool:
  assumes "ls_DefaultPoolID l \<noteq> ''''" and "pools_Get E k (ls_DefaultPoolID l) c = (Inr p, c)"
    and "pool_settled settings service p"
  shows "looks c (ensurePool E k lbID l name settings service port) p"
  unfolding ensurePool_def Let_def if_P [OF assms(1)]
  by (rule looks_bind [OF looks_wrap [OF looks_calls(4) [OF assms(2)]]])
    (use assms(3) in \<open>auto simp: pool_settled_def looks_return\<close>)

lemma settled_maps:
  assumes "members_settled nodes port ms"
  shows "wantedMembers (NodePort port) nodes \<noteq> []"
    and "map_of (haveMembers ms) key = None \<longleftrightarrow> map_of (wantedMembers (NodePort port) nodes) key = None"
proof -
  have ends: "(\<exists>m \<in> set ms. mb_Address m = a \<and> mb_ProtocolPort m = p) \<longleftrightarrow>
      p = NodePort port \<and> (\<exists>n \<in> set nodes. nodeAddress n = Inr a)" for a p
  proof -
    have "(a, p) \<in> (\<lambda>m. (mb_Address m, mb_ProtocolPort m)) ` set ms \<longleftrightarrow>
        (a, p) \<in> {(a, NodePort port) |a. \<exists>n \<in> set nodes. nodeAddress n = Inr a}"
      using assms unfolding members_settled_def by (elim conjE) simp
    then show ?thesis by (auto simp: image_iff)
  qed
  show "wantedMembers (NodePort port) nodes \<noteq> []"
  proof -
    obtain n a where "n \<in> set nodes" "nodeAddress n = Inr a"
      using assms by (auto simp: members_settled_def)
    then show ?thesis by (auto simp: wantedMembers_Nil intro!: bexI [of _ n])
  qed
  show "map_of (haveMembers ms) key = None \<longleftrightarrow> map_of (wantedMembers (NodePort port) nodes) key = None"
  proof -
    have "(\<exists>m \<in> set ms. key = memberKey (mb_Address m) (mb_ProtocolPort m)) \<longleftrightarrow>
        (\<exists>n \<in> set nodes. \<exists>a. nodeAddress n = Inr a \<and> key = memberKey a (NodePort port))"
      using ends by metis
    then show ?thesis unfolding haveMembers_None wantedMembers_None by blast
  qed
qed

lemma looks_reconcileMembers:
  assumes "members_List E k j c = (Inr (Inr ms), c)" and set: "members_settled nodes port ms"
  shows "looks c (reconcileMembers E k b j (NodePort port) nodes) ()"
proof -
  have p: "NodePort port \<noteq> 0" using set by (simp add: members_settled_def)
  have add: "looks c (addMember E k b j (NodePort port) (wantedMembers (NodePort port) nodes) (haveMembers ms) key) ()" for key
    using settled_maps(2) [OF set, of key] by (auto simp: addMember_def looks_return split: option.split)
  have remove: "looks c (removeMember E k b j (wantedMembers (NodePort port) nodes) (haveMembers ms) key) ()" for key
    using settled_maps(2) [OF set, of key] by (auto simp: removeMember_def looks_return split: option.split)
  show ?thesis
    unfolding reconcileMembers_def Let_def if_not_P [OF p]
    by (rule looks_bind [OF looks_lists(2) [OF assms(1)]], unfold if_not_P [OF settled_maps(1) [OF set]],
        intro looks_get looks_bind [OF looks_each [OF add]] looks_each [OF remove])
qed

lemma looks_reconcileMonitor:
  assumes "monitor_settled E k c settings service port p"
  shows "looks c (reconcileMonitor E k lbID p name settings service port) ()"
proof (cases "HealthCheckEnabled settings")
  case True
  then obtain m where id: "pl_MonitorID p \<noteq> ''''" and m: "monitors_Get E k (pl_MonitorID p) c = (Inr m, c)"
    and same: "probes settings (desiredProbe settings service port) m"
    using assms by (auto simp: monitor_settled_def)
  have on: "\<not> \<not> HealthCheckEnabled settings" using True by simp
  show ?thesis
    unfolding reconcileMonitor_def Let_def if_not_P [OF on] if_not_P [OF id]
    by (rule looks_bind [OF looks_wrap [OF looks_calls(6) [OF m]]])
      (use same in \<open>simp add: probes_def looks_return\<close>)
qed (use assms in \<open>simp add: monitor_settled_def reconcileMonitor_def looks_return\<close>)

lemma looks_reconcilePort:
  assumes "port_settled E k c name settings service nodes l port" and "byKey (portKey port) = Some l"
    and "IdleTimeout settings \<le> 0"
  shows "looks c (reconcilePort E k b name settings service nodes byKey port) ()"
proof -
  obtain p ms where pool: "ls_DefaultPoolID l \<noteq> ''''" "pools_Get E k (ls_DefaultPoolID l) c = (Inr p, c)"
      "pool_settled settings service p"
    and ms: "members_List E k (pl_ID p) c = (Inr (Inr ms), c)" "members_settled nodes port ms"
    and rest: "whitelist_settled E k c name service port l" "monitor_settled E k c settings service port p"
    using assms(1) by (auto simp: port_settled_def)
  have "looks c (case byKey (portKey port) of
         None \<Rightarrow> bindG (createListener E k (lb_ID b) name settings port) derefG
       | Some listener \<Rightarrow>
           if IdleTimeout settings > 0 then
             bindG (wrapG ''failed to update listener %s: %w'' [ls_ID listener]
               (mutate E k (lb_ID b)
                 (bindG (lsUpdate E k (ls_ID listener)
                     \<lparr>nu_KeepAliveTimeout = IdleTimeout settings, nu_IpGroup = None\<rparr>) (\<lambda>_. returnG ()))))
               (\<lambda>_. returnG listener)
           else returnG listener) l"
    using assms(2,3) by (simp add: looks_return)
  then show ?thesis
    unfolding reconcilePort_def
    by (rule looks_bind, intro looks_bind [OF looks_reconcileIPGroup [OF rest(1)]]
        looks_bind [OF looks_ensurePool [OF pool]] looks_bind [OF looks_reconcileMembers [OF ms]]
        looks_reconcileMonitor [OF rest(2)])
qed

lemma looks_reconcile:
  assumes "settled E k c name settings service nodes (lb_ID b) b'" and "IdleTimeout settings \<le> 0"
  shows "looks c (reconcile E k b name settings service nodes) ()"
proof -
  obtain ls where ls: "listeners_List E k (lb_ID b) c = (Inr (Inr ls), c)"
    and ports: "\<forall>port \<in> set (Ports service). \<exists>l. listenersByKey ls (portKey port) = Some l \<and>
       port_settled E k c name settings service nodes l port"
    and stale: "\<forall>l \<in> set ls. HasPrefix (ls_Name l) (name @ ''_'') \<longrightarrow> listenerKey l \<in> portKey ` set (Ports service)"
    using assms(1) unfolding settled_def by (elim conjE exE)
  have each: "looks c (reconcilePort E k b name settings service nodes (listenersByKey ls) port) ()"
    if port: "port \<in> set (Ports service)" for port
  proof -
    obtain l where "listenersByKey ls (portKey port) = Some l" "port_settled E k c name settings service nodes l port"
      using bspec [OF ports port] by (elim exE conjE)
    then show ?thesis using assms(2) by (intro looks_reconcilePort)
  qed
  show ?thesis
    unfolding reconcile_def
    by (intro looks_bind [OF looks_lists(1) [OF ls]] looks_bind [OF looks_each [OF each]] looks_each)
      (use stale in \<open>auto simp: looks_return\<close>)
qed

context wait_contract begin

lemma looks_EnsureLoadBalancer:
  assumes "Ports service \<noteq> []" and "validatePorts service = Inr u" and "nodes \<noteq> []"
    and s: "settingsForService (opts lb) service = Inr settings" and idle: "IdleTimeout settings \<le> 0"
    and client: "looks c (newClient lb) k" and found: "found_as E k c (GetLoadBalancerName cl service) settings b"
    and settled: "settled E k c (GetLoadBalancerName cl service) settings service nodes (lb_ID b) b'"
  shows "looks c (EnsureLoadBalancer E lb cl service nodes) (lbStatus b')"
proof -
  have get: "loadbalancers_Get E k (lb_ID b) c = (Inr b', c)" "lb_ProvisioningStatus b' = statusActive"
    using settled by (simp_all add: settled_def)
  show ?thesis
    unfolding EnsureLoadBalancer_def if_not_P [OF assms(1)] assms(2) liftG_simps bindG_return if_not_P [OF assms(3)] s Let_def
    by (rule looks_bind [OF client], rule looks_bind [OF looks_findLoadBalancer [OF found]])
      (simp, intro looks_bind [OF looks_active [OF get]] looks_bind [OF looks_reconcile [OF settled idle]]
        looks_bind [OF looks_wrap [OF looks_calls(2) [OF get(1)]]] looks_return)
qed

end

end
