(* ===== verification/Fake_Consistency.thy ===== *)
theory Fake_Consistency
  imports Elb_Convergence Elb_Settled
begin

section \<open>Consistent states of the fake ELB\<close>

text \<open>
  The invariant of \<open>fakeELB\<close> under which a reconciliation succeeds (\<open>consistent\<close>): references lead to
  objects, nothing is shared between listeners, the id counter is ahead of every id. What belongs to one
  listener is its slice (\<open>sliceOf\<close>); \<open>only_touches i s s'\<close> says that going from \<open>s\<close> to \<open>s'\<close> keeps the invariant
  and changes no slice but that of the listener \<open>i\<close>. One lemma per handler shows what it does to slices.
\<close>

subsection \<open>The invariant\<close>

text \<open>Objects are stored under their ids; references are empty or lead to an object nobody else refers to.\<close>

definition keyed :: "('a \<Rightarrow> string) \<Rightarrow> (string \<rightharpoonup> 'a) \<Rightarrow> bool" where
  "keyed f m \<longleftrightarrow> (\<forall>i x. m i = Some x \<longrightarrow> f x = i)"

definition linked :: "('a \<Rightarrow> string) \<Rightarrow> (string \<rightharpoonup> 'a) \<Rightarrow> string set \<Rightarrow> bool" where
  "linked f m D \<longleftrightarrow> (\<forall>i x. m i = Some x \<longrightarrow> f x \<noteq> '''' \<longrightarrow>
     f x \<in> D \<and> (\<forall>j y. m j = Some y \<longrightarrow> f y = f x \<longrightarrow> j = i))"

abbreviation poolRef :: "FakeListener \<Rightarrow> string" where "poolRef l \<equiv> ls_DefaultPoolID (fl_obj l)"
abbreviation groupRef :: "FakeListener \<Rightarrow> string" where "groupRef l \<equiv> ls_IpGroupID (fl_obj l)"

text \<open>A monitor that is no HTTP probe has neither path nor method.\<close>

definition monitor_ok :: "MonitorObj \<Rightarrow> bool" where
  "monitor_ok m \<longleftrightarrow> mo_Type m \<noteq> ''HTTP'' \<and> mo_Type m \<noteq> ''HTTPS'' \<longrightarrow> mo_URLPath m = '''' \<and> mo_HTTPMethod m = ''''"

definition members_ok :: "(string \<rightharpoonup> PoolObj) \<Rightarrow> (string \<rightharpoonup> (string \<times> MemberObj) list) \<Rightarrow> bool" where
  "members_ok ps mbs \<longleftrightarrow> (\<forall>j \<in> dom ps. \<exists>ms. mbs j = Some ms \<and>
     inj_on endpoint (snd ` set ms) \<and> inj_on mb_ID (snd ` set ms))"

definition monitors_ok :: "(string \<rightharpoonup> PoolObj) \<Rightarrow> (string \<rightharpoonup> FakeMonitor) \<Rightarrow> bool" where
  "monitors_ok ps mos \<longleftrightarrow> (\<forall>j p. ps j = Some p \<longrightarrow> pl_MonitorID p \<noteq> '''' \<longrightarrow>
     (\<exists>m. mos (pl_MonitorID p) = Some m \<and> fm_pool_id m = j \<and> monitor_ok (fm_obj m)))"

text \<open>The counter is ahead of the ids in use.\<close>

definition unused :: "string \<Rightarrow> int \<Rightarrow> string set \<Rightarrow> bool" where
  "unused pre n I \<longleftrightarrow> (\<forall>m > n. genID pre m \<notin> I)"

definition ids_unused :: "fakeELB \<Rightarrow> bool" where
  "ids_unused s \<longleftrightarrow> 0 \<le> nextID s \<and> unused ''lb'' (nextID s) (dom (map_of (loadBalancers s))) \<and>
     unused ''listener'' (nextID s) (dom (map_of (listeners s))) \<and>
     unused ''pool'' (nextID s) (dom (map_of (pools s)) \<union> dom (map_of (members s))) \<and>
     unused ''monitor'' (nextID s) (dom (map_of (monitors s))) \<and>
     unused ''ipgroup'' (nextID s) (dom (map_of (ipGroups s)))"

definition consistent :: "fakeELB \<Rightarrow> bool" where
  "consistent s \<longleftrightarrow> fake_ids s \<and> ids_unused s \<and>
     distinct (map fst (loadBalancers s)) \<and> distinct (map fst (listeners s)) \<and>
     keyed lb_ID (map_of (loadBalancers s)) \<and> keyed (\<lambda>l. ls_ID (fl_obj l)) (map_of (listeners s)) \<and>
     keyed pl_ID (map_of (pools s)) \<and> keyed ig_ID (map_of (ipGroups s)) \<and>
     (\<forall>i b. map_of (loadBalancers s) i = Some b \<longrightarrow> i \<noteq> '''' \<and> lb_ProvisioningStatus b = statusActive) \<and>
     linked poolRef (map_of (listeners s)) (dom (map_of (pools s))) \<and>
     linked groupRef (map_of (listeners s)) (dom (map_of (ipGroups s))) \<and>
     members_ok (map_of (pools s)) (map_of (members s)) \<and> monitors_ok (map_of (pools s)) (map_of (monitors s))"

subsection \<open>What belongs to a listener\<close>

record Slice =
  sl_listener :: ListenerObj
  sl_pool :: "PoolObj option"
  sl_members :: "MemberObj set"
  sl_monitor :: "MonitorObj option"
  sl_group :: "IpGroupObj option"

definition sliceOf :: "fakeELB \<Rightarrow> string \<Rightarrow> Slice option" where
  "sliceOf s i = map_option (\<lambda>fl. let l = fl_obj fl; p = map_of (pools s) (ls_DefaultPoolID l) in
     \<lparr>sl_listener = l, sl_pool = p,
      sl_members = fake_store s (ls_DefaultPoolID l),
      sl_monitor = Option.bind p (\<lambda>q. map_option fm_obj (map_of (monitors s) (pl_MonitorID q))),
      sl_group = map_of (ipGroups s) (ls_IpGroupID l)\<rparr>) (map_of (listeners s) i)"

text \<open>The order of the listeners, their balancers, names and keys.\<close>

definition roster :: "fakeELB \<Rightarrow> (string \<times> string \<times> string \<times> string) list" where
  "roster s = map (\<lambda>(i, l). (i, fl_loadbalancer_id l, ls_Name (fl_obj l), listenerKey (fl_obj l))) (listeners s)"

definition only_touches :: "string \<Rightarrow> fakeELB \<Rightarrow> fakeELB \<Rightarrow> bool" where
  "only_touches i s s' \<longleftrightarrow> consistent s' \<and> loadBalancers s' = loadBalancers s \<and> roster s' = roster s \<and>
     (\<forall>j. j \<noteq> i \<longrightarrow> sliceOf s' j = sliceOf s j)"

lemma only_touches_refl: "consistent s \<Longrightarrow> only_touches i s s"
  by (simp add: only_touches_def)

lemma only_touches_trans [trans]: "only_touches i s s' \<Longrightarrow> only_touches i s' s'' \<Longrightarrow> only_touches i s s''"
  by (simp add: only_touches_def)

subsection \<open>Lists of keyed objects\<close>

lemma genID_nonempty [simp]: "genID pre n \<noteq> ''''" "'''' \<noteq> genID pre n"
  by (simp_all add: genID_def)

lemma map_of_snoc: "i \<notin> dom (map_of xs) \<Longrightarrow> map_of (xs @ [(i, x)]) = (map_of xs)(i \<mapsto> x)"
  by (auto simp: fun_eq_iff map_add_def split: option.splits)

lemma map_update_same:
  "map_of xs i = Some x \<Longrightarrow> g (i, y) = g (i, x) \<Longrightarrow> map g (AList.update i y xs) = map g xs"
  by (induction xs) auto

lemma keys_update_same: "i \<in> dom (map_of xs) \<Longrightarrow> map fst (AList.update i y xs) = map fst xs"
  by (induction xs) auto

lemma map_delete: "(\<And>x. fst (g x) = fst x) \<Longrightarrow> map g (AList.delete i xs) = filter (\<lambda>e. fst e \<noteq> i) (map g xs)"
  by (induction xs) (auto simp: AList.delete_eq)

lemma unused_mono: "unused pre n I \<Longrightarrow> n \<le> m \<Longrightarrow> J \<subseteq> I \<Longrightarrow> unused pre m J"
  by (auto simp: unused_def)

lemma unused_insert: "unused pre n I \<Longrightarrow> 0 \<le> n \<Longrightarrow> unused pre (n + 1) (insert (genID pre (n + 1)) I)"
  unfolding unused_def
proof (intro allI impI)
  fix m assume "\<forall>m>n. genID pre m \<notin> I" "0 \<le> n" "n + 1 < m"
  then show "genID pre m \<notin> insert (genID pre (n + 1)) I"
    using genID_inject [of m "n + 1" pre] by auto
qed

lemma unused_next: "unused pre n I \<Longrightarrow> genID pre (n + 1) \<notin> I"
  by (simp add: unused_def)

lemma fake_ids_mono: "fake_ids s \<Longrightarrow> members s' = members s \<Longrightarrow> nextID s \<le> nextID s' \<Longrightarrow> fake_ids s'"
proof -
  assume s: "fake_ids s" "members s' = members s" "nextID s \<le> nextID s'"
  have "mb_ID m = key \<and> (\<exists>n. 0 \<le> n \<and> n \<le> nextID s' \<and> key = genID ''member'' n)"
    if mem: "map_of (members s') j = Some ms" "(key, m) \<in> set ms" for j ms key m
  proof -
    have "mb_ID m = key \<and> (\<exists>n. 0 \<le> n \<and> n \<le> nextID s \<and> key = genID ''member'' n)"
      using fake_ids_member [OF s(1), of j ms key m] mem s(2) by simp
    then obtain n where "mb_ID m = key" "0 \<le> n" "n \<le> nextID s" "key = genID ''member'' n" by (elim exE conjE)
    then show ?thesis using s(3) by (intro conjI exI [of _ n]) simp_all
  qed
  moreover have "0 \<le> nextID s'" using s by (simp add: fake_ids_def)
  ultimately show ?thesis by (auto simp: fake_ids_def)
qed

lemma keyed_update: "keyed f m \<Longrightarrow> f x = i \<Longrightarrow> keyed f (m(i \<mapsto> x))"
  by (simp add: keyed_def)

lemma linked_update:
  assumes "linked f m D" and "m i = Some x"
    and "f y = f x \<or> f y = '''' \<or> (f y \<in> D \<and> (\<forall>j z. m j = Some z \<longrightarrow> f z \<noteq> f y))"
  shows "linked f (m(i \<mapsto> y)) D"
  using assms(3)
proof (elim disjE)
  assume "f y = f x"
  then show ?thesis using assms(1,2) unfolding linked_def by (metis fun_upd_apply option.inject)
next
  assume "f y = ''''"
  then show ?thesis using assms(1) unfolding linked_def by (metis fun_upd_apply option.inject)
next
  assume "f y \<in> D \<and> (\<forall>j z. m j = Some z \<longrightarrow> f z \<noteq> f y)"
  then show ?thesis using assms(1) unfolding linked_def by (metis fun_upd_apply option.inject)
qed

lemma linked_new: "linked f m D \<Longrightarrow> f x = '''' \<Longrightarrow> linked f (m(i \<mapsto> x)) D"
  unfolding linked_def by (metis fun_upd_apply option.inject)

lemma linked_mono: "linked f m D \<Longrightarrow> D \<subseteq> D' \<Longrightarrow> linked f m D'"
  unfolding linked_def by blast

lemma linkedD:
  assumes "linked f m D" and "m i = Some x" and "f x \<noteq> ''''"
  shows "f x \<in> D" and "m j = Some y \<Longrightarrow> f y = f x \<Longrightarrow> j = i"
  using assms unfolding linked_def by blast+

lemma consistentD:
  assumes "consistent s"
  shows "fake_ids s" and "ids_unused s" and "distinct (map fst (loadBalancers s))" and "distinct (map fst (listeners s))"
    and "keyed lb_ID (map_of (loadBalancers s))" and "keyed (\<lambda>l. ls_ID (fl_obj l)) (map_of (listeners s))"
    and "keyed pl_ID (map_of (pools s))" and "keyed ig_ID (map_of (ipGroups s))"
    and "map_of (loadBalancers s) i = Some b \<Longrightarrow> i \<noteq> '''' \<and> lb_ProvisioningStatus b = statusActive"
    and "linked poolRef (map_of (listeners s)) (dom (map_of (pools s)))"
    and "linked groupRef (map_of (listeners s)) (dom (map_of (ipGroups s)))"
    and "members_ok (map_of (pools s)) (map_of (members s))" and "monitors_ok (map_of (pools s)) (map_of (monitors s))"
  using assms by (auto simp: consistent_def)

subsection \<open>Listeners\<close>

lemma update_listener_touches:
  assumes ok: "consistent s" and l: "map_of (listeners s) i = Some l"
    and keep: "ls_ID (fl_obj l') = i" "ls_Name (fl_obj l') = ls_Name (fl_obj l)"
      "listenerKey (fl_obj l') = listenerKey (fl_obj l)" "fl_loadbalancer_id l' = fl_loadbalancer_id l"
    and pool: "poolRef l' = poolRef l \<or> (poolRef l' \<in> dom (map_of (pools s)) \<and>
      (\<forall>j k. map_of (listeners s) j = Some k \<longrightarrow> poolRef k \<noteq> poolRef l'))"
    and grp: "groupRef l' = groupRef l \<or> (groupRef l' \<in> dom (map_of (ipGroups s)) \<and>
      (\<forall>j k. map_of (listeners s) j = Some k \<longrightarrow> groupRef k \<noteq> groupRef l'))"
  shows "only_touches i s (s\<lparr>listeners := AList.update i l' (listeners s)\<rparr>)"
proof -
  let ?s = "s\<lparr>listeners := AList.update i l' (listeners s)\<rparr>"
  have keys: "map fst (listeners ?s) = map fst (listeners s)"
    using l by (simp add: keys_update_same domI)
  have map: "map_of (listeners ?s) = (map_of (listeners s))(i \<mapsto> l')" by (simp add: update_conv')
  then have dom: "dom (map_of (listeners ?s)) = dom (map_of (listeners s))"
    using l by auto
  have links: "linked poolRef (map_of (listeners ?s)) (dom (map_of (pools s)))"
    "linked groupRef (map_of (listeners ?s)) (dom (map_of (ipGroups s)))"
    unfolding map using consistentD(10,11) [OF ok] l pool grp by (auto intro!: linked_update)
  have key: "keyed (\<lambda>l. ls_ID (fl_obj l)) (map_of (listeners ?s))"
    unfolding map using consistentD(6) [OF ok] keep(1) by (rule keyed_update)
  have "fake_ids ?s" using consistentD(1) [OF ok] by (rule fake_ids_mono) simp_all
  moreover have "ids_unused ?s" using consistentD(2) [OF ok] dom by (simp add: ids_unused_def)
  ultimately have "consistent ?s"
    using ok keys links key by (simp add: consistent_def)
  moreover have "roster ?s = roster s"
    unfolding roster_def by (simp, rule map_update_same [OF l]) (simp add: keep)
  ultimately show ?thesis
    by (simp add: only_touches_def sliceOf_def fake_store_def update_conv')
qed

lemma slice_cong:
  assumes "map_of (listeners s') j = map_of (listeners s) j"
    and "\<And>l. map_of (listeners s) j = Some l \<Longrightarrow>
      map_of (pools s') (poolRef l) = map_of (pools s) (poolRef l) \<and>
      map_of (members s') (poolRef l) = map_of (members s) (poolRef l) \<and>
      map_of (ipGroups s') (groupRef l) = map_of (ipGroups s) (groupRef l) \<and>
      (\<forall>p. map_of (pools s) (poolRef l) = Some p \<longrightarrow>
         map_of (monitors s') (pl_MonitorID p) = map_of (monitors s) (pl_MonitorID p))"
  shows "sliceOf s' j = sliceOf s j"
proof (cases "map_of (listeners s) j")
  case (Some l)
  show ?thesis
    using assms(2) [OF Some] assms(1) Some by (cases "map_of (pools s) (poolRef l)") (simp_all add: sliceOf_def Let_def fake_store_def)
qed (simp add: sliceOf_def assms(1))

lemma ids_unusedD:
  assumes "ids_unused s"
  shows "0 \<le> nextID s" and "genID ''lb'' (nextID s + 1) \<notin> dom (map_of (loadBalancers s))"
    and "genID ''listener'' (nextID s + 1) \<notin> dom (map_of (listeners s))"
    and "genID ''pool'' (nextID s + 1) \<notin> dom (map_of (pools s))"
    and "genID ''pool'' (nextID s + 1) \<notin> dom (map_of (members s))"
    and "genID ''monitor'' (nextID s + 1) \<notin> dom (map_of (monitors s))"
    and "genID ''ipgroup'' (nextID s + 1) \<notin> dom (map_of (ipGroups s))"
  using assms by (auto simp: ids_unused_def unused_def)

lemma new_listener:
  assumes ok: "consistent s" and i: "i = genID ''listener'' (nextID s + 1)"
    and l: "ls_ID (fl_obj l) = i" "poolRef l = ''''" "groupRef l = ''''"
    and s': "s' = s\<lparr>nextID := nextID s + 1, listeners := listeners s @ [(i, l)]\<rparr>"
  shows "consistent s' \<and> roster s' = roster s @ [(i, fl_loadbalancer_id l, ls_Name (fl_obj l), listenerKey (fl_obj l))] \<and>
    (\<forall>j. j \<noteq> i \<longrightarrow> sliceOf s' j = sliceOf s j) \<and> map_option sl_listener (sliceOf s' i) = Some (fl_obj l) \<and>
    loadBalancers s' = loadBalancers s \<and> i \<notin> fst ` set (roster s)"
proof -
  note unused = consistentD(2) [OF ok]
  have new: "i \<notin> dom (map_of (listeners s))" unfolding i by (rule ids_unusedD [OF unused])
  then have map: "map_of (listeners s') = (map_of (listeners s))(i \<mapsto> l)"
    unfolding s' by (simp add: map_of_snoc del: map_of_append)
  have same: "pools s' = pools s" "members s' = members s" "ipGroups s' = ipGroups s" "monitors s' = monitors s"
    "loadBalancers s' = loadBalancers s" "nextID s' = nextID s + 1"
    by (simp_all add: s')
  have "fake_ids s'" using consistentD(1) [OF ok] by (rule fake_ids_mono) (simp_all add: same)
  moreover have "ids_unused s'"
    using unused unused_insert [of "''listener''" "nextID s" "dom (map_of (listeners s))"]
    unfolding ids_unused_def map same by (auto simp: i elim: unused_mono)
  moreover have "distinct (map fst (listeners s'))"
    using consistentD(4) [OF ok] new by (simp add: s' dom_map_of_conv_image_fst)
  moreover have "keyed (\<lambda>l. ls_ID (fl_obj l)) (map_of (listeners s'))"
    unfolding map using consistentD(6) [OF ok] l(1) by (rule keyed_update)
  moreover have "linked poolRef (map_of (listeners s')) (dom (map_of (pools s)))"
    "linked groupRef (map_of (listeners s')) (dom (map_of (ipGroups s)))"
    unfolding map by (rule linked_new [OF consistentD(10) [OF ok] l(2)], rule linked_new [OF consistentD(11) [OF ok] l(3)])
  ultimately have "consistent s'"
    using ok unfolding consistent_def same by simp
  moreover have "sliceOf s' j = sliceOf s j" if "j \<noteq> i" for j
    by (rule slice_cong) (use that in \<open>simp_all add: map same\<close>)
  moreover have "i \<notin> fst ` set (roster s)"
    using new by (auto simp: roster_def image_iff dom_map_of_conv_image_fst)
  ultimately show ?thesis
    by (simp add: roster_def sliceOf_def fake_store_def map same Let_def) (simp add: s')
qed

subsection \<open>IP groups\<close>

lemma linked_fresh:
  assumes "linked f m D" and "m i = Some x" and "j \<notin> D" and "j \<noteq> ''''"
  shows "f x \<noteq> j"
  using assms unfolding linked_def by blast

lemma new_group:
  assumes ok: "consistent s" and g: "g = genID ''ipgroup'' (nextID s + 1)" and grp: "ig_ID grp = g"
    and s': "s' = s\<lparr>nextID := nextID s + 1, ipGroups := ipGroups s @ [(g, grp)]\<rparr>"
  shows "only_touches i s s' \<and> sliceOf s' i = sliceOf s i \<and> map_of (ipGroups s') g = Some grp \<and>
    (\<forall>j l. map_of (listeners s') j = Some l \<longrightarrow> groupRef l \<noteq> g) \<and> listeners s' = listeners s"
proof -
  note unused = consistentD(2) [OF ok] and link = consistentD(11) [OF ok]
  have new: "g \<notin> dom (map_of (ipGroups s))" unfolding g by (rule ids_unusedD [OF unused])
  then have map: "map_of (ipGroups s') = (map_of (ipGroups s))(g \<mapsto> grp)"
    unfolding s' by (simp add: map_of_snoc del: map_of_append)
  have same: "pools s' = pools s" "members s' = members s" "listeners s' = listeners s" "monitors s' = monitors s"
    "loadBalancers s' = loadBalancers s" "nextID s' = nextID s + 1"
    by (simp_all add: s')
  have other: "groupRef l \<noteq> g" if "map_of (listeners s) j = Some l" for j l
    using linked_fresh [OF link that new] by (simp add: g)
  have "fake_ids s'" using consistentD(1) [OF ok] by (rule fake_ids_mono) (simp_all add: same)
  moreover have "ids_unused s'"
    using unused unused_insert [of "''ipgroup''" "nextID s" "dom (map_of (ipGroups s))"]
    unfolding ids_unused_def map same by (auto simp: g elim: unused_mono)
  moreover have "keyed ig_ID (map_of (ipGroups s'))"
    unfolding map using consistentD(8) [OF ok] grp by (rule keyed_update)
  moreover have "linked groupRef (map_of (listeners s)) (dom (map_of (ipGroups s')))"
    using link by (rule linked_mono) (auto simp: map)
  ultimately have "consistent s'"
    using ok unfolding consistent_def same by simp
  moreover have "sliceOf s' j = sliceOf s j" for j
    by (rule slice_cong) (use other in \<open>simp_all add: map same\<close>)
  ultimately show ?thesis
    using other by (simp add: only_touches_def roster_def map same)
qed

lemma update_group:
  assumes ok: "consistent s" and l: "map_of (listeners s) i = Some l" and g: "groupRef l = g" "g \<noteq> ''''"
    and grp: "ig_ID grp = g" and s': "s' = s\<lparr>ipGroups := AList.update g grp (ipGroups s)\<rparr>"
  shows "only_touches i s s' \<and> sliceOf s' i = map_option (\<lambda>sl. sl\<lparr>sl_group := Some grp\<rparr>) (sliceOf s i) \<and>
    listeners s' = listeners s"
proof -
  note link = consistentD(11) [OF ok]
  have map: "map_of (ipGroups s') = (map_of (ipGroups s))(g \<mapsto> grp)" by (simp add: s' update_conv')
  have "g \<in> dom (map_of (ipGroups s))" using linkedD(1) [OF link l] g by simp
  then have dom: "dom (map_of (ipGroups s')) = dom (map_of (ipGroups s))" by (auto simp: map)
  have same: "pools s' = pools s" "members s' = members s" "listeners s' = listeners s" "monitors s' = monitors s"
    "loadBalancers s' = loadBalancers s" "nextID s' = nextID s"
    by (simp_all add: s')
  have other: "groupRef k \<noteq> g" if "map_of (listeners s) j = Some k" "j \<noteq> i" for j k
    using linkedD(2) [OF link l, of j k] that g by auto
  have "fake_ids s'" using consistentD(1) [OF ok] by (rule fake_ids_mono) (simp_all add: same)
  moreover have "ids_unused s'" using consistentD(2) [OF ok] unfolding ids_unused_def same dom .
  moreover have "keyed ig_ID (map_of (ipGroups s'))"
    unfolding map using consistentD(8) [OF ok] grp by (rule keyed_update)
  ultimately have "consistent s'"
    using ok unfolding consistent_def same dom by simp
  moreover have "sliceOf s' j = sliceOf s j" if "j \<noteq> i" for j
    by (rule slice_cong) (use other that in \<open>simp_all add: map same\<close>)
  ultimately show ?thesis
    using l g by (simp add: only_touches_def roster_def sliceOf_def fake_store_def map same Let_def)
qed

subsection \<open>Pools\<close>

lemma new_pool:
  assumes ok: "consistent s" and j: "j = genID ''pool'' (nextID s + 1)" and p: "pl_ID p = j" "pl_MonitorID p = ''''"
    and s': "s' = s\<lparr>nextID := nextID s + 1, pools := pools s @ [(j, p)], members := members s @ [(j, [])]\<rparr>"
  shows "only_touches i s s' \<and> sliceOf s' i = sliceOf s i \<and> map_of (pools s') j = Some p \<and> map_of (members s') j = Some [] \<and>
    (\<forall>j' l. map_of (listeners s') j' = Some l \<longrightarrow> poolRef l \<noteq> j) \<and> listeners s' = listeners s"
proof -
  note unused = consistentD(2) [OF ok] and link = consistentD(10) [OF ok]
  have new: "j \<notin> dom (map_of (pools s))" "j \<notin> dom (map_of (members s))"
    unfolding j by (rule ids_unusedD [OF unused])+
  have map: "map_of (pools s') = (map_of (pools s))(j \<mapsto> p)" "map_of (members s') = (map_of (members s))(j \<mapsto> [])"
    unfolding s' using new by (simp_all add: map_of_snoc del: map_of_append)
  have same: "ipGroups s' = ipGroups s" "listeners s' = listeners s" "monitors s' = monitors s"
    "loadBalancers s' = loadBalancers s" "nextID s' = nextID s + 1"
    by (simp_all add: s')
  have other: "poolRef l \<noteq> j" if "map_of (listeners s) j' = Some l" for j' l
    using linked_fresh [OF link that new(1)] by (simp add: j)
  have "fake_ids s'"
  proof -
    have n: "0 \<le> nextID s" by (rule ids_unusedD [OF unused])
    have "mb_ID m = key \<and> (\<exists>n. 0 \<le> n \<and> n \<le> nextID s' \<and> key = genID ''member'' n)"
      if q: "map_of (members s') q = Some ms" and mem: "(key, m) \<in> set ms" for q ms key m
    proof -
      have "map_of (members s) q = Some ms" using q mem by (auto simp: map split: if_splits)
      from fake_ids_member [OF consistentD(1) [OF ok] this mem] obtain n
        where "mb_ID m = key" "0 \<le> n" "n \<le> nextID s" "key = genID ''member'' n" by (elim exE conjE)
      then show ?thesis by (intro conjI exI [of _ n]) (simp_all add: same)
    qed
    then show ?thesis using n by (auto simp: fake_ids_def same)
  qed
  moreover have "ids_unused s'"
    using unused unused_insert [of "''pool''" "nextID s" "dom (map_of (pools s)) \<union> dom (map_of (members s))"]
    unfolding ids_unused_def map same by (auto simp: j elim: unused_mono)
  moreover have "keyed pl_ID (map_of (pools s'))"
    unfolding map using consistentD(7) [OF ok] p(1) by (rule keyed_update)
  moreover have "linked poolRef (map_of (listeners s)) (dom (map_of (pools s')))"
    using link by (rule linked_mono) (auto simp: map)
  moreover have "members_ok (map_of (pools s')) (map_of (members s'))"
    using consistentD(12) [OF ok] by (auto simp: members_ok_def map)
  moreover have "monitors_ok (map_of (pools s')) (map_of (monitors s))"
    using consistentD(13) [OF ok] p(2) by (auto simp: monitors_ok_def map)
  ultimately have "consistent s'"
    using ok unfolding consistent_def same by simp
  moreover have "sliceOf s' j' = sliceOf s j'" for j'
    by (rule slice_cong) (use other in \<open>simp_all add: map same\<close>)
  ultimately show ?thesis
    using other by (simp add: only_touches_def roster_def map same)
qed

lemma update_pool:
  assumes ok: "consistent s" and l: "map_of (listeners s) i = Some l" and j: "poolRef l = j" "j \<noteq> ''''"
    and p: "pl_ID p = j"
    and mon: "pl_MonitorID p \<noteq> '''' \<longrightarrow>
      (\<exists>m. map_of (monitors s) (pl_MonitorID p) = Some m \<and> fm_pool_id m = j \<and> monitor_ok (fm_obj m))"
    and s': "s' = s\<lparr>pools := AList.update j p (pools s)\<rparr>"
  shows "only_touches i s s' \<and> sliceOf s' i = map_option (\<lambda>sl. sl\<lparr>sl_pool := Some p,
      sl_monitor := map_option fm_obj (map_of (monitors s) (pl_MonitorID p))\<rparr>) (sliceOf s i) \<and> listeners s' = listeners s"
proof -
  note link = consistentD(10) [OF ok]
  have map: "map_of (pools s') = (map_of (pools s))(j \<mapsto> p)" by (simp add: s' update_conv')
  have "j \<in> dom (map_of (pools s))" using linkedD(1) [OF link l] j by simp
  then have dom: "dom (map_of (pools s')) = dom (map_of (pools s))" by (auto simp: map)
  have same: "ipGroups s' = ipGroups s" "members s' = members s" "listeners s' = listeners s" "monitors s' = monitors s"
    "loadBalancers s' = loadBalancers s" "nextID s' = nextID s"
    by (simp_all add: s')
  have other: "poolRef k \<noteq> j" if "map_of (listeners s) i' = Some k" "i' \<noteq> i" for i' k
    using linkedD(2) [OF link l, of i' k] that j by auto
  have "fake_ids s'" using consistentD(1) [OF ok] by (rule fake_ids_mono) (simp_all add: same)
  moreover have "ids_unused s'" using consistentD(2) [OF ok] unfolding ids_unused_def same dom .
  moreover have "keyed pl_ID (map_of (pools s'))"
    unfolding map using consistentD(7) [OF ok] p by (rule keyed_update)
  moreover have "members_ok (map_of (pools s')) (map_of (members s))"
    using consistentD(12) [OF ok] by (simp add: members_ok_def dom)
  moreover have "monitors_ok (map_of (pools s')) (map_of (monitors s))"
    using consistentD(13) [OF ok] mon by (simp add: monitors_ok_def map)
  ultimately have "consistent s'"
    using ok unfolding consistent_def same dom by simp
  moreover have "sliceOf s' i' = sliceOf s i'" if "i' \<noteq> i" for i'
    by (rule slice_cong) (use other that in \<open>simp_all add: map same\<close>)
  ultimately show ?thesis
    using l j by (simp add: only_touches_def roster_def sliceOf_def fake_store_def map same Let_def)
qed

subsection \<open>Monitors\<close>

text \<open>Adding a monitor that no pool refers to yet.\<close>

lemma new_monitor:
  assumes ok: "consistent s" and m: "m = genID ''monitor'' (nextID s + 1)"
    and s': "s' = s\<lparr>nextID := nextID s + 1, monitors := monitors s @ [(m, fm)]\<rparr>"
  shows "only_touches i s s' \<and> sliceOf s' i = sliceOf s i \<and> map_of (monitors s') m = Some fm \<and>
    listeners s' = listeners s \<and> pools s' = pools s"
proof -
  note unused = consistentD(2) [OF ok]
  have new: "m \<notin> dom (map_of (monitors s))" unfolding m by (rule ids_unusedD [OF unused])
  then have map: "map_of (monitors s') = (map_of (monitors s))(m \<mapsto> fm)"
    unfolding s' by (simp add: map_of_snoc del: map_of_append)
  have same: "pools s' = pools s" "members s' = members s" "listeners s' = listeners s" "ipGroups s' = ipGroups s"
    "loadBalancers s' = loadBalancers s" "nextID s' = nextID s + 1"
    by (simp_all add: s')
  have other: "pl_MonitorID p \<noteq> m" if "map_of (pools s) j = Some p" for j p
  proof
    assume *: "pl_MonitorID p = m"
    have "pl_MonitorID p \<noteq> '''' \<longrightarrow> pl_MonitorID p \<in> dom (map_of (monitors s))"
      using consistentD(13) [OF ok] that unfolding monitors_ok_def by blast
    then show False using new by (simp add: * m)
  qed
  have "fake_ids s'" using consistentD(1) [OF ok] by (rule fake_ids_mono) (simp_all add: same)
  moreover have "ids_unused s'"
    using unused unused_insert [of "''monitor''" "nextID s" "dom (map_of (monitors s))"]
    unfolding ids_unused_def map same by (auto simp: m elim: unused_mono)
  moreover have "monitors_ok (map_of (pools s)) (map_of (monitors s'))"
    using consistentD(13) [OF ok] other by (simp add: monitors_ok_def map)
  ultimately have "consistent s'"
    using ok unfolding consistent_def same by simp
  moreover have "sliceOf s' j = sliceOf s j" for j
    by (rule slice_cong) (use other in \<open>auto simp: map same\<close>)
  ultimately show ?thesis
    by (simp add: only_touches_def roster_def map same)
qed

lemma update_monitor:
  assumes ok: "consistent s" and l: "map_of (listeners s) i = Some l"
    and p: "map_of (pools s) (poolRef l) = Some p" "pl_MonitorID p = m" "m \<noteq> ''''"
    and fm: "fm_pool_id fm = poolRef l" "monitor_ok (fm_obj fm)" and pool: "poolRef l \<noteq> ''''"
    and s': "s' = s\<lparr>monitors := AList.update m fm (monitors s)\<rparr>"
  shows "only_touches i s s' \<and> sliceOf s' i = map_option (\<lambda>sl. sl\<lparr>sl_monitor := Some (fm_obj fm)\<rparr>) (sliceOf s i) \<and>
    listeners s' = listeners s \<and> pools s' = pools s"
proof -
  have map: "map_of (monitors s') = (map_of (monitors s))(m \<mapsto> fm)" by (simp add: s' update_conv')
  note mons = consistentD(13) [OF ok, unfolded monitors_ok_def]
  obtain fm0 where fm0: "map_of (monitors s) m = Some fm0" "fm_pool_id fm0 = poolRef l"
    using mons p by blast
  then have dom: "dom (map_of (monitors s')) = dom (map_of (monitors s))" by (auto simp: map)
  have same: "pools s' = pools s" "members s' = members s" "listeners s' = listeners s" "ipGroups s' = ipGroups s"
    "loadBalancers s' = loadBalancers s" "nextID s' = nextID s"
    by (simp_all add: s')
  have other: "pl_MonitorID q \<noteq> m" if "map_of (pools s) j = Some q" "j \<noteq> poolRef l" for j q
    using mons that fm0 p(3) by fastforce
  have "fake_ids s'" using consistentD(1) [OF ok] by (rule fake_ids_mono) (simp_all add: same)
  moreover have "ids_unused s'" using consistentD(2) [OF ok] unfolding ids_unused_def same dom .
  moreover have "monitors_ok (map_of (pools s)) (map_of (monitors s'))"
    unfolding monitors_ok_def map
  proof (intro allI impI)
    fix j q assume q: "map_of (pools s) j = Some q" "pl_MonitorID q \<noteq> ''''"
    show "\<exists>x. ((map_of (monitors s))(m \<mapsto> fm)) (pl_MonitorID q) = Some x \<and> fm_pool_id x = j \<and> monitor_ok (fm_obj x)"
    proof (cases "pl_MonitorID q = m")
      case True
      then have "j = poolRef l" using other q by blast
      then show ?thesis using True fm by simp
    next
      case False
      then show ?thesis using mons q by simp
    qed
  qed
  ultimately have "consistent s'"
    using ok unfolding consistent_def same dom by simp
  moreover have "sliceOf s' j = sliceOf s j" if "j \<noteq> i" for j
  proof (rule slice_cong)
    fix k assume k: "map_of (listeners s) j = Some k"
    have "poolRef k \<noteq> poolRef l" using linkedD(2) [OF consistentD(10) [OF ok] l pool k] that by blast
    then show "map_of (pools s') (poolRef k) = map_of (pools s) (poolRef k) \<and>
      map_of (members s') (poolRef k) = map_of (members s) (poolRef k) \<and>
      map_of (ipGroups s') (groupRef k) = map_of (ipGroups s) (groupRef k) \<and>
      (\<forall>q. map_of (pools s) (poolRef k) = Some q \<longrightarrow>
         map_of (monitors s') (pl_MonitorID q) = map_of (monitors s) (pl_MonitorID q))"
      using other by (auto simp: map same)
  qed (simp add: same)
  ultimately show ?thesis
    using l p by (simp add: only_touches_def roster_def sliceOf_def fake_store_def map same Let_def)
qed

text \<open>Dropping a monitor that no pool refers to any more.\<close>

lemma drop_monitor:
  assumes ok: "consistent s" and free: "\<And>j p. map_of (pools s) j = Some p \<Longrightarrow> pl_MonitorID p \<noteq> m"
    and s': "s' = s\<lparr>monitors := AList.delete m (monitors s)\<rparr>"
  shows "only_touches i s s' \<and> sliceOf s' i = sliceOf s i \<and> listeners s' = listeners s \<and> pools s' = pools s"
proof -
  have map: "map_of (monitors s') = (map_of (monitors s))(m := None)" by (simp add: s' delete_conv')
  have same: "pools s' = pools s" "members s' = members s" "listeners s' = listeners s" "ipGroups s' = ipGroups s"
    "loadBalancers s' = loadBalancers s" "nextID s' = nextID s"
    by (simp_all add: s')
  have "fake_ids s'" using consistentD(1) [OF ok] by (rule fake_ids_mono) (simp_all add: same)
  moreover have "ids_unused s'"
    using consistentD(2) [OF ok] unfolding ids_unused_def same map by (auto elim: unused_mono)
  moreover have "monitors_ok (map_of (pools s)) (map_of (monitors s'))"
    using consistentD(13) [OF ok] free by (simp add: monitors_ok_def map)
  ultimately have "consistent s'"
    using ok unfolding consistent_def same by simp
  moreover have "sliceOf s' j = sliceOf s j" for j
    by (rule slice_cong) (use free in \<open>auto simp: map same\<close>)
  ultimately show ?thesis
    by (simp add: only_touches_def roster_def map same)
qed

subsection \<open>Members\<close>

lemma change_members:
  assumes ok: "consistent s" and l: "map_of (listeners s) i = Some l" and pool: "poolRef l \<noteq> ''''"
    and s': "s' = s\<lparr>nextID := n, members := mbs\<rparr>" and n: "nextID s \<le> n" and ids: "fake_ids s'"
    and dom: "dom (map_of mbs) = dom (map_of (members s))"
    and rest: "\<And>j. j \<noteq> poolRef l \<Longrightarrow> fake_store s' j = fake_store s j"
    and inj: "inj_on endpoint (fake_store s' (poolRef l))" "inj_on mb_ID (fake_store s' (poolRef l))"
  shows "only_touches i s s' \<and> listeners s' = listeners s \<and> pools s' = pools s \<and>
    sliceOf s' i = map_option (\<lambda>sl. sl\<lparr>sl_members := fake_store s' (poolRef l)\<rparr>) (sliceOf s i)"
proof -
  have same: "pools s' = pools s" "listeners s' = listeners s" "ipGroups s' = ipGroups s" "monitors s' = monitors s"
    "loadBalancers s' = loadBalancers s" "nextID s' = n" "members s' = mbs"
    by (simp_all add: s')
  have "ids_unused s'"
    using consistentD(2) [OF ok] n unfolding ids_unused_def same dom by (auto elim: unused_mono)
  moreover have "members_ok (map_of (pools s)) (map_of mbs)"
    unfolding members_ok_def
  proof
    fix j assume j: "j \<in> dom (map_of (pools s))"
    obtain ms0 where ms0: "map_of (members s) j = Some ms0" "inj_on endpoint (snd ` set ms0)" "inj_on mb_ID (snd ` set ms0)"
      using bspec [OF consistentD(12) [OF ok, unfolded members_ok_def] j] by (elim exE conjE)
    obtain ms where ms: "map_of mbs j = Some ms" using dom ms0(1) by blast
    have "fake_store s' j = snd ` set ms" "fake_store s j = snd ` set ms0"
      using ms ms0 by (simp_all add: fake_store_def same)
    then show "\<exists>ms. map_of mbs j = Some ms \<and> inj_on endpoint (snd ` set ms) \<and> inj_on mb_ID (snd ` set ms)"
      using ms ms0(2,3) inj rest by (cases "j = poolRef l") (auto intro!: exI [of _ ms])
  qed
  ultimately have "consistent s'"
    using ok ids unfolding consistent_def same by simp
  moreover have "sliceOf s' j = sliceOf s j" if "j \<noteq> i" for j
  proof (cases "map_of (listeners s) j")
    case (Some k)
    then have "poolRef k \<noteq> poolRef l"
      using linkedD(2) [OF consistentD(10) [OF ok] l pool] that by blast
    then show ?thesis using Some rest by (simp add: sliceOf_def same Let_def)
  qed (simp add: sliceOf_def same)
  ultimately show ?thesis
    using l by (simp add: only_touches_def roster_def sliceOf_def same Let_def)
qed

subsection \<open>Removing a listener\<close>

definition removes :: "string \<Rightarrow> fakeELB \<Rightarrow> fakeELB \<Rightarrow> bool" where
  "removes i s s' \<longleftrightarrow> consistent s' \<and> loadBalancers s' = loadBalancers s \<and>
     roster s' = filter (\<lambda>e. fst e \<noteq> i) (roster s) \<and> (\<forall>j. j \<noteq> i \<longrightarrow> sliceOf s' j = sliceOf s j)"

lemma touches_removes: "only_touches i s s' \<Longrightarrow> removes i s' s'' \<Longrightarrow> removes i s s''"
  by (simp add: only_touches_def removes_def)

lemma removes_touches: "removes i s s' \<Longrightarrow> only_touches i s' s'' \<Longrightarrow> removes i s s''"
  by (simp add: only_touches_def removes_def)

lemma linked_delete: "linked f m D \<Longrightarrow> linked f (m(i := None)) D"
  unfolding linked_def by (auto simp: fun_upd_def)

lemma linked_restrict:
  assumes "linked f m D" and "\<And>j x. m j = Some x \<Longrightarrow> f x \<noteq> k"
  shows "linked f m (D - {k})"
  using assms unfolding linked_def by blast

lemma remove_listener:
  assumes ok: "consistent s" and l: "map_of (listeners s) i = Some l" and j: "j = poolRef l" "j \<noteq> ''''"
    and s': "s' = s\<lparr>pools := AList.delete j (pools s), members := AList.delete j (members s),
      listeners := AList.delete i (listeners s)\<rparr>"
  shows "removes i s s' \<and> ipGroups s' = ipGroups s"
proof -
  have map: "map_of (listeners s') = (map_of (listeners s))(i := None)" "map_of (pools s') = (map_of (pools s))(j := None)"
    "map_of (members s') = (map_of (members s))(j := None)"
    by (simp_all add: s' delete_conv')
  have same: "ipGroups s' = ipGroups s" "monitors s' = monitors s" "loadBalancers s' = loadBalancers s" "nextID s' = nextID s"
    by (simp_all add: s')
  have other: "poolRef k \<noteq> j" if "map_of (listeners s) i' = Some k" "i' \<noteq> i" for i' k
    using linkedD(2) [OF consistentD(10) [OF ok] l, of i' k] that j by auto
  have "fake_ids s'"
    using consistentD(1) [OF ok] by (auto simp: fake_ids_def map same)
  moreover have "ids_unused s'"
    using consistentD(2) [OF ok] unfolding ids_unused_def same map by (auto elim: unused_mono)
  moreover have "distinct (map fst (listeners s'))"
    using consistentD(4) [OF ok] by (simp add: s' distinct_delete)
  moreover have "keyed (\<lambda>l. ls_ID (fl_obj l)) (map_of (listeners s'))" "keyed pl_ID (map_of (pools s'))"
    using consistentD(6,7) [OF ok] by (auto simp: keyed_def map)
  moreover have "linked poolRef (map_of (listeners s')) (dom (map_of (pools s')))"
  proof -
    have "linked poolRef (map_of (listeners s')) (dom (map_of (pools s)) - {j})"
      unfolding map by (rule linked_restrict [OF linked_delete [OF consistentD(10) [OF ok]]])
        (use other in \<open>auto split: if_splits\<close>)
    then show ?thesis by (simp add: map)
  qed
  moreover have "linked groupRef (map_of (listeners s')) (dom (map_of (ipGroups s)))"
    unfolding map by (rule linked_delete [OF consistentD(11) [OF ok]])
  moreover have "members_ok (map_of (pools s')) (map_of (members s'))" "monitors_ok (map_of (pools s')) (map_of (monitors s))"
    using consistentD(12,13) [OF ok] by (auto simp: members_ok_def monitors_ok_def map)
  ultimately have "consistent s'"
    using ok unfolding consistent_def same by simp
  moreover have "sliceOf s' i' = sliceOf s i'" if "i' \<noteq> i" for i'
    by (rule slice_cong) (use other that in \<open>auto simp: map same\<close>)
  moreover have "roster s' = filter (\<lambda>e. fst e \<noteq> i) (roster s)"
    by (simp add: s' roster_def map_delete case_prod_beta)
  ultimately show ?thesis by (simp add: removes_def same)
qed

lemma remove_bare_listener:
  assumes ok: "consistent s" and l: "map_of (listeners s) i = Some l"
    and s': "s' = s\<lparr>listeners := AList.delete i (listeners s)\<rparr>"
  shows "removes i s s' \<and> ipGroups s' = ipGroups s"
proof -
  have map: "map_of (listeners s') = (map_of (listeners s))(i := None)" by (simp add: s' delete_conv')
  have same: "ipGroups s' = ipGroups s" "monitors s' = monitors s" "loadBalancers s' = loadBalancers s" "nextID s' = nextID s"
    "pools s' = pools s" "members s' = members s"
    by (simp_all add: s')
  have "fake_ids s'" using consistentD(1) [OF ok] by (rule fake_ids_mono) (simp_all add: same)
  moreover have "ids_unused s'"
    using consistentD(2) [OF ok] unfolding ids_unused_def same map by (auto elim: unused_mono)
  moreover have "distinct (map fst (listeners s'))"
    using consistentD(4) [OF ok] by (simp add: s' distinct_delete)
  moreover have "keyed (\<lambda>l. ls_ID (fl_obj l)) (map_of (listeners s'))"
    using consistentD(6) [OF ok] by (auto simp: keyed_def map)
  moreover have "linked poolRef (map_of (listeners s')) (dom (map_of (pools s)))"
    "linked groupRef (map_of (listeners s')) (dom (map_of (ipGroups s)))"
    unfolding map by (rule linked_delete [OF consistentD(10) [OF ok]], rule linked_delete [OF consistentD(11) [OF ok]])
  ultimately have "consistent s'"
    using ok unfolding consistent_def same by simp
  moreover have "sliceOf s' i' = sliceOf s i'" if "i' \<noteq> i" for i'
    by (rule slice_cong) (use that in \<open>auto simp: map same\<close>)
  moreover have "roster s' = filter (\<lambda>e. fst e \<noteq> i) (roster s)"
    by (simp add: s' roster_def map_delete case_prod_beta)
  ultimately show ?thesis by (simp add: removes_def same)
qed

lemma drop_group:
  assumes ok: "consistent s" and free: "\<And>j l. map_of (listeners s) j = Some l \<Longrightarrow> groupRef l \<noteq> g"
    and s': "s' = s\<lparr>ipGroups := AList.delete g (ipGroups s)\<rparr>"
  shows "only_touches i s s' \<and> listeners s' = listeners s"
proof -
  have map: "map_of (ipGroups s') = (map_of (ipGroups s))(g := None)" by (simp add: s' delete_conv')
  have same: "pools s' = pools s" "members s' = members s" "listeners s' = listeners s" "monitors s' = monitors s"
    "loadBalancers s' = loadBalancers s" "nextID s' = nextID s"
    by (simp_all add: s')
  have "fake_ids s'" using consistentD(1) [OF ok] by (rule fake_ids_mono) (simp_all add: same)
  moreover have "ids_unused s'"
    using consistentD(2) [OF ok] unfolding ids_unused_def same map by (auto elim: unused_mono)
  moreover have "keyed ig_ID (map_of (ipGroups s'))"
    using consistentD(8) [OF ok] by (auto simp: keyed_def map)
  moreover have "linked groupRef (map_of (listeners s)) (dom (map_of (ipGroups s')))"
  proof -
    have "linked groupRef (map_of (listeners s)) (dom (map_of (ipGroups s)) - {g})"
      using consistentD(11) [OF ok] free by (rule linked_restrict)
    then show ?thesis by (simp add: map)
  qed
  ultimately have "consistent s'"
    using ok unfolding consistent_def same by simp
  moreover have "sliceOf s' j = sliceOf s j" for j
    by (rule slice_cong) (use free in \<open>auto simp: map same\<close>)
  ultimately show ?thesis
    by (simp add: only_touches_def roster_def map same)
qed

end
