(* ===== verification/Fake_Runs.thy ===== *)
theory Fake_Runs
  imports Fake_Consistency
begin

section \<open>Reconciliation succeeds on the fake ELB\<close>

text \<open>
  Total correctness of the reconciliation steps on a consistent \<open>fakeELB\<close>: each returns without an
  error and brings its part of the listener's slice to what the Service wants. \<open>succeeds w m Q\<close> is the
  weakest precondition of a normal return; its rules mirror the monad.
\<close>

subsection \<open>Normal returns\<close>

definition succeeds :: "'w \<Rightarrow> ('w, 'a) go \<Rightarrow> ('a \<Rightarrow> 'w \<Rightarrow> bool) \<Rightarrow> bool" where
  "succeeds w m Q \<longleftrightarrow> (\<exists>x w'. m w = (Ok x, w') \<and> Q x w')"

lemma succeedsI: "m w = (Ok x, w') \<Longrightarrow> Q x w' \<Longrightarrow> succeeds w m Q"
  by (auto simp: succeeds_def)

lemma succeedsE:
  assumes "succeeds w m Q"
  obtains x w' where "m w = (Ok x, w')" and "Q x w'"
  using assms by (auto simp: succeeds_def)

lemma succeeds_mono: "succeeds w m P \<Longrightarrow> (\<And>x w'. P x w' \<Longrightarrow> Q x w') \<Longrightarrow> succeeds w m Q"
  by (auto simp: succeeds_def)

lemma succeeds_return: "Q x w \<Longrightarrow> succeeds w (returnG x) Q"
  by (simp add: succeeds_def)

lemma succeeds_get: "Q (f w) w \<Longrightarrow> succeeds w (getG f) Q"
  by (simp add: succeeds_def)

lemma succeeds_modify: "Q () (f w) \<Longrightarrow> succeeds w (modifyG f) Q"
  by (simp add: succeeds_def)

lemma succeeds_lift: "r = Inr x \<Longrightarrow> Q x w \<Longrightarrow> succeeds w (liftG r) Q"
  by (simp add: succeeds_def)

lemma succeeds_deref: "p = Some x \<Longrightarrow> Q x w \<Longrightarrow> succeeds w (derefG p) Q"
  by (simp add: succeeds_def)

lemma succeeds_bind: "succeeds w m (\<lambda>x w1. succeeds w1 (f x) Q) \<Longrightarrow> succeeds w (bindG m f) Q"
  by (auto simp: succeeds_def bindG_def)

lemma succeeds_catch: "succeeds w m Q \<Longrightarrow> succeeds w (catchG m h) Q"
  by (auto simp: succeeds_def catchG_def)

lemma succeeds_wrap: "succeeds w m Q \<Longrightarrow> succeeds w (wrapG fmt args m) Q"
  unfolding wrapG_def by (rule succeeds_catch)

lemma succeeds_ignore: "succeeds w m Q \<Longrightarrow> succeeds w (ignoreNotFound fmt args m) Q"
  unfolding ignoreNotFound_def by (rule succeeds_catch)

lemma succeeds_found:
  "succeeds w m (\<lambda>x. Q (Some x)) \<Longrightarrow> succeeds w (getOrNone fmt args m) Q"
  unfolding getOrNone_def by (rule succeeds_catch, rule succeeds_bind) (auto simp: succeeds_def)

text \<open>A loop keeps an invariant of what it has done.\<close>

lemma succeeds_each:
  assumes "I [] w" and "\<And>xs x ys w. zs = xs @ x # ys \<Longrightarrow> I xs w \<Longrightarrow> succeeds w (f x) (\<lambda>_. I (xs @ [x]))"
    and "\<And>w. I zs w \<Longrightarrow> Q () w"
  shows "succeeds w (eachG f zs) Q"
proof -
  have "succeeds w (eachG f ys) Q" if "zs = xs @ ys" "I xs w" for xs ys w
    using that
  proof (induction ys arbitrary: xs w)
    case Nil
    then show ?case using assms(3) by (simp add: succeeds_return)
  next
    case (Cons y ys)
    show ?case
      unfolding eachG.simps
      by (rule succeeds_bind, rule succeeds_mono [OF assms(2) [OF Cons.prems]]) (use Cons in auto)
  qed
  from this [of "[]" zs w] assms(1) show ?thesis by simp
qed

lemma succeeds_sdkCall:
  "f (cloud w) = (Inr x, c') \<Longrightarrow> Q x (w\<lparr>cloud := c', trace := trace w @ [ev (Inr x)]\<rparr>) \<Longrightarrow> succeeds w (sdkCall f ev) Q"
  by (simp add: succeeds_def sdkCall_def)

text \<open>\<open>steady w w'\<close>: nothing changed but the history.\<close>

definition steady :: "'c world \<Rightarrow> 'c world \<Rightarrow> bool" where
  "steady w w' \<longleftrightarrow> cloud w' = cloud w \<and> v_listener w' = v_listener w \<and> v_pool w' = v_pool w"

lemma steadyD: "steady w w' \<Longrightarrow> cloud w' = cloud w" "steady w w' \<Longrightarrow> v_listener w' = v_listener w"
  "steady w w' \<Longrightarrow> v_pool w' = v_pool w"
  by (simp_all add: steady_def)

subsection \<open>Waiting on the fake\<close>

definition active :: "string \<Rightarrow> fakeELB \<Rightarrow> bool" where
  "active i s \<longleftrightarrow> (\<exists>b. map_of (loadBalancers s) i = Some b \<and> lb_ProvisioningStatus b = statusActive)"

lemma succeeds_active:
  assumes "active i (cloud w)" and "\<And>w'. steady w w' \<Longrightarrow> Q () w'"
  shows "succeeds w (waitForActive fake_env ElbClient i) Q"
proof -
  obtain b where b: "map_of (loadBalancers (cloud w)) i = Some b" "lb_ProvisioningStatus b = statusActive"
    using assms(1) by (auto simp: active_def)
  let ?w = "w\<lparr>trace := trace w @ [LbGet i (Inr b)]\<rparr>"
  have "activeCond fake_env ElbClient i w = (Ok True, ?w)"
    using b by (simp add: activeCond_def lbGet_def sdkCall_def bindG_def fake_fields onElb_def getItem_def)
  then have "attempts (Suc n) e (activeCond fake_env ElbClient i) w = (Ok (), ?w)" for n e
    by (simp add: bindG_def)
  then have "waitForActive fake_env ElbClient i w = (Ok (), ?w)"
    by (simp add: waitForActive_def fake_fields patientPoll_def)
  then show ?thesis by (rule succeedsI) (rule assms(2), simp add: steady_def)
qed

lemma succeeds_retry:
  assumes "succeeds w fn Q"
  shows "succeeds w (retryOnConflict fake_env i fn) Q"
proof -
  obtain w' where w': "fn w = (Ok (), w')" "Q () w'" using assms by (auto simp: succeeds_def)
  then have "retryCond fn w = (Ok True, w')" by (simp add: retryCond_result)
  then have "attempts (Suc 5) e (retryCond fn) w = (Ok (), w')" for e
    unfolding attempts.simps by (simp add: bindG_def)
  then have "retryOnConflict fake_env i fn w = (Ok (), w')"
    by (simp add: retryOnConflict_def fake_fields patientBackoff_def conflictBackoff_def)
  then show ?thesis using w'(2) by (rule succeedsI)
qed

lemma succeeds_mutate:
  assumes "succeeds w fn (\<lambda>_ w1. active i (cloud w1) \<and> (\<forall>w2. steady w1 w2 \<longrightarrow> Q () w2))"
  shows "succeeds w (mutate fake_env ElbClient i fn) Q"
  unfolding mutate_def
  by (rule succeeds_bind, rule succeeds_retry, rule succeeds_mono [OF assms], rule succeeds_active) auto

lemma consistent_active: "consistent s \<Longrightarrow> i \<in> dom (map_of (loadBalancers s)) \<Longrightarrow> active i s"
  using consistentD(9) by (fastforce simp: active_def)

subsection \<open>What a settled slice is\<close>

definition whitelisted :: "string \<Rightarrow> Service \<Rightarrow> ServicePort \<Rightarrow> Slice \<Rightarrow> bool" where
  "whitelisted name service port sl \<longleftrightarrow>
     (let l = sl_listener sl; ranges = normalizeRanges (LoadBalancerSourceRanges service)
      in if ranges = [] then ls_IpGroupID l = '''' \<or>
           (\<forall>g. sl_group sl = Some g \<longrightarrow> ig_Name g \<noteq> resourceName name port \<or> ls_IpGroupEnable l \<noteq> Some True)
         else ls_IpGroupID l \<noteq> '''' \<and> ls_IpGroupEnable l = Some True \<and>
           (\<exists>g. sl_group sl = Some g \<and> ig_Name g = resourceName name port \<and> ipListEqual (ig_IpList g) ranges))"

definition probed :: "serviceSettings \<Rightarrow> Service \<Rightarrow> ServicePort \<Rightarrow> PoolObj \<Rightarrow> MonitorObj option \<Rightarrow> bool" where
  "probed settings service port p mo \<longleftrightarrow>
     (if HealthCheckEnabled settings then pl_MonitorID p \<noteq> '''' \<and>
        (\<exists>m. mo = Some m \<and> probes settings (desiredProbe settings service port) m)
      else pl_MonitorID p = '''')"

definition wantedEndpoints :: "Node list \<Rightarrow> ServicePort \<Rightarrow> (string \<times> int) set" where
  "wantedEndpoints nodes port = {(a, NodePort port) |a. \<exists>n \<in> set nodes. nodeAddress n = Inr a}"

definition slice_settled ::
  "string \<Rightarrow> serviceSettings \<Rightarrow> Service \<Rightarrow> Node list \<Rightarrow> ServicePort \<Rightarrow> Slice \<Rightarrow> bool" where
  "slice_settled name settings service nodes port sl \<longleftrightarrow> whitelisted name service port sl \<and>
     ls_DefaultPoolID (sl_listener sl) \<noteq> '''' \<and> endpoint ` sl_members sl = wantedEndpoints nodes port \<and>
     (\<exists>p. sl_pool sl = Some p \<and> pool_settled settings service p \<and> probed settings service port p (sl_monitor sl))"

text \<open>The two halves of a slice that the steps treat apart.\<close>

definition group_part :: "Slice \<Rightarrow> string \<times> bool option \<times> IpGroupObj option" where
  "group_part sl = (ls_IpGroupID (sl_listener sl), ls_IpGroupEnable (sl_listener sl), sl_group sl)"

definition pool_part :: "Slice \<Rightarrow> string \<times> PoolObj option \<times> MemberObj set \<times> MonitorObj option" where
  "pool_part sl = (ls_DefaultPoolID (sl_listener sl), sl_pool sl, sl_members sl, sl_monitor sl)"

lemma whitelisted_part: "group_part sl' = group_part sl \<Longrightarrow> whitelisted name service port sl' = whitelisted name service port sl"
  by (simp add: group_part_def whitelisted_def Let_def)

lemma sliceE:
  assumes "sliceOf s i = Some sl"
  obtains l where "map_of (listeners s) i = Some l" and "fl_obj l = sl_listener sl"
    and "sl_pool sl = map_of (pools s) (poolRef l)" and "sl_members sl = fake_store s (poolRef l)"
    and "sl_group sl = map_of (ipGroups s) (groupRef l)"
    and "sl_monitor sl = Option.bind (sl_pool sl) (\<lambda>q. map_option fm_obj (map_of (monitors s) (pl_MonitorID q)))"
  using assms by (auto simp: sliceOf_def Let_def)

lemma slice_id:
  assumes "consistent s" and "sliceOf s i = Some sl"
  shows "ls_ID (sl_listener sl) = i"
proof -
  obtain l where "map_of (listeners s) i = Some l" "fl_obj l = sl_listener sl" using assms(2) by (rule sliceE)
  then show ?thesis using consistentD(6) [OF assms(1)] unfolding keyed_def by metis
qed

subsection \<open>IP groups\<close>

lemma succeeds_setGroup:
  assumes ok: "consistent (cloud w)" and sl: "sliceOf (cloud w) i = Some sl" and lb: "lbID \<in> dom (map_of (loadBalancers (cloud w)))"
    and g: "g = ls_IpGroupID (sl_listener sl) \<or> (g \<in> dom (map_of (ipGroups (cloud w))) \<and>
      (\<forall>j k. map_of (listeners (cloud w)) j = Some k \<longrightarrow> groupRef k \<noteq> g))"
  shows "succeeds w (mutate fake_env ElbClient lbID
      (bindG (lsUpdate fake_env ElbClient i \<lparr>nu_KeepAliveTimeout = 0,
        nu_IpGroup = Some \<lparr>iu_IpGroupId = g, iu_Enable = e, iu_Type = t\<rparr>\<rparr>) (\<lambda>_. returnG ())))
    (\<lambda>_ w'. only_touches i (cloud w) (cloud w') \<and> (\<exists>sl'. sliceOf (cloud w') i = Some sl' \<and> pool_part sl' = pool_part sl \<and>
      group_part sl' = (g, Some e, map_of (ipGroups (cloud w)) g)))"
proof -
  obtain l where l: "map_of (listeners (cloud w)) i = Some l" "fl_obj l = sl_listener sl"
    using sl by (rule sliceE)
  let ?l = "l\<lparr>fl_obj := (fl_obj l)\<lparr>ls_IpGroupID := g, ls_IpGroupEnable := Some e\<rparr>\<rparr>"
  let ?s = "cloud w\<lparr>listeners := AList.update i ?l (listeners (cloud w))\<rparr>"
  have upd: "listeners_Update fake_env ElbClient i \<lparr>nu_KeepAliveTimeout = 0,
      nu_IpGroup = Some \<lparr>iu_IpGroupId = g, iu_Enable = e, iu_Type = t\<rparr>\<rparr> (cloud w) = (Inr (fl_obj ?l), ?s)"
    by (simp add: fake_fields onElb_def fake_lsUpdate_def l(1) Let_def)
  have id: "ls_ID (fl_obj l) = i" using consistentD(6) [OF ok] l(1) by (simp add: keyed_def)
  have touch: "only_touches i (cloud w) ?s"
    by (rule update_listener_touches [OF ok l(1)]) (use g l(2) id in \<open>simp_all add: listenerKey_def\<close>)
  let ?sl = "sl\<lparr>sl_listener := fl_obj ?l, sl_group := map_of (ipGroups (cloud w)) g\<rparr>"
  have sl': "sliceOf ?s i = Some ?sl" "pool_part ?sl = pool_part sl" "group_part ?sl = (g, Some e, map_of (ipGroups (cloud w)) g)"
    using sl l(1) by (auto simp: sliceOf_def Let_def update_conv' fake_store_def pool_part_def group_part_def)
  have act: "active lbID ?s"
    using touch lb by (intro consistent_active) (auto simp: only_touches_def)
  show ?thesis
    by (rule succeeds_mutate, rule succeeds_bind, unfold lsUpdate_def, rule succeeds_sdkCall, rule upd, rule succeeds_return)
      (use touch sl' act in \<open>auto simp: steady_def\<close>)
qed

definition no_foreign_group :: "string \<Rightarrow> Service \<Rightarrow> ServicePort \<Rightarrow> Slice \<Rightarrow> bool" where
  "no_foreign_group name service port sl \<longleftrightarrow> normalizeRanges (LoadBalancerSourceRanges service) = [] \<or>
     ls_IpGroupID (sl_listener sl) = '''' \<or> (\<forall>g. sl_group sl = Some g \<longrightarrow> ig_Name g = resourceName name port)"

lemma ipListEqual_refl [simp]: "ipListEqual xs xs"
  by (simp add: ipListEqual_def list_all_iff)

lemma succeeds_getGroup:
  assumes "consistent (cloud w)" and "sliceOf (cloud w) i = Some sl" and "ls_IpGroupID (sl_listener sl) \<noteq> ''''"
    and Q: "\<And>g w'. sl_group sl = Some g \<Longrightarrow> ig_ID g = ls_IpGroupID (sl_listener sl) \<Longrightarrow> steady w w' \<Longrightarrow> Q (Some g) w'"
  shows "succeeds w (getOrNone fmt args (igGet fake_env ElbClient (ls_IpGroupID (sl_listener sl)))) Q"
proof -
  obtain l where l: "map_of (listeners (cloud w)) i = Some l" "fl_obj l = sl_listener sl"
    "sl_group sl = map_of (ipGroups (cloud w)) (groupRef l)"
    using assms(2) by (rule sliceE)
  have "groupRef l \<in> dom (map_of (ipGroups (cloud w)))"
    using linkedD(1) [OF consistentD(11) [OF assms(1)] l(1)] assms(3) l(2) by simp
  then obtain g where g: "map_of (ipGroups (cloud w)) (groupRef l) = Some g" by blast
  then have id: "ig_ID g = groupRef l" using consistentD(8) [OF assms(1)] by (simp add: keyed_def)
  have get: "ipgroups_Get fake_env ElbClient (ls_IpGroupID (sl_listener sl)) (cloud w) = (Inr g, cloud w)"
    using g l(2) by (simp add: fake_fields onElb_def fake_igGet_def getItem_def)
  show ?thesis
    by (rule succeeds_found, unfold igGet_def, rule succeeds_sdkCall, rule get, rule Q)
      (use g id l in \<open>simp_all add: steady_def\<close>)
qed

text \<open>The group attached to a listener, if any, is the port's own.\<close>

definition own_slice :: "string \<Rightarrow> ServicePort \<Rightarrow> Slice \<Rightarrow> bool" where
  "own_slice name port sl \<longleftrightarrow> (ls_IpGroupID (sl_listener sl) \<noteq> '''' \<longrightarrow>
     (\<forall>g. sl_group sl = Some g \<longrightarrow> ig_Name g = resourceName name port))"

lemma own_slice_part: "group_part sl' = group_part sl \<Longrightarrow> own_slice name port sl' = own_slice name port sl"
  by (simp add: group_part_def own_slice_def)

lemma own_slice_whitelisted:
  "whitelisted name service port sl \<Longrightarrow> normalizeRanges (LoadBalancerSourceRanges service) \<noteq> [] \<Longrightarrow> own_slice name port sl"
  by (auto simp: whitelisted_def own_slice_def)

definition group_ready :: "string \<Rightarrow> string \<Rightarrow> Service \<Rightarrow> ServicePort \<Rightarrow> Slice \<Rightarrow> fakeELB \<Rightarrow> fakeELB \<Rightarrow> bool" where
  "group_ready i name service port sl s s' \<longleftrightarrow> only_touches i s s' \<and>
     (\<exists>sl'. sliceOf s' i = Some sl' \<and> pool_part sl' = pool_part sl \<and> whitelisted name service port sl' \<and>
       (own_slice name port sl \<longrightarrow> own_slice name port sl'))"

lemma succeeds_createGroup:
  assumes ok: "consistent (cloud w)" and sl: "sliceOf (cloud w) i = Some sl" and lb: "lbID \<in> dom (map_of (loadBalancers (cloud w)))"
    and ranges: "normalizeRanges (LoadBalancerSourceRanges service) \<noteq> []"
  shows "succeeds w (bindG (wrapG fmt args (igCreate fake_env ElbClient \<lparr>gc_Name = resourceName name port,
        gc_Description = d, gc_IpList = ipList (normalizeRanges (LoadBalancerSourceRanges service))\<rparr>))
      (\<lambda>grp. attachIPGroup fake_env ElbClient lbID i (ig_ID grp)))
    (\<lambda>_ w'. group_ready i name service port sl (cloud w) (cloud w'))"
proof -
  let ?g = "genID ''ipgroup'' (nextID (cloud w) + 1)"
  let ?ranges = "normalizeRanges (LoadBalancerSourceRanges service)"
  let ?grp = "\<lparr>ig_ID = ?g, ig_Name = resourceName name port, ig_IpList = ipList ?ranges\<rparr>"
  let ?s = "cloud w\<lparr>nextID := nextID (cloud w) + 1, ipGroups := ipGroups (cloud w) @ [(?g, ?grp)]\<rparr>"
  have create: "ipgroups_Create fake_env ElbClient \<lparr>gc_Name = resourceName name port, gc_Description = d,
      gc_IpList = ipList ?ranges\<rparr> (cloud w) = (Inr ?grp, ?s)"
    by (simp add: fake_fields onElb_def fake_igCreate_def Let_def)
  have new: "only_touches i (cloud w) ?s" "sliceOf ?s i = sliceOf (cloud w) i" "map_of (ipGroups ?s) ?g = Some ?grp"
    "\<forall>j l. map_of (listeners ?s) j = Some l \<longrightarrow> groupRef l \<noteq> ?g"
    using new_group [OF ok refl, of ?grp ?s i] by simp_all
  let ?w = "w\<lparr>cloud := ?s, trace := trace w @ [IgCreate \<lparr>gc_Name = resourceName name port, gc_Description = d,
      gc_IpList = ipList ?ranges\<rparr> (Inr ?grp)]\<rparr>"
  have "succeeds ?w (attachIPGroup fake_env ElbClient lbID i ?g) (\<lambda>_ w'. group_ready i name service port sl (cloud w) (cloud w'))"
    unfolding attachIPGroup_def
  proof (rule succeeds_wrap, rule succeeds_mono, rule succeeds_setGroup [where sl = sl])
    show "consistent (cloud ?w)" "sliceOf (cloud ?w) i = Some sl" "lbID \<in> dom (map_of (loadBalancers (cloud ?w)))"
      using new sl lb by (simp_all add: only_touches_def)
    show "?g = ls_IpGroupID (sl_listener sl) \<or> (?g \<in> dom (map_of (ipGroups (cloud ?w))) \<and>
        (\<forall>j k. map_of (listeners (cloud ?w)) j = Some k \<longrightarrow> groupRef k \<noteq> ?g))"
      using new(3,4) by auto
    fix x w' assume "only_touches i (cloud ?w) (cloud w') \<and> (\<exists>sl'. sliceOf (cloud w') i = Some sl' \<and> pool_part sl' = pool_part sl \<and>
      group_part sl' = (?g, Some True, map_of (ipGroups (cloud ?w)) ?g))"
    then obtain sl' where w': "only_touches i ?s (cloud w')" "sliceOf (cloud w') i = Some sl'" "pool_part sl' = pool_part sl"
      "group_part sl' = (?g, Some True, Some ?grp)"
      using new(3) by auto
    have "whitelisted name service port sl'"
      using w'(4) ranges by (simp add: whitelisted_def group_part_def ipList_def Let_def)
    then show "group_ready i name service port sl (cloud w) (cloud w')"
      using w' only_touches_trans [OF new(1) w'(1)] own_slice_whitelisted ranges by (auto simp: group_ready_def)
  qed
  then show ?thesis
    by (intro succeeds_bind succeeds_wrap, unfold igCreate_def) (rule succeeds_sdkCall, rule create, simp)
qed

lemma group_readyI:
  "consistent s \<Longrightarrow> sliceOf s i = Some sl \<Longrightarrow> whitelisted name service port sl \<Longrightarrow> group_ready i name service port sl s s"
  by (auto simp: group_ready_def only_touches_refl)

lemma succeeds_disableGroup:
  assumes "consistent (cloud w)" and "sliceOf (cloud w) i = Some sl" and "lbID \<in> dom (map_of (loadBalancers (cloud w)))"
    and ranges: "normalizeRanges (LoadBalancerSourceRanges service) = []"
  shows "succeeds w (wrapG fmt args (mutate fake_env ElbClient lbID
      (bindG (lsUpdate fake_env ElbClient i \<lparr>nu_KeepAliveTimeout = 0,
        nu_IpGroup = Some \<lparr>iu_IpGroupId = ls_IpGroupID (sl_listener sl), iu_Enable = False, iu_Type = t\<rparr>\<rparr>)
        (\<lambda>_. returnG ()))))
    (\<lambda>_ w'. group_ready i name service port sl (cloud w) (cloud w'))"
proof (rule succeeds_wrap, rule succeeds_mono, rule succeeds_setGroup [OF assms(1,2,3) disjI1 [OF refl]])
  fix x w' assume "only_touches i (cloud w) (cloud w') \<and> (\<exists>sl'. sliceOf (cloud w') i = Some sl' \<and> pool_part sl' = pool_part sl \<and>
      group_part sl' = (ls_IpGroupID (sl_listener sl), Some False, map_of (ipGroups (cloud w)) (ls_IpGroupID (sl_listener sl))))"
  then obtain sl' where w': "only_touches i (cloud w) (cloud w')" "sliceOf (cloud w') i = Some sl'" "pool_part sl' = pool_part sl"
    "group_part sl' = (ls_IpGroupID (sl_listener sl), Some False, map_of (ipGroups (cloud w)) (ls_IpGroupID (sl_listener sl)))"
    by (elim conjE exE)
  have "sl_group sl = map_of (ipGroups (cloud w)) (ls_IpGroupID (sl_listener sl))"
    using assms(2) by (elim sliceE) simp
  then have "own_slice name port sl \<longrightarrow> own_slice name port sl'" using w'(4) by (simp add: own_slice_def group_part_def)
  then show "group_ready i name service port sl (cloud w) (cloud w')"
    using w' ranges by (auto simp: group_ready_def whitelisted_def group_part_def)
qed

text \<open>An attached group of the Service: brought to the wanted ranges, then enabled if it is not.\<close>

text \<open>The listener's own group first gets the wanted ranges, then is switched on.\<close>

definition group_filled :: "string \<Rightarrow> string \<Rightarrow> Service \<Rightarrow> ServicePort \<Rightarrow> Slice \<Rightarrow> string \<Rightarrow> fakeELB \<Rightarrow> IpGroupObj \<Rightarrow> fakeELB \<Rightarrow> bool" where
  "group_filled i name service port sl gid s g s' \<longleftrightarrow> only_touches i s s' \<and> ig_Name g = resourceName name port \<and>
     ipListEqual (ig_IpList g) (normalizeRanges (LoadBalancerSourceRanges service)) \<and>
     map_of (ipGroups s') gid = Some g \<and> sliceOf s' i = Some (sl\<lparr>sl_group := Some g\<rparr>)"

lemma succeeds_fillGroup:
  assumes ok: "consistent (cloud w)" and sl: "sliceOf (cloud w) i = Some sl"
    and g: "ls_IpGroupID (sl_listener sl) \<noteq> ''''" "sl_group sl = Some g" "ig_ID g = ls_IpGroupID (sl_listener sl)"
      "ig_Name g = resourceName name port"
  shows "succeeds w (if ipListEqual (ig_IpList g) (normalizeRanges (LoadBalancerSourceRanges service)) then returnG ()
      else wrapG fmt args (retryOnConflict fake_env lbID
        (igUpdate fake_env ElbClient (ig_ID g) (ipList (normalizeRanges (LoadBalancerSourceRanges service))))))
    (\<lambda>_ w'. \<exists>g'. group_filled i name service port sl (ig_ID g) (cloud w) g' (cloud w'))"
proof -
  let ?ranges = "normalizeRanges (LoadBalancerSourceRanges service)"
  obtain l where l: "map_of (listeners (cloud w)) i = Some l" "fl_obj l = sl_listener sl"
    "sl_group sl = map_of (ipGroups (cloud w)) (groupRef l)"
    using sl by (rule sliceE)
  show ?thesis
  proof (cases "ipListEqual (ig_IpList g) ?ranges")
    case True
    have "sl\<lparr>sl_group := Some g\<rparr> = sl" using g(2) by simp
    then have "group_filled i name service port sl (ig_ID g) (cloud w) g (cloud w)"
      using True ok sl g l by (simp add: group_filled_def only_touches_refl)
    then show ?thesis using True by (auto intro!: succeeds_return)
  next
    case False
    let ?g = "g\<lparr>ig_IpList := ipList ?ranges\<rparr>"
    let ?s = "cloud w\<lparr>ipGroups := AList.update (ig_ID g) ?g (ipGroups (cloud w))\<rparr>"
    have upd: "ipgroups_Update fake_env ElbClient (ig_ID g) (ipList ?ranges) (cloud w) = (Inr (), ?s)"
      using g l by (simp add: fake_fields onElb_def fake_igUpdate_def)
    have "only_touches i (cloud w) ?s \<and> sliceOf ?s i = map_option (\<lambda>sl. sl\<lparr>sl_group := Some ?g\<rparr>) (sliceOf (cloud w) i)"
      using update_group [OF ok l(1), of "ig_ID g" ?g ?s] g l(2) by simp
    then have filled: "group_filled i name service port sl (ig_ID g) (cloud w) ?g ?s"
      using sl g by (simp add: group_filled_def update_conv' ipList_def)
    show ?thesis
      unfolding if_not_P [OF False] igUpdate_def
      by (intro succeeds_wrap succeeds_retry) (rule succeeds_sdkCall, rule upd, use filled in auto)
  qed
qed

lemma succeeds_enableGroup:
  assumes filled: "group_filled i name service port sl (ig_ID g) s g' (cloud w)" and lb: "lbID \<in> dom (map_of (loadBalancers s))"
    and ranges: "normalizeRanges (LoadBalancerSourceRanges service) \<noteq> []"
    and g: "ls_IpGroupID (sl_listener sl) \<noteq> ''''" "ig_ID g = ls_IpGroupID (sl_listener sl)"
  shows "succeeds w (if ls_IpGroupEnable (sl_listener sl) \<noteq> Some True then attachIPGroup fake_env ElbClient lbID i (ig_ID g) else returnG ())
    (\<lambda>_ w'. group_ready i name service port sl s (cloud w'))"
proof -
  have w: "only_touches i s (cloud w)" "sliceOf (cloud w) i = Some (sl\<lparr>sl_group := Some g'\<rparr>)"
    and g': "ig_Name g' = resourceName name port" "ipListEqual (ig_IpList g') (normalizeRanges (LoadBalancerSourceRanges service))"
      "map_of (ipGroups (cloud w)) (ig_ID g) = Some g'"
    using filled by (simp_all add: group_filled_def)
  show ?thesis
  proof (cases "ls_IpGroupEnable (sl_listener sl) = Some True")
    case True
    then show ?thesis
      using w g' g ranges
      by (auto intro!: succeeds_return simp: group_ready_def whitelisted_def pool_part_def own_slice_def Let_def)
  next
    case False
    have "succeeds w (attachIPGroup fake_env ElbClient lbID i (ig_ID g)) (\<lambda>_ w'. group_ready i name service port sl s (cloud w'))"
      unfolding attachIPGroup_def
    proof (rule succeeds_wrap, rule succeeds_mono, rule succeeds_setGroup [where sl = "sl\<lparr>sl_group := Some g'\<rparr>"])
      show "consistent (cloud w)" "lbID \<in> dom (map_of (loadBalancers (cloud w)))"
        using w lb by (simp_all add: only_touches_def)
      show "ig_ID g = ls_IpGroupID (sl_listener (sl\<lparr>sl_group := Some g'\<rparr>)) \<or> (ig_ID g \<in> dom (map_of (ipGroups (cloud w))) \<and>
        (\<forall>j k. map_of (listeners (cloud w)) j = Some k \<longrightarrow> groupRef k \<noteq> ig_ID g))"
        using g by simp
      fix x w' assume "only_touches i (cloud w) (cloud w') \<and> (\<exists>sl'. sliceOf (cloud w') i = Some sl' \<and>
        pool_part sl' = pool_part (sl\<lparr>sl_group := Some g'\<rparr>) \<and>
        group_part sl' = (ig_ID g, Some True, map_of (ipGroups (cloud w)) (ig_ID g)))"
      then show "group_ready i name service port sl s (cloud w')"
        using only_touches_trans [OF w(1)] g g' ranges
        by (auto simp: group_ready_def whitelisted_def pool_part_def group_part_def own_slice_def)
    qed (rule w(2))
    then show ?thesis using False by simp
  qed
qed

lemma succeeds_keepGroup:
  assumes ok: "consistent (cloud w)" and sl: "sliceOf (cloud w) i = Some sl" and lb: "lbID \<in> dom (map_of (loadBalancers (cloud w)))"
    and ranges: "normalizeRanges (LoadBalancerSourceRanges service) \<noteq> []"
    and g: "ls_IpGroupID (sl_listener sl) \<noteq> ''''" "sl_group sl = Some g" "ig_ID g = ls_IpGroupID (sl_listener sl)"
      "ig_Name g = resourceName name port"
  shows "succeeds w
    (bindG (if ipListEqual (ig_IpList g) (normalizeRanges (LoadBalancerSourceRanges service)) then returnG ()
        else wrapG fmt args (retryOnConflict fake_env lbID
          (igUpdate fake_env ElbClient (ig_ID g) (ipList (normalizeRanges (LoadBalancerSourceRanges service)))))) (\<lambda>_.
      if ls_IpGroupEnable (sl_listener sl) \<noteq> Some True then attachIPGroup fake_env ElbClient lbID i (ig_ID g) else returnG ()))
    (\<lambda>_ w'. group_ready i name service port sl (cloud w) (cloud w'))"
  by (rule succeeds_bind, rule succeeds_mono [OF succeeds_fillGroup [OF ok sl g]], elim exE)
    (rule succeeds_enableGroup [OF _ lb ranges g(1,3)])

text \<open>A Service without ranges switches its group off, one with ranges gets a group.\<close>

lemma succeeds_openListener:
  assumes ok: "consistent (cloud w)" and sl: "sliceOf (cloud w) i = Some sl" and lb: "lbID \<in> dom (map_of (loadBalancers (cloud w)))"
    and ranges: "normalizeRanges (LoadBalancerSourceRanges service) = []"
  shows "succeeds w (reconcileIPGroup fake_env ElbClient lbID (sl_listener sl) name service port)
    (\<lambda>_ w'. group_ready i name service port sl (cloud w) (cloud w'))"
proof (cases "ls_IpGroupID (sl_listener sl) = ''''")
  case True
  then have "whitelisted name service port sl" using ranges by (simp add: whitelisted_def)
  then show ?thesis
    using True ranges ok sl by (simp add: reconcileIPGroup_def succeeds_return group_readyI)
next
  case False
  let ?l = "sl_listener sl"
  have id: "ls_ID ?l = i" using ok sl by (rule slice_id)
  show ?thesis
    unfolding reconcileIPGroup_def Let_def if_P [OF ranges] if_not_P [OF False]
  proof (rule succeeds_bind, rule succeeds_getGroup [OF ok sl False])
    fix g w1 assume g: "sl_group sl = Some g" "ig_ID g = ls_IpGroupID ?l" and "steady w w1"
    then have w1: "consistent (cloud w1)" "sliceOf (cloud w1) i = Some sl" "lbID \<in> dom (map_of (loadBalancers (cloud w1)))"
      "cloud w1 = cloud w"
      using ok sl lb by (simp_all add: steady_def)
    show "succeeds w1 (case Some g of None \<Rightarrow> returnG () | Some grp \<Rightarrow>
        if ig_Name grp \<noteq> resourceName name port \<or> ls_IpGroupEnable ?l \<noteq> Some True then returnG ()
        else wrapG ''failed to disable ipgroup on listener %s: %w'' [ls_ID ?l] (mutate fake_env ElbClient lbID
          (bindG (lsUpdate fake_env ElbClient (ls_ID ?l) \<lparr>nu_KeepAliveTimeout = 0,
            nu_IpGroup = Some \<lparr>iu_IpGroupId = ls_IpGroupID ?l, iu_Enable = False, iu_Type = ''''\<rparr>\<rparr>) (\<lambda>_. returnG ()))))
      (\<lambda>_ w'. group_ready i name service port sl (cloud w) (cloud w'))"
    proof (cases "ig_Name g \<noteq> resourceName name port \<or> ls_IpGroupEnable ?l \<noteq> Some True")
      case True
      then have "whitelisted name service port sl" using ranges g by (auto simp: whitelisted_def)
      then show ?thesis using True w1 by (auto simp: succeeds_return group_readyI)
    next
      case On: False
      show ?thesis
        unfolding option.case if_not_P [OF On] id
        using succeeds_disableGroup [OF w1(1,2,3) ranges] w1(4) by simp
    qed
  qed
qed

lemma succeeds_guardListener:
  assumes ok: "consistent (cloud w)" and sl: "sliceOf (cloud w) i = Some sl" and lb: "lbID \<in> dom (map_of (loadBalancers (cloud w)))"
    and own: "no_foreign_group name service port sl" and ranges: "normalizeRanges (LoadBalancerSourceRanges service) \<noteq> []"
    and at: "ls_IpGroupID (sl_listener sl) \<noteq> ''''"
  shows "succeeds w (reconcileIPGroup fake_env ElbClient lbID (sl_listener sl) name service port)
    (\<lambda>_ w'. group_ready i name service port sl (cloud w) (cloud w'))"
  unfolding reconcileIPGroup_def Let_def if_not_P [OF ranges] if_P [OF at]
proof (rule succeeds_bind, rule succeeds_getGroup [OF ok sl at])
  let ?l = "sl_listener sl" and ?ranges = "normalizeRanges (LoadBalancerSourceRanges service)"
  have id: "ls_ID ?l = i" using ok sl by (rule slice_id)
  fix g w1 assume g: "sl_group sl = Some g" "ig_ID g = ls_IpGroupID ?l" and "steady w w1"
  then have w1: "consistent (cloud w1)" "sliceOf (cloud w1) i = Some sl" "lbID \<in> dom (map_of (loadBalancers (cloud w1)))"
    "cloud w1 = cloud w"
    using ok sl lb by (simp_all add: steady_def)
  have name: "ig_Name g = resourceName name port" using own ranges at g by (simp add: no_foreign_group_def)
  then have n: "\<not> ig_Name g \<noteq> resourceName name port" by simp
  show "succeeds w1 (case Some g of None \<Rightarrow> bindG (wrapG ''failed to create ipgroup for listener %s: %w'' [ls_ID ?l]
        (igCreate fake_env ElbClient \<lparr>gc_Name = resourceName name port,
           gc_Description = ''Kubernetes service '' @ Namespace service @ ''/'' @ ServiceName service,
           gc_IpList = ipList ?ranges\<rparr>)) (\<lambda>grp. attachIPGroup fake_env ElbClient lbID (ls_ID ?l) (ig_ID grp))
    | Some grp \<Rightarrow> if ig_Name grp \<noteq> resourceName name port then
        failG (Errorf ''listener %s already has a foreign ipgroup %s; remove it or drop loadBalancerSourceRanges'' [ls_ID ?l, ig_ID grp])
      else bindG (if ipListEqual (ig_IpList grp) ?ranges then returnG ()
          else wrapG ''failed to update ipgroup %s: %w'' [ig_ID grp]
            (retryOnConflict fake_env lbID (igUpdate fake_env ElbClient (ig_ID grp) (ipList ?ranges)))) (\<lambda>_.
        if ls_IpGroupEnable ?l \<noteq> Some True then attachIPGroup fake_env ElbClient lbID (ls_ID ?l) (ig_ID grp) else returnG ()))
    (\<lambda>_ w'. group_ready i name service port sl (cloud w) (cloud w'))"
    unfolding option.case if_not_P [OF n] id
    using succeeds_keepGroup [OF w1(1,2,3) ranges at g name] w1(4) by simp
qed

lemma succeeds_reconcileIPGroup:
  assumes ok: "consistent (cloud w)" and sl: "sliceOf (cloud w) i = Some sl" and lb: "lbID \<in> dom (map_of (loadBalancers (cloud w)))"
    and own: "no_foreign_group name service port sl"
  shows "succeeds w (reconcileIPGroup fake_env ElbClient lbID (sl_listener sl) name service port)
    (\<lambda>_ w'. group_ready i name service port sl (cloud w) (cloud w'))"
proof (cases "normalizeRanges (LoadBalancerSourceRanges service) = []")
  case True
  then show ?thesis by (rule succeeds_openListener [OF ok sl lb])
next
  case False
  show ?thesis
  proof (cases "ls_IpGroupID (sl_listener sl) = ''''")
    case True
    then show ?thesis
      using succeeds_createGroup [OF ok sl lb False] False slice_id [OF ok sl] by (simp add: reconcileIPGroup_def Let_def)
  next
    case Attached: False
    show ?thesis by (rule succeeds_guardListener [OF ok sl lb own False Attached])
  qed
qed

subsection \<open>Pools\<close>

definition pool_ready ::
  "string \<Rightarrow> serviceSettings \<Rightarrow> Service \<Rightarrow> Slice \<Rightarrow> fakeELB \<Rightarrow> PoolObj \<Rightarrow> fakeELB \<Rightarrow> bool" where
  "pool_ready i settings service sl s p s' \<longleftrightarrow> only_touches i s s' \<and>
     (\<exists>sl'. sliceOf s' i = Some sl' \<and> group_part sl' = group_part sl \<and> sl_pool sl' = Some p \<and>
        ls_DefaultPoolID (sl_listener sl') = pl_ID p \<and> pl_ID p \<noteq> '''' \<and> pool_settled settings service p)"

lemma succeeds_updatePool:
  assumes ok: "consistent (cloud w)" and sl: "sliceOf (cloud w) i = Some sl" and lb: "lbID \<in> dom (map_of (loadBalancers (cloud w)))"
    and p: "sl_pool sl = Some p" "pl_ID p = ls_DefaultPoolID (sl_listener sl)" "pl_ID p \<noteq> ''''" and v: "v_pool w = Some p"
  shows "succeeds w (mutate fake_env ElbClient lbID (bindG derefPool (\<lambda>p. plUpdate fake_env ElbClient (pl_ID p)
      \<lparr>pu_LBMethod = LBAlgorithm settings, pu_Persistence = desiredPersistence service\<rparr>)))
    (\<lambda>_ w'. \<exists>p'. v_pool w' = Some p' \<and> pool_ready i settings service sl (cloud w) p' (cloud w'))"
proof -
  obtain l where l: "map_of (listeners (cloud w)) i = Some l" "fl_obj l = sl_listener sl"
    "sl_pool sl = map_of (pools (cloud w)) (poolRef l)"
    using sl by (rule sliceE)
  let ?o = "\<lparr>pu_LBMethod = LBAlgorithm settings, pu_Persistence = desiredPersistence service\<rparr>"
  let ?p = "p\<lparr>pl_LBMethod := LBAlgorithm settings,
     pl_Persistence := (case desiredPersistence service of None \<Rightarrow> pl_Persistence p | Some sp \<Rightarrow> Some sp)\<rparr>"
  let ?s = "cloud w\<lparr>pools := AList.update (pl_ID p) ?p (pools (cloud w))\<rparr>"
  let ?w = "w\<lparr>cloud := ?s, trace := trace w @ [PlUpdate (pl_ID p) ?o (Some ?p, None)], v_pool := Some ?p\<rparr>"
  have at: "map_of (pools (cloud w)) (pl_ID p) = Some p" using p l by simp
  then have upd: "plUpdate fake_env ElbClient (pl_ID p) ?o w = (Ok (), ?w)"
    by (simp add: plUpdate_def fake_fields fake_plUpdate_def Let_def)
  have mon: "pl_MonitorID ?p \<noteq> '''' \<longrightarrow> (\<exists>m. map_of (monitors (cloud w)) (pl_MonitorID ?p) = Some m \<and>
      fm_pool_id m = pl_ID p \<and> monitor_ok (fm_obj m))"
    using consistentD(13) [OF ok] at by (simp add: monitors_ok_def)
  have *: "only_touches i (cloud w) ?s \<and> sliceOf ?s i = map_option (\<lambda>sl. sl\<lparr>sl_pool := Some ?p,
      sl_monitor := map_option fm_obj (map_of (monitors (cloud w)) (pl_MonitorID ?p))\<rparr>) (sliceOf (cloud w) i) \<and> listeners ?s = listeners (cloud w)"
    by (rule update_pool [OF ok l(1) _ p(3) _ mon]) (use p(2) l(2) in simp_all)
  then have ready: "pool_ready i settings service sl (cloud w) ?p ?s"
    using sl p by (auto simp: pool_ready_def pool_settled_def group_part_def split: option.split)
  have act: "active lbID ?s"
    using * lb by (intro consistent_active) (auto simp: only_touches_def)
  have "bindG derefPool (\<lambda>p. plUpdate fake_env ElbClient (pl_ID p) ?o) w = (Ok (), ?w)"
    using upd v by (simp add: derefPool_def bindG_def returnG_def derefG_def)
  then show ?thesis
    by (intro succeeds_mutate, elim succeedsI) (use act ready in \<open>auto simp: steady_def\<close>)
qed

lemma succeeds_createPool:
  assumes ok: "consistent (cloud w)" and sl: "sliceOf (cloud w) i = Some sl" and lb: "lbID \<in> dom (map_of (loadBalancers (cloud w)))"
    and none: "ls_DefaultPoolID (sl_listener sl) = ''''" and o1: "pc_ListenerID o1 = i" "pc_LBMethod o1 = LBAlgorithm settings"
      "pc_Persistence o1 = desiredPersistence service"
  shows "succeeds w (mutate fake_env ElbClient lbID (bindG (plCreate fake_env ElbClient o1)
      (\<lambda>p. modifyG (\<lambda>w. w\<lparr>v_pool := Some p\<rparr>))))
    (\<lambda>_ w'. \<exists>p'. v_pool w' = Some p' \<and> pool_ready i settings service sl (cloud w) p' (cloud w'))"
proof -
  obtain l where l: "map_of (listeners (cloud w)) i = Some l" "fl_obj l = sl_listener sl"
    using sl by (rule sliceE)
  let ?j = "genID ''pool'' (nextID (cloud w) + 1)"
  let ?p = "\<lparr>pl_ID = ?j, pl_Name = pc_Name o1, pl_LBMethod = pc_LBMethod o1, pl_Persistence = pc_Persistence o1,
     pl_MonitorID = ''''\<rparr>"
  let ?s1 = "cloud w\<lparr>nextID := nextID (cloud w) + 1, pools := pools (cloud w) @ [(?j, ?p)], members := members (cloud w) @ [(?j, [])]\<rparr>"
  let ?l = "l\<lparr>fl_obj := (fl_obj l)\<lparr>ls_DefaultPoolID := ?j\<rparr>\<rparr>"
  let ?s = "?s1\<lparr>listeners := AList.update i ?l (listeners ?s1)\<rparr>"
  have create: "pools_Create fake_env ElbClient o1 (cloud w) = (Inr ?p, ?s)"
    using l(1) o1(1) by (simp add: fake_fields onElb_def fake_plCreate_def Let_def)
  have new: "only_touches i (cloud w) ?s1" "map_of (pools ?s1) ?j = Some ?p" "sliceOf ?s1 i = Some sl"
    "\<forall>j' l. map_of (listeners ?s1) j' = Some l \<longrightarrow> poolRef l \<noteq> ?j"
    using new_pool [OF ok refl, of ?p ?s1 i] sl by simp_all
  have id: "ls_ID (fl_obj l) = i" using slice_id [OF ok sl] l(2) by simp
  have "only_touches i ?s1 ?s"
  proof (rule update_listener_touches)
    show "consistent ?s1" using new(1) by (simp add: only_touches_def)
    show "map_of (listeners ?s1) i = Some l" using l(1) by simp
    show "poolRef ?l = poolRef l \<or> (poolRef ?l \<in> dom (map_of (pools ?s1)) \<and>
        (\<forall>j k. map_of (listeners ?s1) j = Some k \<longrightarrow> poolRef k \<noteq> poolRef ?l))"
      using new(2,4) by auto
  qed (use id in \<open>simp_all add: listenerKey_def\<close>)
  with new(1) have touch: "only_touches i (cloud w) ?s" by (rule only_touches_trans)
  have "sl_group sl = map_of (ipGroups (cloud w)) (groupRef l)" using sl l(1) by (auto simp: sliceOf_def Let_def)
  then have "\<exists>sl'. sliceOf ?s i = Some sl' \<and> group_part sl' = group_part sl \<and> sl_pool sl' = Some ?p \<and>
      ls_DefaultPoolID (sl_listener sl') = ?j"
    using new(2) l(2) by (simp add: sliceOf_def Let_def update_conv' group_part_def)
  then have ready: "pool_ready i settings service sl (cloud w) ?p ?s"
    using touch o1 by (auto simp: pool_ready_def pool_settled_def)
  have act: "active lbID ?s"
    using touch lb by (intro consistent_active) (auto simp: only_touches_def)
  show ?thesis
    by (rule succeeds_mutate, rule succeeds_bind, unfold plCreate_def, rule succeeds_sdkCall, rule create, rule succeeds_modify)
      (use act ready in \<open>auto simp: steady_def\<close>)
qed

lemma succeeds_derefPool: "v_pool w = Some p \<Longrightarrow> Q p w \<Longrightarrow> succeeds w derefPool Q"
  by (simp add: derefPool_def succeeds_def bindG_def)

lemma succeeds_ensurePool:
  assumes ok: "consistent (cloud w)" and sl: "sliceOf (cloud w) i = Some sl" and lb: "lbID \<in> dom (map_of (loadBalancers (cloud w)))"
    and l: "ls_ID l = i" "ls_DefaultPoolID l = ls_DefaultPoolID (sl_listener sl)"
  shows "succeeds w (ensurePool fake_env ElbClient lbID l name settings service port)
    (\<lambda>p w'. pool_ready i settings service sl (cloud w) p (cloud w'))"
proof (cases "ls_DefaultPoolID l = ''''")
  case True
  then have no: "\<not> ls_DefaultPoolID l \<noteq> ''''" by simp
  let ?w = "w\<lparr>v_pool := None\<rparr>"
  let ?o = "\<lparr>pc_ListenerID = ls_ID l, pc_Name = resourceName name port, pc_Protocol = Protocol port,
     pc_LBMethod = LBAlgorithm settings,
     pc_Description = ''Kubernetes service '' @ Namespace service @ ''/'' @ ServiceName service,
     pc_Persistence = desiredPersistence service\<rparr>"
  have "succeeds ?w (mutate fake_env ElbClient lbID (bindG (plCreate fake_env ElbClient ?o) (\<lambda>p. modifyG (\<lambda>w. w\<lparr>v_pool := Some p\<rparr>))))
      (\<lambda>_ w'. \<exists>p'. v_pool w' = Some p' \<and> pool_ready i settings service sl (cloud ?w) p' (cloud w'))"
    by (rule succeeds_createPool) (use ok sl lb l True in simp_all)
  then show ?thesis
    unfolding ensurePool_def Let_def if_not_P [OF no]
    by (intro succeeds_bind succeeds_modify succeeds_wrap, elim succeeds_mono) (auto intro: succeeds_derefPool)
next
  case False
  obtain fl where fl: "map_of (listeners (cloud w)) i = Some fl" "fl_obj fl = sl_listener sl"
    "sl_pool sl = map_of (pools (cloud w)) (poolRef fl)"
    using sl by (rule sliceE)
  have "poolRef fl \<in> dom (map_of (pools (cloud w)))"
    using linkedD(1) [OF consistentD(10) [OF ok] fl(1)] False l(2) fl(2) by simp
  then obtain p where p: "map_of (pools (cloud w)) (poolRef fl) = Some p" by blast
  then have id: "pl_ID p = ls_DefaultPoolID l"
    using consistentD(7) [OF ok] fl(2) l(2) by (simp add: keyed_def)
  have get: "pools_Get fake_env ElbClient (ls_DefaultPoolID l) (cloud w) = (Inr p, cloud w)"
    using p fl(2) l(2) by (simp add: fake_fields onElb_def fake_plGet_def getItem_def)
  have ready: "succeeds w1 (if pl_LBMethod p \<noteq> LBAlgorithm settings \<or>
        (desiredPersistence service \<noteq> None \<and> \<not> persistenceEqual (pl_Persistence p) (desiredPersistence service)) then
       bindG (modifyG (\<lambda>w. w\<lparr>v_pool := Some p\<rparr>)) (\<lambda>_.
       bindG (catchG (mutate fake_env ElbClient lbID (bindG derefPool (\<lambda>p. plUpdate fake_env ElbClient (pl_ID p)
           \<lparr>pu_LBMethod = LBAlgorithm settings, pu_Persistence = desiredPersistence service\<rparr>))) h) (\<lambda>_. derefPool))
     else returnG p)
     (\<lambda>p w'. pool_ready i settings service sl (cloud w) p (cloud w'))" if w1: "cloud w1 = cloud w" for w1 h
  proof (cases "pl_LBMethod p \<noteq> LBAlgorithm settings \<or>
        (desiredPersistence service \<noteq> None \<and> \<not> persistenceEqual (pl_Persistence p) (desiredPersistence service))")
    case True
    let ?w = "w1\<lparr>v_pool := Some p\<rparr>"
    have "succeeds ?w (mutate fake_env ElbClient lbID (bindG derefPool (\<lambda>p. plUpdate fake_env ElbClient (pl_ID p)
           \<lparr>pu_LBMethod = LBAlgorithm settings, pu_Persistence = desiredPersistence service\<rparr>)))
      (\<lambda>_ w'. \<exists>p'. v_pool w' = Some p' \<and> pool_ready i settings service sl (cloud ?w) p' (cloud w'))"
      by (rule succeeds_updatePool [where p = p]) (use ok sl lb w1 p fl id l False in simp_all)
    then show ?thesis
      unfolding if_P [OF True]
      by (intro succeeds_bind succeeds_modify succeeds_catch, elim succeeds_mono) (auto intro: succeeds_derefPool simp: w1)
  next
    case Same: False
    then have "pool_settled settings service p" by (auto simp: pool_settled_def)
    then have "pool_ready i settings service sl (cloud w) p (cloud w)"
      using ok sl p fl id l False by (simp add: pool_ready_def only_touches_refl)
    then show ?thesis
      unfolding if_not_P [OF Same] by (simp add: succeeds_return w1)
  qed
  show ?thesis
    unfolding ensurePool_def Let_def if_P [OF False]
    by (rule succeeds_bind, rule succeeds_wrap, unfold plGet_def, rule succeeds_sdkCall, rule get, rule ready) simp
qed

subsection \<open>Members\<close>

text \<open>The member calls touch members and the id counter only.\<close>

definition framed_ok :: "fakeELB \<Rightarrow> string \<Rightarrow> string \<Rightarrow> fakeELB \<Rightarrow> bool" where
  "framed_ok s0 i j c \<longleftrightarrow> fake_ok i j c \<and> c = s0\<lparr>nextID := nextID c, members := members c\<rparr> \<and>
     nextID s0 \<le> nextID c \<and> dom (map_of (members c)) = dom (map_of (members s0))"

lemma framed_create:
  assumes "framed_ok s0 i j c" and run: "members_Create fake_env ElbClient q o1 c = (r, c')" and "fake_ok i j c'"
  shows "framed_ok s0 i j c'"
proof (cases "map_of (members c) q")
  case None
  then show ?thesis using assms by (simp add: fake_fields onElb_def fake_mbCreate_def)
next
  case (Some ms)
  then have c': "c' = c\<lparr>nextID := nextID c + 1, members := members c'\<rparr>" "dom (map_of (members c')) = dom (map_of (members c))"
    using run by (auto simp: fake_fields onElb_def fake_mbCreate_def Let_def update_conv' split: if_splits)
  then have "c' = s0\<lparr>nextID := nextID c', members := members c'\<rparr>" "nextID c' = nextID c + 1"
    using assms(1) unfolding framed_ok_def by (metis (no_types) fakeELB.update_convs(1,6) fakeELB.select_convs(1) fakeELB.surjective)+
  then show ?thesis using assms(1,3) c'(2) by (simp add: framed_ok_def)
qed

lemma framed_delete:
  assumes "framed_ok s0 i j c" and run: "members_Delete fake_env ElbClient q n c = (r, c')" and "fake_ok i j c'"
  shows "framed_ok s0 i j c'"
proof (cases "map_of (members c) q")
  case None
  then show ?thesis using assms by (simp add: fake_fields onElb_def fake_mbDelete_def)
next
  case (Some ms)
  then have c': "c' = c\<lparr>members := members c'\<rparr>" "dom (map_of (members c')) = dom (map_of (members c))"
    using run by (auto simp: fake_fields onElb_def fake_mbDelete_def update_conv' split: prod.splits if_splits)
  then have "c' = s0\<lparr>nextID := nextID c', members := members c'\<rparr>" "nextID c' = nextID c"
    using assms(1) unfolding framed_ok_def by (metis (no_types) fakeELB.update_convs(1,6) fakeELB.select_convs(1) fakeELB.surjective)+
  then show ?thesis using assms(1,3) c'(2) by (simp add: framed_ok_def)
qed

interpretation framed: live_store fake_env ElbClient fake_store "framed_ok s0 i j" i j for s0 i j
proof
  have ok: "fake_ok i j c" if "framed_ok s0 i j c" for c using that by (simp add: framed_ok_def)
  fix c c' :: fakeELB and j' n :: string and r ms
  show "set ms = fake_store c j'" if "framed_ok s0 i j c" "members_List fake_env ElbClient j' c = (Inr (Inr ms), c')"
    using that ok fake_members.list_ok by blast
  show "framed_ok s0 i j c' \<and> fake_store c' = fake_store c"
    if "framed_ok s0 i j c" "members_List fake_env ElbClient j' c = (r, c')"
    using that by (simp add: fake_fields onElb_def fake_mbList_def)
  show "\<exists>ms c'. members_List fake_env ElbClient j c = (Inr (Inr ms), c')" if "framed_ok s0 i j c"
    using that ok fake_members.list_live by blast
next
  fix c c' :: fakeELB and n :: string and r
  show "framed_ok s0 i j c' \<and> fake_store c' = fake_store c"
    if "framed_ok s0 i j c" "loadbalancers_Get fake_env ElbClient n c = (r, c')"
    using that by (simp add: fake_fields onElb_def)
  show "\<exists>b c'. loadbalancers_Get fake_env ElbClient i c = (Inr b, c') \<and> lb_ProvisioningStatus b = statusActive"
    if "framed_ok s0 i j c"
    using that fake_members.get_live by (auto simp: framed_ok_def)
next
  fix c c' :: fakeELB and p :: string and o1 and m :: MemberObj and e
  show "framed_ok s0 i j c' \<and> fake_store c' = (fake_store c)(p := insert m (fake_store c p)) \<and>
      endpoint m = (mc_Address o1, mc_ProtocolPort o1) \<and> mb_ID m \<notin> mb_ID ` fake_store c p"
    if "framed_ok s0 i j c" "members_Create fake_env ElbClient p o1 c = (Inr m, c')"
    using fake_members.create_ok [of i j c p o1 m c'] framed_create [OF that] that by (auto simp: framed_ok_def)
  show "framed_ok s0 i j c' \<and> fake_store c' = fake_store c"
    if "framed_ok s0 i j c" "members_Create fake_env ElbClient p o1 c = (Inl e, c')"
    using fake_members.create_fails [of i j c p o1 e c'] framed_create [OF that] that by (auto simp: framed_ok_def)
  show "\<exists>m c'. members_Create fake_env ElbClient j o1 c = (Inr m, c')" if "framed_ok s0 i j c"
    using that fake_members.create_live by (auto simp: framed_ok_def)
next
  fix c c' :: fakeELB and p n :: string and x e
  show "framed_ok s0 i j c' \<and> fake_store c' = (fake_store c)(p := {m \<in> fake_store c p. mb_ID m \<noteq> n})"
    if "framed_ok s0 i j c" "members_Delete fake_env ElbClient p n c = (x, c')" "x = Inr () \<or> (\<exists>e. x = Inl e \<and> isNotFound e)"
    using fake_members.delete_ok [of i j c p n x c'] framed_delete [OF that(1,2)] that by (auto simp: framed_ok_def)
  show "framed_ok s0 i j c' \<and> fake_store c' = fake_store c"
    if "framed_ok s0 i j c" "members_Delete fake_env ElbClient p n c = (Inl e, c')" "\<not> isNotFound e"
    using fake_members.delete_fails [of i j c p n e c'] framed_delete [OF that(1,2)] that by (auto simp: framed_ok_def)
  show "\<exists>x c'. members_Delete fake_env ElbClient j n c = (x, c') \<and> (x = Inr () \<or> x = Inl (Http 404))" if "framed_ok s0 i j c"
    using that fake_members.delete_live by (auto simp: framed_ok_def)
qed

definition serveable :: "Node list \<Rightarrow> ServicePort \<Rightarrow> bool" where
  "serveable nodes port \<longleftrightarrow> NodePort port \<noteq> 0 \<and> (\<exists>n \<in> set nodes. \<exists>a. nodeAddress n = Inr a)"

lemma framed_touches:
  assumes ok: "consistent s" and l: "map_of (listeners s) i = Some l" and j: "poolRef l \<noteq> ''''"
    and s': "framed_ok s b (poolRef l) s'"
    and rest: "\<And>j. j \<noteq> poolRef l \<Longrightarrow> fake_store s' j = fake_store s j" and inj: "inj_on endpoint (fake_store s' (poolRef l))" "inj_on mb_ID (fake_store s' (poolRef l))"
  shows "only_touches i s s' \<and> listeners s' = listeners s \<and> pools s' = pools s \<and>
    sliceOf s' i = map_option (\<lambda>sl. sl\<lparr>sl_members := fake_store s' (poolRef l)\<rparr>) (sliceOf s i)"
  by (rule change_members [OF ok l j, where s' = s' and n = "nextID s'" and mbs = "members s'"])
    (use s' rest inj in \<open>auto simp: framed_ok_def fake_ok_def\<close>)

lemma framed_start:
  assumes ok: "consistent s" and l: "map_of (listeners s) i = Some l" and j: "poolRef l \<noteq> ''''"
    and lb: "lbID \<in> dom (map_of (loadBalancers s))"
  shows "framed_ok s lbID (poolRef l) s" and "inj_on endpoint (fake_store s (poolRef l))" and "inj_on mb_ID (fake_store s (poolRef l))"
proof -
  have "poolRef l \<in> dom (map_of (pools s))"
    by (rule linkedD(1) [OF consistentD(10) [OF ok] l j])
  then obtain ms where ms: "map_of (members s) (poolRef l) = Some ms" "inj_on endpoint (snd ` set ms)"
    "inj_on mb_ID (snd ` set ms)" using consistentD(12) [OF ok] by (auto simp: members_ok_def)
  have "active lbID s" using ok lb by (rule consistent_active)
  then show "framed_ok s lbID (poolRef l) s"
    using consistentD(1) [OF ok] ms(1) by (simp add: framed_ok_def fake_ok_def active_def)
  show "inj_on endpoint (fake_store s (poolRef l))" using ms by (simp add: fake_store_def)
  show "inj_on mb_ID (fake_store s (poolRef l))" using ms by (simp add: fake_store_def)
qed

lemma succeeds_reconcileMembers:
  assumes ok: "consistent (cloud w)" and sl: "sliceOf (cloud w) i = Some sl" and lb: "lb_ID b \<in> dom (map_of (loadBalancers (cloud w)))"
    and j: "ls_DefaultPoolID (sl_listener sl) = j" "j \<noteq> ''''" and port: "serveable nodes port"
  shows "succeeds w (reconcileMembers fake_env ElbClient b j (NodePort port) nodes)
    (\<lambda>_ w'. only_touches i (cloud w) (cloud w') \<and>
      (\<exists>M. sliceOf (cloud w') i = Some (sl\<lparr>sl_members := M\<rparr>) \<and> endpoint ` M = wantedEndpoints nodes port))"
proof -
  obtain l where l: "map_of (listeners (cloud w)) i = Some l" "fl_obj l = sl_listener sl"
    using sl by (rule sliceE)
  have j': "poolRef l = j" "poolRef l \<noteq> ''''" using l(2) j by simp_all
  note start = framed_start [OF ok l(1) j'(2) lb, unfolded j'(1)]
  have port': "NodePort port \<noteq> 0" "\<exists>n \<in> set nodes. \<exists>a. nodeAddress n = Inr a" using port by (simp_all add: serveable_def)
  obtain w' where run: "reconcileMembers fake_env ElbClient b j (NodePort port) nodes w = (Ok (), w')"
    using framed.reconcileMembers_live [OF start(1) refl port'] by (elim exE)
  have eff: "framed_ok (cloud w) (lb_ID b) j (cloud w') \<and>
      endpoint ` fake_store (cloud w') j = {(a, NodePort port) |a. \<exists>n \<in> set nodes. nodeAddress n = Inr a} \<and>
      inj_on mb_ID (fake_store (cloud w') j) \<and> inj_on endpoint (fake_store (cloud w') j) \<and>
      (\<forall>j'. j' \<noteq> j \<longrightarrow> fake_store (cloud w') j' = fake_store (cloud w) j')"
    by (rule framed.reconcileMembers_effect [OF run start(1,3,2)])
  then have "only_touches i (cloud w) (cloud w') \<and> listeners (cloud w') = listeners (cloud w) \<and> pools (cloud w') = pools (cloud w) \<and>
    sliceOf (cloud w') i = map_option (\<lambda>sl. sl\<lparr>sl_members := fake_store (cloud w') (poolRef l)\<rparr>) (sliceOf (cloud w) i)"
    by (intro framed_touches [OF ok l(1) j'(2), where b = "lb_ID b"]) (simp_all add: j'(1))
  then show ?thesis
    using run sl eff by (auto intro!: succeedsI simp: j'(1) wantedEndpoints_def)
qed

subsection \<open>Health monitors\<close>

definition check_values :: "serviceSettings \<Rightarrow> bool" where
  "check_values settings \<longleftrightarrow> (HealthCheckEnabled settings \<longrightarrow>
     HealthCheckDelay settings \<noteq> 0 \<and> HealthCheckTimeout settings \<noteq> 0 \<and> HealthCheckMaxRetries settings \<noteq> 0)"

lemma probe_paths:
  "pr_Type (desiredProbe settings service port) \<noteq> ''HTTP'' \<Longrightarrow> pr_Type (desiredProbe settings service port) \<noteq> ''HTTPS'' \<Longrightarrow>
     pr_URLPath (desiredProbe settings service port) = '''' \<and> pr_HTTPMethod (desiredProbe settings service port) = ''''"
  "pr_Type (desiredProbe settings service port) = ''HTTP'' \<or> pr_Type (desiredProbe settings service port) = ''HTTPS'' \<Longrightarrow>
     pr_URLPath (desiredProbe settings service port) \<noteq> '''' \<and> pr_HTTPMethod (desiredProbe settings service port) \<noteq> ''''"
  by (simp_all add: desiredProbe_def split: if_splits) auto

definition same_pool :: "PoolObj \<Rightarrow> PoolObj \<Rightarrow> bool" where
  "same_pool p q \<longleftrightarrow> pl_ID q = pl_ID p \<and> pl_LBMethod q = pl_LBMethod p \<and> pl_Persistence q = pl_Persistence p"

definition monitor_ready ::
  "string \<Rightarrow> serviceSettings \<Rightarrow> Service \<Rightarrow> ServicePort \<Rightarrow> Slice \<Rightarrow> PoolObj \<Rightarrow> fakeELB \<Rightarrow> fakeELB \<Rightarrow> bool" where
  "monitor_ready i settings service port sl p s s' \<longleftrightarrow> only_touches i s s' \<and>
     (\<exists>q mo. sliceOf s' i = Some (sl\<lparr>sl_pool := Some q, sl_monitor := mo\<rparr>) \<and> same_pool p q \<and>
        probed settings service port q mo)"

text \<open>The pool \<open>p\<close> of the listener \<open>i\<close>.\<close>

definition pool_at :: "fakeELB \<Rightarrow> string \<Rightarrow> Slice \<Rightarrow> PoolObj \<Rightarrow> bool" where
  "pool_at s i sl p \<longleftrightarrow> sliceOf s i = Some sl \<and> sl_pool sl = Some p \<and>
     ls_DefaultPoolID (sl_listener sl) = pl_ID p \<and> pl_ID p \<noteq> ''''"

lemma pool_atE:
  assumes "pool_at s i sl p"
  obtains l where "map_of (listeners s) i = Some l" and "poolRef l = pl_ID p" and "map_of (pools s) (pl_ID p) = Some p"
    and "pl_ID p \<noteq> ''''" and "sl_monitor sl = map_option fm_obj (map_of (monitors s) (pl_MonitorID p))"
proof -
  have sl: "sliceOf s i = Some sl" and p: "sl_pool sl = Some p" "ls_DefaultPoolID (sl_listener sl) = pl_ID p" "pl_ID p \<noteq> ''''"
    using assms unfolding pool_at_def by blast+
  obtain l where l: "map_of (listeners s) i = Some l" "fl_obj l = sl_listener sl"
    "sl_pool sl = map_of (pools s) (poolRef l)"
    "sl_monitor sl = Option.bind (sl_pool sl) (\<lambda>q. map_option fm_obj (map_of (monitors s) (pl_MonitorID q)))"
    using sl by (rule sliceE)
  have ref: "poolRef l = pl_ID p" using l(2) p(2) by simp
  then have "map_of (pools s) (pl_ID p) = Some p" using l(3) p(1) by simp
  moreover have "sl_monitor sl = map_option fm_obj (map_of (monitors s) (pl_MonitorID p))" using l(4) p(1) by simp
  ultimately show thesis using l(1) ref p(3) by (intro that)
qed

lemma pool_monitor:
  assumes ok: "consistent s" and p: "map_of (pools s) j = Some p" "pl_MonitorID p \<noteq> ''''"
  obtains m where "map_of (monitors s) (pl_MonitorID p) = Some m" and "fm_pool_id m = j" and "monitor_ok (fm_obj m)"
    and "\<forall>j' q. map_of (pools s) j' = Some q \<longrightarrow> j' \<noteq> j \<longrightarrow> pl_MonitorID q \<noteq> pl_MonitorID p"
proof -
  note mons = consistentD(13) [OF ok, unfolded monitors_ok_def]
  obtain m where m: "map_of (monitors s) (pl_MonitorID p) = Some m" "fm_pool_id m = j" "monitor_ok (fm_obj m)"
    using mons p by blast
  have "pl_MonitorID q \<noteq> pl_MonitorID p" if "map_of (pools s) j' = Some q" "j' \<noteq> j" for j' q
    using mons that m p(2) by fastforce
  with m show thesis by (intro that allI impI)
qed

lemma succeeds_deleteMonitor:
  assumes ok: "consistent (cloud w)" and p: "pool_at (cloud w) i sl p" and lb: "lbID \<in> dom (map_of (loadBalancers (cloud w)))"
    and mon: "pl_MonitorID p \<noteq> ''''"
  shows "succeeds w (mutate fake_env ElbClient lbID (moDelete fake_env ElbClient (pl_MonitorID p)))
    (\<lambda>_ w'. only_touches i (cloud w) (cloud w') \<and>
      (\<exists>mo. sliceOf (cloud w') i = Some (sl\<lparr>sl_pool := Some (p\<lparr>pl_MonitorID := ''''\<rparr>), sl_monitor := mo\<rparr>)))"
proof -
  obtain l where l: "map_of (listeners (cloud w)) i = Some l" "poolRef l = pl_ID p" "map_of (pools (cloud w)) (pl_ID p) = Some p"
    "pl_ID p \<noteq> ''''"
    using p by (rule pool_atE)
  have sl: "sliceOf (cloud w) i = Some sl" using p by (simp add: pool_at_def)
  obtain m where m: "map_of (monitors (cloud w)) (pl_MonitorID p) = Some m" "fm_pool_id m = pl_ID p" "monitor_ok (fm_obj m)"
    and alone: "\<forall>j' q. map_of (pools (cloud w)) j' = Some q \<longrightarrow> j' \<noteq> pl_ID p \<longrightarrow> pl_MonitorID q \<noteq> pl_MonitorID p"
    using ok l(3) mon by (rule pool_monitor)
  let ?p = "p\<lparr>pl_MonitorID := ''''\<rparr>"
  let ?s1 = "cloud w\<lparr>pools := AList.update (pl_ID p) ?p (pools (cloud w))\<rparr>"
  let ?s = "?s1\<lparr>monitors := AList.delete (pl_MonitorID p) (monitors ?s1)\<rparr>"
  have del: "monitors_Delete fake_env ElbClient (pl_MonitorID p) (cloud w) = (Inr (), ?s)"
    using m l(3,4) by (simp add: fake_fields onElb_def fake_moDelete_def setMonitorID_def)
  have 1: "only_touches i (cloud w) ?s1 \<and> sliceOf ?s1 i = map_option (\<lambda>sl. sl\<lparr>sl_pool := Some ?p,
      sl_monitor := map_option fm_obj (map_of (monitors (cloud w)) (pl_MonitorID ?p))\<rparr>) (sliceOf (cloud w) i) \<and> listeners ?s1 = listeners (cloud w)"
    by (rule update_pool [OF ok l(1,2,4)]) simp_all
  have 2: "only_touches i ?s1 ?s \<and> sliceOf ?s i = sliceOf ?s1 i \<and> listeners ?s = listeners ?s1 \<and> pools ?s = pools ?s1"
  proof (rule drop_monitor)
    show "consistent ?s1" using 1 by (simp add: only_touches_def)
    show "pl_MonitorID q \<noteq> pl_MonitorID p" if "map_of (pools ?s1) j' = Some q" for j' q
      using that alone mon by (auto simp: update_conv' split: if_splits)
  qed simp
  have touch: "only_touches i (cloud w) ?s" using 1 2 by (blast intro: only_touches_trans)
  have act: "active lbID ?s" using touch lb by (intro consistent_active) (auto simp: only_touches_def)
  show ?thesis
    by (rule succeeds_mutate, unfold moDelete_def, rule succeeds_sdkCall, rule del)
      (use act touch 1 2 sl in \<open>auto simp: steady_def\<close>)
qed

lemma succeeds_createMonitor:
  assumes ok: "consistent (cloud w)" and p: "pool_at (cloud w) i sl p" and lb: "lbID \<in> dom (map_of (loadBalancers (cloud w)))"
    and id: "pl_ID p0 = pl_ID p" and on: "HealthCheckEnabled settings"
  shows "succeeds w (createMonitor fake_env ElbClient lbID p0 name settings port (desiredProbe settings service port))
    (\<lambda>_ w'. monitor_ready i settings service port sl p (cloud w) (cloud w'))"
proof -
  obtain l where l: "map_of (listeners (cloud w)) i = Some l" "poolRef l = pl_ID p" "map_of (pools (cloud w)) (pl_ID p) = Some p"
    "pl_ID p \<noteq> ''''"
    using p by (rule pool_atE)
  have sl: "sliceOf (cloud w) i = Some sl" using p by (simp add: pool_at_def)
  let ?probe = "desiredProbe settings service port"
  let ?o = "\<lparr>oc_PoolID = pl_ID p0, oc_Name = resourceName name port, oc_Type = pr_Type ?probe,
     oc_Delay = HealthCheckDelay settings, oc_Timeout = HealthCheckTimeout settings,
     oc_MaxRetries = HealthCheckMaxRetries settings, oc_URLPath = pr_URLPath ?probe,
     oc_HTTPMethod = pr_HTTPMethod ?probe, oc_MonitorPort = pr_Port ?probe\<rparr>"
  let ?m = "genID ''monitor'' (nextID (cloud w) + 1)"
  let ?body = "\<lparr>mo_ID = ?m, mo_Type = oc_Type ?o, mo_MonitorPort = oc_MonitorPort ?o,
             mo_Delay = oc_Delay ?o, mo_Timeout = oc_Timeout ?o, mo_MaxRetries = oc_MaxRetries ?o,
             mo_URLPath = oc_URLPath ?o, mo_HTTPMethod = oc_HTTPMethod ?o\<rparr>"
  let ?fm = "\<lparr>fm_obj = ?body, fm_pool_id = pl_ID p\<rparr>"
  let ?s1 = "cloud w\<lparr>nextID := nextID (cloud w) + 1, monitors := monitors (cloud w) @ [(?m, ?fm)]\<rparr>"
  let ?p = "p\<lparr>pl_MonitorID := ?m\<rparr>"
  let ?s = "?s1\<lparr>pools := AList.update (pl_ID p) ?p (pools ?s1)\<rparr>"
  have create: "monitors_Create fake_env ElbClient ?o (cloud w) = (Inr ?body, ?s)"
    using l(3) id by (simp add: fake_fields onElb_def fake_moCreate_def setMonitorID_def Let_def)
  have 1: "only_touches i (cloud w) ?s1 \<and> sliceOf ?s1 i = sliceOf (cloud w) i \<and> map_of (monitors ?s1) ?m = Some ?fm \<and>
      listeners ?s1 = listeners (cloud w) \<and> pools ?s1 = pools (cloud w)"
    by (rule new_monitor [OF ok refl refl])
  have clean: "monitor_ok ?body" using probe_paths(1) [of settings service port] by (simp add: monitor_ok_def)
  have 2: "only_touches i ?s1 ?s \<and> sliceOf ?s i = map_option (\<lambda>sl. sl\<lparr>sl_pool := Some ?p,
      sl_monitor := map_option fm_obj (map_of (monitors ?s1) (pl_MonitorID ?p))\<rparr>) (sliceOf ?s1 i) \<and> listeners ?s = listeners ?s1"
  proof (rule update_pool)
    show "consistent ?s1" using 1 by (simp add: only_touches_def)
    show "map_of (listeners ?s1) i = Some l" using l(1) by simp
    show "pl_MonitorID ?p \<noteq> '''' \<longrightarrow> (\<exists>m. map_of (monitors ?s1) (pl_MonitorID ?p) = Some m \<and> fm_pool_id m = pl_ID p \<and> monitor_ok (fm_obj m))"
      using 1 clean by simp
  qed (use l in simp_all)
  have touch: "only_touches i (cloud w) ?s" using 1 2 by (blast intro: only_touches_trans)
  have s1: "sliceOf ?s1 i = Some sl" "map_of (monitors ?s1) ?m = Some ?fm" "pl_MonitorID ?p = ?m"
    using 1 sl by (simp_all only: PoolObj.select_convs PoolObj.update_convs) simp
  have "sliceOf ?s i = map_option (\<lambda>sl. sl\<lparr>sl_pool := Some ?p,
      sl_monitor := map_option fm_obj (map_of (monitors ?s1) (pl_MonitorID ?p))\<rparr>) (sliceOf ?s1 i)"
    using 2 by (elim conjE)
  then have "sliceOf ?s i = Some (sl\<lparr>sl_pool := Some ?p, sl_monitor := Some ?body\<rparr>)"
    by (simp only: s1 option.map FakeMonitor.select_convs)
  moreover have "same_pool p ?p" "probed settings service port ?p (Some ?body)"
    using on by (simp_all add: same_pool_def probed_def probes_def)
  ultimately have ready: "monitor_ready i settings service port sl p (cloud w) ?s"
    unfolding monitor_ready_def using touch by blast
  have act: "active lbID ?s" using touch lb by (intro consistent_active) (auto simp: only_touches_def)
  show ?thesis
    unfolding createMonitor_def
    by (rule succeeds_wrap, rule succeeds_mutate, rule succeeds_bind, unfold moCreate_def, rule succeeds_sdkCall, rule create, rule succeeds_return)
      (use act ready in \<open>auto simp: steady_def\<close>)
qed

lemma succeeds_updateMonitor:
  assumes ok: "consistent (cloud w)" and p: "pool_at (cloud w) i sl p" and lb: "lbID \<in> dom (map_of (loadBalancers (cloud w)))"
    and on: "HealthCheckEnabled settings" "check_values settings" and mon: "pl_MonitorID p \<noteq> ''''" "sl_monitor sl = Some mo"
      "mo_Type mo = pr_Type (desiredProbe settings service port)" "mo_MonitorPort mo = pr_Port (desiredProbe settings service port)"
  shows "succeeds w (mutate fake_env ElbClient lbID (bindG (moUpdate fake_env ElbClient (pl_MonitorID p)
      \<lparr>ou_Delay = HealthCheckDelay settings, ou_Timeout = HealthCheckTimeout settings,
       ou_MaxRetries = HealthCheckMaxRetries settings, ou_URLPath = pr_URLPath (desiredProbe settings service port),
       ou_HTTPMethod = pr_HTTPMethod (desiredProbe settings service port)\<rparr>) (\<lambda>_. returnG ())))
    (\<lambda>_ w'. monitor_ready i settings service port sl p (cloud w) (cloud w'))"
proof -
  let ?probe = "desiredProbe settings service port"
  let ?o = "\<lparr>ou_Delay = HealthCheckDelay settings, ou_Timeout = HealthCheckTimeout settings,
       ou_MaxRetries = HealthCheckMaxRetries settings, ou_URLPath = pr_URLPath ?probe,
       ou_HTTPMethod = pr_HTTPMethod ?probe\<rparr>"
  obtain l where l: "map_of (listeners (cloud w)) i = Some l" "poolRef l = pl_ID p" "map_of (pools (cloud w)) (pl_ID p) = Some p"
    "pl_ID p \<noteq> ''''" "sl_monitor sl = map_option fm_obj (map_of (monitors (cloud w)) (pl_MonitorID p))"
    using p by (rule pool_atE)
  have sl: "sliceOf (cloud w) i = Some sl" "sl_pool sl = Some p" using p by (simp_all add: pool_at_def)
  obtain m where m: "map_of (monitors (cloud w)) (pl_MonitorID p) = Some m" "fm_pool_id m = pl_ID p" "monitor_ok (fm_obj m)"
    using ok l(3) mon(1) by (rule pool_monitor)
  have mo: "fm_obj m = mo" using l(5) m(1) mon(2) by simp
  let ?mo = "mo\<lparr>mo_Delay := HealthCheckDelay settings, mo_Timeout := HealthCheckTimeout settings,
     mo_MaxRetries := HealthCheckMaxRetries settings, mo_URLPath := pr_URLPath ?probe, mo_HTTPMethod := pr_HTTPMethod ?probe\<rparr>"
  let ?s = "cloud w\<lparr>monitors := AList.update (pl_MonitorID p) (m\<lparr>fm_obj := ?mo\<rparr>) (monitors (cloud w))\<rparr>"
  have paths: "pr_URLPath ?probe = '''' \<Longrightarrow> mo_URLPath mo = ''''" "pr_HTTPMethod ?probe = '''' \<Longrightarrow> mo_HTTPMethod mo = ''''"
    using m(3) probe_paths [of settings service port] mon(3) unfolding mo monitor_ok_def by metis+
  have clean: "monitor_ok ?mo"
    using probe_paths(1) [of settings service port] mon(3) by (simp add: monitor_ok_def)
  have same: "(if new = '''' then old else new) = new" if "new = '''' \<Longrightarrow> old = ''''" for new old :: string
    using that by simp
  have upd: "monitors_Update fake_env ElbClient (pl_MonitorID p) ?o (cloud w) = (Inr ?mo, ?s)"
    using m(1) on mo by (simp add: fake_fields onElb_def fake_moUpdate_def Let_def check_values_def same paths)
  have 1: "only_touches i (cloud w) ?s \<and> sliceOf ?s i = map_option (\<lambda>sl. sl\<lparr>sl_monitor := Some (fm_obj (m\<lparr>fm_obj := ?mo\<rparr>))\<rparr>) (sliceOf (cloud w) i) \<and>
      listeners ?s = listeners (cloud w) \<and> pools ?s = pools (cloud w)"
    by (rule update_monitor [OF ok l(1)]) (use l m clean mon(1) in simp_all)
  have "sl\<lparr>sl_pool := Some p, sl_monitor := Some ?mo\<rparr> = sl\<lparr>sl_monitor := Some ?mo\<rparr>" using sl(2) by simp
  then have "sliceOf ?s i = Some (sl\<lparr>sl_pool := Some p, sl_monitor := Some ?mo\<rparr>)"
    using 1 sl(1) by simp
  moreover have "same_pool p p" "probed settings service port p (Some ?mo)"
    using on mon by (simp_all add: same_pool_def probed_def probes_def)
  ultimately have ready: "monitor_ready i settings service port sl p (cloud w) ?s"
    unfolding monitor_ready_def using 1 by blast
  have act: "active lbID ?s" using 1 lb by (intro consistent_active) (auto simp: only_touches_def)
  show ?thesis
    by (rule succeeds_mutate, rule succeeds_bind, unfold moUpdate_def, rule succeeds_sdkCall, rule upd, rule succeeds_return)
      (use act ready in \<open>auto simp: steady_def\<close>)
qed

lemma monitor_readyI:
  assumes "consistent s" and "pool_at s i sl p" and "probed settings service port p (sl_monitor sl)"
  shows "monitor_ready i settings service port sl p s s"
proof -
  have "sl\<lparr>sl_pool := Some p, sl_monitor := sl_monitor sl\<rparr> = sl" using assms(2) by (simp add: pool_at_def)
  then show ?thesis
    using assms unfolding monitor_ready_def
    by (intro conjI exI [of _ p] exI [of _ "sl_monitor sl"]) (simp_all add: only_touches_refl pool_at_def same_pool_def)
qed

text \<open>A deleted monitor and a new one.\<close>

lemma succeeds_recreateMonitor:
  assumes ok: "consistent (cloud w)" and p: "pool_at (cloud w) i sl p" and lb: "lbID \<in> dom (map_of (loadBalancers (cloud w)))"
    and mon: "pl_MonitorID p \<noteq> ''''" and on: "HealthCheckEnabled settings"
  shows "succeeds w (bindG (ignoreNotFound fmt args (mutate fake_env ElbClient lbID (moDelete fake_env ElbClient (pl_MonitorID p))))
      (\<lambda>_. createMonitor fake_env ElbClient lbID p name settings port (desiredProbe settings service port)))
    (\<lambda>_ w'. monitor_ready i settings service port sl p (cloud w) (cloud w'))"
proof (rule succeeds_bind, rule succeeds_ignore, rule succeeds_mono [OF succeeds_deleteMonitor [OF ok p lb mon]])
  fix x and w1 :: "fakeELB world"
  let ?p = "p\<lparr>pl_MonitorID := ''''\<rparr>"
  assume "only_touches i (cloud w) (cloud w1) \<and> (\<exists>mo. sliceOf (cloud w1) i = Some (sl\<lparr>sl_pool := Some ?p, sl_monitor := mo\<rparr>))"
  then obtain mo where w1: "only_touches i (cloud w) (cloud w1)" "sliceOf (cloud w1) i = Some (sl\<lparr>sl_pool := Some ?p, sl_monitor := mo\<rparr>)"
    by blast
  let ?sl = "sl\<lparr>sl_pool := Some ?p, sl_monitor := mo\<rparr>"
  have "succeeds w1 (createMonitor fake_env ElbClient lbID p name settings port (desiredProbe settings service port))
      (\<lambda>_ w'. monitor_ready i settings service port ?sl ?p (cloud w1) (cloud w'))"
    by (rule succeeds_createMonitor) (use w1 p lb on in \<open>simp_all add: only_touches_def pool_at_def\<close>)
  then show "succeeds w1 (createMonitor fake_env ElbClient lbID p name settings port (desiredProbe settings service port))
      (\<lambda>_ w'. monitor_ready i settings service port sl p (cloud w) (cloud w'))"
  proof (rule succeeds_mono)
    fix y w' assume "monitor_ready i settings service port ?sl ?p (cloud w1) (cloud w')"
    then show "monitor_ready i settings service port sl p (cloud w) (cloud w')"
      using w1(1) by (auto simp: monitor_ready_def same_pool_def intro: only_touches_trans)
  qed
qed

text \<open>A monitor that is there: kept, updated or recreated.\<close>

lemma succeeds_adjustMonitor:
  assumes ok: "consistent (cloud w)" and p: "pool_at (cloud w) i sl p" and lb: "lbID \<in> dom (map_of (loadBalancers (cloud w)))"
    and vals: "check_values settings" and on: "HealthCheckEnabled settings" and mon: "pl_MonitorID p \<noteq> ''''"
    and mo: "sl_monitor sl = Some mo" and probe: "probe = desiredProbe settings service port"
  shows "succeeds w (if mo_Type mo \<noteq> pr_Type probe \<or> mo_MonitorPort mo \<noteq> pr_Port probe then
       bindG (ignoreNotFound fmt args
         (mutate fake_env ElbClient lbID (moDelete fake_env ElbClient (pl_MonitorID p)))) (\<lambda>_.
       createMonitor fake_env ElbClient lbID p name settings port probe)
     else if mo_Delay mo = HealthCheckDelay settings \<and> mo_Timeout mo = HealthCheckTimeout settings \<and>
         mo_MaxRetries mo = HealthCheckMaxRetries settings \<and> mo_URLPath mo = pr_URLPath probe \<and> mo_HTTPMethod mo = pr_HTTPMethod probe then
       returnG ()
     else
       wrapG fmt' args' (mutate fake_env ElbClient lbID
           (bindG (moUpdate fake_env ElbClient (pl_MonitorID p) \<lparr>ou_Delay = HealthCheckDelay settings,
               ou_Timeout = HealthCheckTimeout settings, ou_MaxRetries = HealthCheckMaxRetries settings,
               ou_URLPath = pr_URLPath probe, ou_HTTPMethod = pr_HTTPMethod probe\<rparr>) (\<lambda>_. returnG ()))))
    (\<lambda>_ w'. monitor_ready i settings service port sl p (cloud w) (cloud w'))"
proof (cases "mo_Type mo \<noteq> pr_Type probe \<or> mo_MonitorPort mo \<noteq> pr_Port probe")
  case True
  show ?thesis
    unfolding if_P [OF True] unfolding probe by (rule succeeds_recreateMonitor [OF ok p lb mon on])
next
  case Kind: False
  show ?thesis
  proof (cases "mo_Delay mo = HealthCheckDelay settings \<and> mo_Timeout mo = HealthCheckTimeout settings \<and>
      mo_MaxRetries mo = HealthCheckMaxRetries settings \<and> mo_URLPath mo = pr_URLPath probe \<and> mo_HTTPMethod mo = pr_HTTPMethod probe")
    case True
    then have "probed settings service port p (sl_monitor sl)"
      using Kind on mon mo probe by (simp add: probed_def probes_def)
    then show ?thesis
      unfolding if_not_P [OF Kind] if_P [OF True] using ok p by (simp add: succeeds_return monitor_readyI)
  next
    case Values: False
    show ?thesis
      unfolding if_not_P [OF Kind] if_not_P [OF Values] unfolding probe
      using succeeds_updateMonitor [OF ok p lb on vals mon mo] Kind unfolding probe by (intro succeeds_wrap) simp
  qed
qed

lemma succeeds_reconcileMonitor:
  assumes ok: "consistent (cloud w)" and p: "pool_at (cloud w) i sl p" and lb: "lbID \<in> dom (map_of (loadBalancers (cloud w)))"
    and vals: "check_values settings"
  shows "succeeds w (reconcileMonitor fake_env ElbClient lbID p name settings service port)
    (\<lambda>_ w'. monitor_ready i settings service port sl p (cloud w) (cloud w'))"
proof (cases "HealthCheckEnabled settings")
  case False
  show ?thesis
  proof (cases "pl_MonitorID p = ''''")
    case True
    then show ?thesis
      using False ok p by (simp add: reconcileMonitor_def succeeds_return monitor_readyI probed_def)
  next
    case Some: False
    show ?thesis
      unfolding reconcileMonitor_def Let_def if_P [OF False] if_not_P [OF Some]
      by (rule succeeds_ignore, rule succeeds_mono [OF succeeds_deleteMonitor [OF ok p lb Some]])
        (use False in \<open>auto simp: monitor_ready_def same_pool_def probed_def\<close>)
  qed
next
  case on: True
  then have nn: "\<not> \<not> HealthCheckEnabled settings" by simp
  show ?thesis
  proof (cases "pl_MonitorID p = ''''")
    case True
    show ?thesis
      unfolding reconcileMonitor_def Let_def if_not_P [OF nn] if_P [OF True]
      by (rule succeeds_createMonitor [OF ok p lb refl on])
  next
    case Some: False
    obtain l where l: "map_of (pools (cloud w)) (pl_ID p) = Some p" "sl_monitor sl = map_option fm_obj (map_of (monitors (cloud w)) (pl_MonitorID p))"
      using p by (rule pool_atE)
    obtain m where m: "map_of (monitors (cloud w)) (pl_MonitorID p) = Some m"
      using ok l(1) Some by (rule pool_monitor)
    have mo: "sl_monitor sl = Some (fm_obj m)" using l(2) m by simp
    have get: "monitors_Get fake_env ElbClient (pl_MonitorID p) (cloud w) = (Inr (fm_obj m), cloud w)"
      using m by (simp add: fake_fields onElb_def fake_moGet_def getItem_def)
    let ?w = "w\<lparr>cloud := cloud w, trace := trace w @ [MoGet (pl_MonitorID p) (Inr (fm_obj m))]\<rparr>"
    have w1: "consistent (cloud ?w)" "pool_at (cloud ?w) i sl p" "lbID \<in> dom (map_of (loadBalancers (cloud ?w)))" "cloud ?w = cloud w"
      using ok p lb by simp_all
    show ?thesis
      unfolding reconcileMonitor_def Let_def if_not_P [OF nn] if_not_P [OF Some] moGet_def
      by (rule succeeds_bind, rule succeeds_wrap, rule succeeds_sdkCall, rule get)
        (rule succeeds_adjustMonitor [OF w1(1,2,3) vals on Some mo refl, unfolded w1(4)])
  qed
qed


end
