(* ===== verification/Fake_Ports.thy ===== *)
theory Fake_Ports
  imports Fake_Runs
begin

section \<open>One port, one listener on the fake ELB\<close>

text \<open>
  \<open>reconcilePort\<close> settles the listener of its port, taken from the list or created, and touches no
  other; \<open>deleteListener\<close> removes a listener with what hangs on it, and touches no other. \<open>holder\<close> is
  the listener that \<open>listenersByKey\<close> finds, read off the roster.
\<close>

subsection \<open>The listener of a key\<close>

definition holder :: "(string \<times> string \<times> string \<times> string) list \<Rightarrow> string \<Rightarrow> (string \<rightharpoonup> string)" where
  "holder r lbID = foldl (\<lambda>m (i, b, n, k). if b = lbID then m(k \<mapsto> i) else m) Map.empty r"

lemma holder_Nil [simp]: "holder [] lbID = Map.empty"
  by (simp add: holder_def)

lemma holder_snoc [simp]:
  "holder (r @ [(i, b, n, k)]) lbID = (if b = lbID then (holder r lbID)(k \<mapsto> i) else holder r lbID)"
  by (simp add: holder_def)

lemma holder_Some: "holder r lbID k = Some i \<Longrightarrow> \<exists>n. (i, lbID, n, k) \<in> set r"
proof (induction r rule: rev_induct)
  case (snoc e r)
  then show ?case by (cases e) (auto split: if_splits)
qed simp

lemma holder_append:
  "(\<forall>e \<in> set R. fst (snd e) = lbID \<longrightarrow> snd (snd (snd e)) \<noteq> k) \<Longrightarrow> holder (r @ R) lbID k = holder r lbID k"
proof (induction R rule: rev_induct)
  case (snoc e R)
  obtain i b n k' where e: "e = (i, b, n, k')" by (cases e)
  have "holder (r @ R @ [e]) lbID k = holder (r @ R) lbID k"
    using snoc.prems holder_snoc [of "r @ R" i b n k' lbID] by (auto simp: e)
  then show ?case using snoc by simp
qed simp

lemma holder_filter:
  "(\<forall>e \<in> set r. \<not> P e \<longrightarrow> fst (snd e) = lbID \<longrightarrow> snd (snd (snd e)) \<noteq> k) \<Longrightarrow> holder (filter P r) lbID k = holder r lbID k"
proof (induction r rule: rev_induct)
  case (snoc e r)
  then show ?case by (cases e) auto
qed simp

definition entry :: "string \<times> FakeListener \<Rightarrow> string \<times> string \<times> string \<times> string" where
  "entry x = (fst x, fl_loadbalancer_id (snd x), ls_Name (fl_obj (snd x)), listenerKey (fl_obj (snd x)))"

lemma roster_entries: "roster s = map entry (listeners s)"
  by (auto simp: roster_def entry_def)

lemma holder_listed:
  "distinct (map fst xs) \<Longrightarrow>
   listenersByKey (map fl_obj (filter (\<lambda>l. fl_loadbalancer_id l = lbID) (map snd xs))) key =
     Option.bind (holder (map entry xs) lbID key) (\<lambda>i. map_option fl_obj (map_of xs i))"
proof (induction xs arbitrary: key rule: rev_induct)
  case Nil
  then show ?case by (simp add: listenersByKey_def)
next
  case (snoc x xs)
  obtain i l where x: "x = (i, l)" by (cases x)
  have i: "i \<notin> fst ` set xs" using snoc.prems x by auto
  have old: "map_of (xs @ [x]) j = map_of xs j" if "holder (map entry xs) lbID key = Some j" for j key
  proof -
    from holder_Some [OF that] have "j \<in> fst ` set xs" by (auto simp: entry_def image_iff)
    then have "j \<noteq> i" using i by blast
    then show ?thesis by (auto simp: x map_add_def split: option.split)
  qed
  have new: "map_of (xs @ [x]) i = Some l"
    using map_of_snoc [of i xs l] i by (simp add: x dom_map_of_conv_image_fst del: map_of_append)
  have IH: "listenersByKey (map fl_obj (filter (\<lambda>l. fl_loadbalancer_id l = lbID) (map snd xs))) k =
     Option.bind (holder (map entry xs) lbID k) (\<lambda>i. map_option fl_obj (map_of (xs @ [x]) i))" for k
    using snoc.IH [of k] snoc.prems old [of k] by (cases "holder (map entry xs) lbID k") simp_all
  have "entry x = (i, fl_loadbalancer_id l, ls_Name (fl_obj l), listenerKey (fl_obj l))" by (simp add: x entry_def)
  then show ?case
    using IH [of key] new by (auto simp: x listenersByKey_snoc simp del: map_of_append)
qed

lemma roster_ids:
  assumes "consistent s"
  shows "distinct (map fst (roster s))" and "i \<in> fst ` set (roster s) \<longleftrightarrow> i \<in> dom (map_of (listeners s))"
proof -
  have "map fst (roster s) = map fst (listeners s)" by (simp add: roster_entries entry_def)
  then show "distinct (map fst (roster s))" using consistentD(4) [OF assms] by simp
  show "i \<in> fst ` set (roster s) \<longleftrightarrow> i \<in> dom (map_of (listeners s))"
    by (simp add: roster_entries entry_def image_image dom_map_of_conv_image_fst)
qed

lemma roster_key:
  assumes "consistent s" and "(i, b, n, k) \<in> set (roster s)"
  shows "\<exists>sl. sliceOf s i = Some sl \<and> listenerKey (sl_listener sl) = k \<and> ls_Name (sl_listener sl) = n"
proof -
  obtain l where l: "(i, l) \<in> set (listeners s)" "ls_Name (fl_obj l) = n" "listenerKey (fl_obj l) = k"
    using assms(2) by (auto simp: roster_entries entry_def)
  then have "map_of (listeners s) i = Some l" using consistentD(4) [OF assms(1)] by (simp add: map_of_is_SomeI)
  then show ?thesis using l by (simp add: sliceOf_def Let_def)
qed

lemma list_listeners:
  assumes "lbID \<noteq> ''''"
  shows "listeners_List fake_env ElbClient lbID s =
    (Inr (Inr (map fl_obj (filter (\<lambda>l. fl_loadbalancer_id l = lbID) (map snd (listeners s))))), s)"
  using assms by (simp add: fake_fields onElb_def fake_lsList_def)

lemma key_listener:
  assumes "consistent s"
  shows "listenersByKey (map fl_obj (filter (\<lambda>l. fl_loadbalancer_id l = lbID) (map snd (listeners s)))) key =
    Option.bind (holder (roster s) lbID key) (\<lambda>i. map_option sl_listener (sliceOf s i))"
  unfolding holder_listed [OF consistentD(4) [OF assms]] roster_entries [symmetric]
  by (cases "holder (roster s) lbID key") (simp_all add: sliceOf_def option.map_comp o_def Let_def)

subsection \<open>Settling a port\<close>

text \<open>The part of \<open>reconcilePort\<close> after the listener is there, and what it does to the listener's slice.\<close>

abbreviation settleListener ::
  "BalancerObj \<Rightarrow> string \<Rightarrow> serviceSettings \<Rightarrow> Service \<Rightarrow> Node list \<Rightarrow> ListenerObj \<Rightarrow> ServicePort \<Rightarrow> (fakeELB world, unit) go" where
  "settleListener b name settings service nodes l port \<equiv>
     bindG (reconcileIPGroup fake_env ElbClient (lb_ID b) l name service port) (\<lambda>_.
     bindG (ensurePool fake_env ElbClient (lb_ID b) l name settings service port) (\<lambda>pool.
     bindG (reconcileMembers fake_env ElbClient b (pl_ID pool) (NodePort port) nodes) (\<lambda>_.
     reconcileMonitor fake_env ElbClient (lb_ID b) pool name settings service port)))"

definition listener_ready ::
  "string \<Rightarrow> serviceSettings \<Rightarrow> Service \<Rightarrow> Node list \<Rightarrow> ServicePort \<Rightarrow> string \<Rightarrow> Slice \<Rightarrow> fakeELB \<Rightarrow> fakeELB \<Rightarrow> bool" where
  "listener_ready name settings service nodes port i sl s s' \<longleftrightarrow> only_touches i s s' \<and>
     (\<exists>sl'. sliceOf s' i = Some sl' \<and> slice_settled name settings service nodes port sl' \<and>
       (own_slice name port sl \<longrightarrow> own_slice name port sl'))"

lemma listener_readyE:
  assumes "listener_ready name settings service nodes port i sl s s'"
  obtains sl' where "only_touches i s s'" and "sliceOf s' i = Some sl'" and "slice_settled name settings service nodes port sl'"
    and "own_slice name port sl \<longrightarrow> own_slice name port sl'"
  using assms unfolding listener_ready_def by blast

text \<open>A listener with its whitelist and pool gets its members and monitor.\<close>

lemma succeeds_fillPool:
  assumes ok: "consistent (cloud w)" and sl: "sliceOf (cloud w) i = Some sl" and lb: "lb_ID b \<in> dom (map_of (loadBalancers (cloud w)))"
    and p: "sl_pool sl = Some p" "ls_DefaultPoolID (sl_listener sl) = pl_ID p" "pl_ID p \<noteq> ''''" "pool_settled settings service p"
    and white: "whitelisted name service port sl" and port: "serveable nodes port" and vals: "check_values settings"
  shows "succeeds w (bindG (reconcileMembers fake_env ElbClient b (pl_ID p) (NodePort port) nodes) (\<lambda>_.
      reconcileMonitor fake_env ElbClient (lb_ID b) p name settings service port))
    (\<lambda>_ w'. listener_ready name settings service nodes port i sl (cloud w) (cloud w'))"
proof (rule succeeds_bind, rule succeeds_mono [OF succeeds_reconcileMembers [OF ok sl lb p(2,3) port]])
  fix x3 and w3 :: "fakeELB world"
  assume "only_touches i (cloud w) (cloud w3) \<and>
    (\<exists>M. sliceOf (cloud w3) i = Some (sl\<lparr>sl_members := M\<rparr>) \<and> endpoint ` M = wantedEndpoints nodes port)"
  then obtain M where w3: "only_touches i (cloud w) (cloud w3)" "sliceOf (cloud w3) i = Some (sl\<lparr>sl_members := M\<rparr>)"
    and M: "endpoint ` M = wantedEndpoints nodes port" by (elim conjE exE)
  let ?sl3 = "sl\<lparr>sl_members := M\<rparr>"
  have ok3: "consistent (cloud w3)" "lb_ID b \<in> dom (map_of (loadBalancers (cloud w3)))" "pool_at (cloud w3) i ?sl3 p"
    using w3 lb p by (simp_all add: only_touches_def pool_at_def)
  show "succeeds w3 (reconcileMonitor fake_env ElbClient (lb_ID b) p name settings service port)
    (\<lambda>_ w'. listener_ready name settings service nodes port i sl (cloud w) (cloud w'))"
  proof (rule succeeds_mono [OF succeeds_reconcileMonitor [OF ok3(1,3,2) vals]])
    fix x4 and w4 :: "fakeELB world" assume "monitor_ready i settings service port ?sl3 p (cloud w3) (cloud w4)"
    then obtain q mo where w4: "only_touches i (cloud w3) (cloud w4)"
        "sliceOf (cloud w4) i = Some (?sl3\<lparr>sl_pool := Some q, sl_monitor := mo\<rparr>)"
      and q: "same_pool p q" "probed settings service port q mo"
      unfolding monitor_ready_def by (elim conjE exE)
    let ?sl4 = "?sl3\<lparr>sl_pool := Some q, sl_monitor := mo\<rparr>"
    have part: "group_part ?sl4 = group_part sl" by (simp add: group_part_def)
    have "whitelisted name service port ?sl4" using whitelisted_part [OF part] white by simp
    moreover have "pool_settled settings service q" using p(4) q(1) by (simp add: same_pool_def pool_settled_def)
    ultimately have "slice_settled name settings service nodes port ?sl4"
      using p(2,3) M q(2) by (simp add: slice_settled_def)
    then show "listener_ready name settings service nodes port i sl (cloud w) (cloud w4)"
      unfolding listener_ready_def
      using only_touches_trans [OF w3(1) w4(1)] w4(2) own_slice_part [OF part] by blast
  qed
qed

lemma succeeds_settleListener:
  assumes ok: "consistent (cloud w)" and sl: "sliceOf (cloud w) i = Some sl" and lb: "lb_ID b \<in> dom (map_of (loadBalancers (cloud w)))"
    and own: "no_foreign_group name service port sl" and port: "serveable nodes port" and vals: "check_values settings"
  shows "succeeds w (settleListener b name settings service nodes (sl_listener sl) port)
    (\<lambda>_ w'. listener_ready name settings service nodes port i sl (cloud w) (cloud w'))"
proof (rule succeeds_bind, rule succeeds_mono [OF succeeds_reconcileIPGroup [OF ok sl lb own]])
  fix x1 and w1 :: "fakeELB world" assume "group_ready i name service port sl (cloud w) (cloud w1)"
  then obtain sl1 where w1: "only_touches i (cloud w) (cloud w1)" "sliceOf (cloud w1) i = Some sl1"
    and sl1: "pool_part sl1 = pool_part sl" "whitelisted name service port sl1" "own_slice name port sl \<longrightarrow> own_slice name port sl1"
    by (auto simp: group_ready_def)
  have ok1: "consistent (cloud w1)" "lb_ID b \<in> dom (map_of (loadBalancers (cloud w1)))"
    using w1 lb by (simp_all add: only_touches_def)
  have l: "ls_ID (sl_listener sl) = i" "ls_DefaultPoolID (sl_listener sl) = ls_DefaultPoolID (sl_listener sl1)"
    using slice_id [OF ok sl] sl1(1) by (simp_all add: pool_part_def)
  show "succeeds w1 (bindG (ensurePool fake_env ElbClient (lb_ID b) (sl_listener sl) name settings service port) (\<lambda>pool.
     bindG (reconcileMembers fake_env ElbClient b (pl_ID pool) (NodePort port) nodes) (\<lambda>_.
     reconcileMonitor fake_env ElbClient (lb_ID b) pool name settings service port)))
    (\<lambda>_ w'. listener_ready name settings service nodes port i sl (cloud w) (cloud w'))"
  proof (rule succeeds_bind, rule succeeds_mono [OF succeeds_ensurePool [OF ok1(1) w1(2) ok1(2) l]])
    fix p and w2 :: "fakeELB world" assume "pool_ready i settings service sl1 (cloud w1) p (cloud w2)"
    then obtain sl2 where w2: "only_touches i (cloud w1) (cloud w2)" "sliceOf (cloud w2) i = Some sl2"
      and sl2: "group_part sl2 = group_part sl1" "sl_pool sl2 = Some p" "ls_DefaultPoolID (sl_listener sl2) = pl_ID p"
        "pl_ID p \<noteq> ''''" "pool_settled settings service p"
      by (auto simp: pool_ready_def)
    have ok2: "consistent (cloud w2)" "lb_ID b \<in> dom (map_of (loadBalancers (cloud w2)))"
      using w2 ok1 by (simp_all add: only_touches_def)
    have white: "whitelisted name service port sl2" using whitelisted_part [OF sl2(1)] sl1(2) by simp
    show "succeeds w2 (bindG (reconcileMembers fake_env ElbClient b (pl_ID p) (NodePort port) nodes) (\<lambda>_.
       reconcileMonitor fake_env ElbClient (lb_ID b) p name settings service port))
      (\<lambda>_ w'. listener_ready name settings service nodes port i sl (cloud w) (cloud w'))"
    proof (rule succeeds_mono [OF succeeds_fillPool [OF ok2(1) w2(2) ok2(2) sl2(2-5) white port vals]])
      fix x and w' :: "fakeELB world" assume "listener_ready name settings service nodes port i sl2 (cloud w2) (cloud w')"
      then show "listener_ready name settings service nodes port i sl (cloud w) (cloud w')"
        using only_touches_trans [OF only_touches_trans [OF w1(1) w2(1)]] own_slice_part [OF sl2(1)] sl1(3)
        unfolding listener_ready_def by blast
    qed
  qed
qed

text \<open>The idle timeout is no part of the slice: the SDK's listener does not show it.\<close>

lemma succeeds_setTimeout:
  assumes ok: "consistent (cloud w)" and sl: "sliceOf (cloud w) i = Some sl" and lb: "lbID \<in> dom (map_of (loadBalancers (cloud w)))"
  shows "succeeds w (mutate fake_env ElbClient lbID (bindG (lsUpdate fake_env ElbClient i
      \<lparr>nu_KeepAliveTimeout = t, nu_IpGroup = None\<rparr>) (\<lambda>_. returnG ())))
    (\<lambda>_ w'. only_touches i (cloud w) (cloud w') \<and> sliceOf (cloud w') i = Some sl)"
proof -
  obtain l where l: "map_of (listeners (cloud w)) i = Some l" "fl_obj l = sl_listener sl"
    using sl by (rule sliceE)
  let ?l = "l\<lparr>fl_keepalive := (if t = 0 then fl_keepalive l else t)\<rparr>"
  let ?s = "cloud w\<lparr>listeners := AList.update i ?l (listeners (cloud w))\<rparr>"
  have upd: "listeners_Update fake_env ElbClient i \<lparr>nu_KeepAliveTimeout = t, nu_IpGroup = None\<rparr> (cloud w) = (Inr (fl_obj l), ?s)"
    by (simp add: fake_fields onElb_def fake_lsUpdate_def l(1) Let_def)
  have touch: "only_touches i (cloud w) ?s"
    by (rule update_listener_touches [OF ok l(1)]) (use slice_id [OF ok sl] l(2) in simp_all)
  have "sliceOf ?s i = Some sl"
    using sl l(1) by (simp add: sliceOf_def Let_def update_conv' fake_store_def)
  moreover have "active lbID ?s" using touch lb by (intro consistent_active) (auto simp: only_touches_def)
  ultimately show ?thesis
    by (intro succeeds_mutate succeeds_bind, unfold lsUpdate_def)
      (rule succeeds_sdkCall, rule upd, rule succeeds_return, use touch in \<open>auto simp: steady_def\<close>)
qed

text \<open>\<open>s'\<close> is \<open>s\<close> with the listener \<open>i\<close> of \<open>port\<close> settled; \<open>i\<close> held the port's key before, or nobody did
  and it is new.\<close>

definition adds_listener :: "string \<Rightarrow> string \<Rightarrow> ServicePort \<Rightarrow> string \<Rightarrow> fakeELB \<Rightarrow> fakeELB \<Rightarrow> bool" where
  "adds_listener lbID name port i s s' \<longleftrightarrow> holder (roster s) lbID (portKey port) = None \<and> i \<notin> fst ` set (roster s) \<and>
     roster s' = roster s @ [(i, lbID, resourceName name port, portKey port)]"

text \<open>The listeners of a balancer are the Service's own: named after their ports, with no foreign group.\<close>

definition tidy_slice :: "string \<Rightarrow> Slice \<Rightarrow> bool" where
  "tidy_slice name sl \<longleftrightarrow> (\<exists>port. ls_Name (sl_listener sl) = resourceName name port \<and>
     listenerKey (sl_listener sl) = portKey port \<and> own_slice name port sl)"

definition tidy :: "string \<Rightarrow> string \<Rightarrow> fakeELB \<Rightarrow> bool" where
  "tidy lbID name s \<longleftrightarrow> (\<forall>(i, b, n, k) \<in> set (roster s). b = lbID \<longrightarrow> (\<forall>sl. sliceOf s i = Some sl \<longrightarrow> tidy_slice name sl))"

lemma tidyD: "tidy lbID name s \<Longrightarrow> (i, lbID, n, k) \<in> set (roster s) \<Longrightarrow> sliceOf s i = Some sl \<Longrightarrow> tidy_slice name sl"
  unfolding tidy_def by blast

lemma tidyI: "(\<And>i n k sl. (i, lbID, n, k) \<in> set (roster s) \<Longrightarrow> sliceOf s i = Some sl \<Longrightarrow> tidy_slice name sl) \<Longrightarrow> tidy lbID name s"
  unfolding tidy_def by blast

lemma resourceName_key: "portKey p = portKey q \<Longrightarrow> resourceName name p = resourceName name q"
  by (simp add: portKey_inject resourceName_def)

text \<open>A listener that keeps name and key and only gets groups of its port stays tidy.\<close>

lemma tidy_slice_step:
  assumes "tidy_slice name sl" and "ls_Name (sl_listener sl') = ls_Name (sl_listener sl)"
    and "listenerKey (sl_listener sl') = listenerKey (sl_listener sl)" and "listenerKey (sl_listener sl) = portKey port"
    and "own_slice name port sl \<longrightarrow> own_slice name port sl'"
  shows "tidy_slice name sl'"
proof -
  obtain q where q: "ls_Name (sl_listener sl) = resourceName name q" "listenerKey (sl_listener sl) = portKey q" "own_slice name q sl"
    using assms(1) unfolding tidy_slice_def by blast
  then have "resourceName name q = resourceName name port" using assms(4) resourceName_key by metis
  then have "own_slice name port sl" using q(3) by (simp add: own_slice_def)
  then show ?thesis
    unfolding tidy_slice_def using assms q \<open>resourceName name q = resourceName name port\<close> by (intro exI [of _ port]) simp
qed

lemma slice_entry:
  assumes ok: "consistent s" and "(i, b, n, k) \<in> set (roster s)" and "sliceOf s i = Some sl"
  shows "ls_Name (sl_listener sl) = n" and "listenerKey (sl_listener sl) = k"
  using roster_key [OF assms(1,2)] assms(3) by auto

lemma tidy_touch:
  assumes ok: "consistent s" "consistent s'" and r: "roster s' = roster s" and rest: "\<And>j. j \<noteq> i \<Longrightarrow> sliceOf s' j = sliceOf s j"
    and i: "(i, lbID, n, portKey port) \<in> set (roster s)" and sl: "sliceOf s i = Some sl" "sliceOf s' i = Some sl'"
    and own: "own_slice name port sl \<longrightarrow> own_slice name port sl'" and tidy: "tidy lbID name s"
  shows "tidy lbID name s'"
proof (rule tidyI)
  fix j m k sl2 assume j: "(j, lbID, m, k) \<in> set (roster s')" "sliceOf s' j = Some sl2"
  show "tidy_slice name sl2"
  proof (cases "j = i")
    case True
    have i': "(i, lbID, n, portKey port) \<in> set (roster s')" using i r by simp
    show ?thesis
      using tidy_slice_step [OF tidyD [OF tidy i sl(1)] _ _ _ own] slice_entry [OF ok(1) i sl(1)] slice_entry [OF ok(2) i' sl(2)]
        j(2) sl(2) True by simp
  next
    case False
    then show ?thesis using tidyD [OF tidy, of j m k sl2] j r rest by simp
  qed
qed

lemma tidy_add:
  assumes ok: "consistent s'" and r: "roster s' = roster s @ [(i, lbID, resourceName name port, portKey port)]"
    and rest: "\<And>j. j \<noteq> i \<Longrightarrow> sliceOf s' j = sliceOf s j" and i: "i \<notin> fst ` set (roster s)"
    and sl: "sliceOf s' i = Some sl" "own_slice name port sl" and tidy: "tidy lbID name s"
  shows "tidy lbID name s'"
proof (rule tidyI)
  fix j m k sl2 assume j: "(j, lbID, m, k) \<in> set (roster s')" "sliceOf s' j = Some sl2"
  show "tidy_slice name sl2"
  proof (cases "j = i")
    case True
    have "(i, lbID, resourceName name port, portKey port) \<in> set (roster s')" using r by simp
    from slice_entry [OF ok this sl(1)] show ?thesis
      using sl j(2) True unfolding tidy_slice_def by (intro exI [of _ port]) simp
  next
    case False
    then have "(j, lbID, m, k) \<in> set (roster s)" using j(1) r by auto
    then show ?thesis using tidyD [OF tidy, of j m k sl2] j(2) rest False by simp
  qed
qed

definition port_ready ::
  "string \<Rightarrow> string \<Rightarrow> serviceSettings \<Rightarrow> Service \<Rightarrow> Node list \<Rightarrow> ServicePort \<Rightarrow> string \<Rightarrow> fakeELB \<Rightarrow> fakeELB \<Rightarrow> bool" where
  "port_ready lbID name settings service nodes port i s s' \<longleftrightarrow>
     consistent s' \<and> loadBalancers s' = loadBalancers s \<and> (\<forall>j. j \<noteq> i \<longrightarrow> sliceOf s' j = sliceOf s j) \<and>
     (\<exists>sl. sliceOf s' i = Some sl \<and> slice_settled name settings service nodes port sl) \<and>
     (tidy lbID name s \<longrightarrow> tidy lbID name s') \<and>
     (holder (roster s) lbID (portKey port) = Some i \<and> roster s' = roster s \<or> adds_listener lbID name port i s s')"

lemma succeeds_createListener:
  assumes ok: "consistent (cloud w)" and lb: "lbID \<in> dom (map_of (loadBalancers (cloud w)))"
    and free: "holder (roster (cloud w)) lbID (portKey port) = None"
  shows "succeeds w (bindG (createListener fake_env ElbClient lbID name settings port) derefG)
    (\<lambda>l w'. \<exists>i sl. consistent (cloud w') \<and> loadBalancers (cloud w') = loadBalancers (cloud w) \<and>
       (\<forall>j. j \<noteq> i \<longrightarrow> sliceOf (cloud w') j = sliceOf (cloud w) j) \<and> sliceOf (cloud w') i = Some sl \<and> sl_listener sl = l \<and>
       ls_IpGroupID l = '''' \<and> adds_listener lbID name port i (cloud w) (cloud w'))"
proof -
  let ?o = "\<lparr>nc_LoadbalancerID = lbID, nc_Name = resourceName name port, nc_Protocol = Protocol port,
     nc_ProtocolPort = Port port, nc_KeepAliveTimeout = IdleTimeout settings\<rparr>"
  let ?i = "genID ''listener'' (nextID (cloud w) + 1)"
  let ?l = "\<lparr>ls_ID = ?i, ls_Name = nc_Name ?o, ls_Protocol = nc_Protocol ?o,
             ls_ProtocolPort = nc_ProtocolPort ?o, ls_DefaultPoolID = '''', ls_IpGroupID = '''', ls_IpGroupEnable = None\<rparr>"
  let ?fl = "\<lparr>fl_obj = ?l, fl_loadbalancer_id = lbID, fl_keepalive = IdleTimeout settings\<rparr>"
  let ?s = "cloud w\<lparr>nextID := nextID (cloud w) + 1, listeners := listeners (cloud w) @ [(?i, ?fl)]\<rparr>"
  have create: "listeners_Create fake_env ElbClient ?o (cloud w) = (Inr ?l, ?s)"
    by (simp add: fake_fields onElb_def fake_lsCreate_def Let_def)
  then have create': "listeners_Create fake_env ElbClient ?o (cloud (w\<lparr>v_listener := None\<rparr>)) = (Inr ?l, ?s)" by simp
  have new: "consistent ?s \<and> roster ?s = roster (cloud w) @ [(?i, fl_loadbalancer_id ?fl, ls_Name (fl_obj ?fl), listenerKey (fl_obj ?fl))] \<and>
    (\<forall>j. j \<noteq> ?i \<longrightarrow> sliceOf ?s j = sliceOf (cloud w) j) \<and> map_option sl_listener (sliceOf ?s ?i) = Some (fl_obj ?fl) \<and>
    loadBalancers ?s = loadBalancers (cloud w) \<and> ?i \<notin> fst ` set (roster (cloud w))"
    by (rule new_listener [OF ok refl]) simp_all
  then obtain sl where sl: "sliceOf ?s ?i = Some sl" "sl_listener sl = ?l" by auto
  have key: "listenerKey ?l = portKey port" by (simp add: listenerKey_def portKey_def)
  have adds: "adds_listener lbID name port ?i (cloud w) ?s"
    unfolding adds_listener_def using new free key by simp
  have act: "active lbID ?s" using new lb by (intro consistent_active) auto
  have done': "\<exists>i sl. consistent ?s \<and> loadBalancers ?s = loadBalancers (cloud w) \<and>
       (\<forall>j. j \<noteq> i \<longrightarrow> sliceOf ?s j = sliceOf (cloud w) j) \<and> sliceOf ?s i = Some sl \<and> sl_listener sl = ?l \<and>
       ls_IpGroupID ?l = '''' \<and> adds_listener lbID name port i (cloud w) ?s"
    by (rule exI [of _ ?i], rule exI [of _ sl]) (use new sl adds in simp)
  have "succeeds (w\<lparr>v_listener := None\<rparr>) (mutate fake_env ElbClient lbID (bindG (lsCreate fake_env ElbClient ?o)
      (\<lambda>l. modifyG (\<lambda>w. w\<lparr>v_listener := Some l\<rparr>)))) (\<lambda>_ w'. v_listener w' = Some ?l \<and> cloud w' = ?s)"
    by (rule succeeds_mutate, rule succeeds_bind, unfold lsCreate_def, rule succeeds_sdkCall, rule create', rule succeeds_modify)
      (use act in \<open>auto simp: steady_def\<close>)
  then show ?thesis
    unfolding createListener_def bindG_assoc
  proof (intro succeeds_bind succeeds_modify succeeds_wrap, elim succeeds_mono)
    fix x and w' :: "fakeELB world" assume w': "v_listener w' = Some ?l \<and> cloud w' = ?s"
    show "succeeds w' (bindG (getG v_listener) derefG) (\<lambda>l w'. \<exists>i sl. consistent (cloud w') \<and>
       loadBalancers (cloud w') = loadBalancers (cloud w) \<and>
       (\<forall>j. j \<noteq> i \<longrightarrow> sliceOf (cloud w') j = sliceOf (cloud w) j) \<and> sliceOf (cloud w') i = Some sl \<and> sl_listener sl = l \<and>
       ls_IpGroupID l = '''' \<and> adds_listener lbID name port i (cloud w) (cloud w'))"
      by (rule succeeds_bind, rule succeeds_get, rule succeeds_deref [where x = ?l]) (use w' done' in simp_all)
  qed
qed

text \<open>The port is ready when its listener is, an old one or a new one.\<close>

lemma old_port_ready:
  assumes ok: "consistent s" and i: "holder (roster s) lbID (portKey port) = Some i" and sl: "sliceOf s i = Some sl"
    and s1: "only_touches i s s1" and ready: "listener_ready name settings service nodes port i sl s1 s'"
  shows "port_ready lbID name settings service nodes port i s s'"
proof -
  obtain sl' where s': "only_touches i s1 s'" "sliceOf s' i = Some sl'" "slice_settled name settings service nodes port sl'"
    and own: "own_slice name port sl \<longrightarrow> own_slice name port sl'" using ready by (rule listener_readyE)
  have ok': "consistent s'" "loadBalancers s' = loadBalancers s" "roster s' = roster s" "\<And>j. j \<noteq> i \<Longrightarrow> sliceOf s' j = sliceOf s j"
    using s'(1) s1 by (simp_all add: only_touches_def)
  obtain n where "(i, lbID, n, portKey port) \<in> set (roster s)" using holder_Some [OF i] by blast
  from tidy_touch [OF ok ok'(1,3,4) this sl s'(2) own] have "tidy lbID name s \<longrightarrow> tidy lbID name s'" by blast
  then show ?thesis unfolding port_ready_def using ok' s' i by simp
qed

lemma new_port_ready:
  assumes s1: "loadBalancers s1 = loadBalancers s" "\<And>j. j \<noteq> i \<Longrightarrow> sliceOf s1 j = sliceOf s j"
    and adds: "adds_listener lbID name port i s s1" and bare: "ls_IpGroupID (sl_listener sl) = ''''"
    and ready: "listener_ready name settings service nodes port i sl s1 s'"
  shows "port_ready lbID name settings service nodes port i s s'"
proof -
  obtain sl' where s': "only_touches i s1 s'" "sliceOf s' i = Some sl'" "slice_settled name settings service nodes port sl'"
    and own: "own_slice name port sl \<longrightarrow> own_slice name port sl'" using ready by (rule listener_readyE)
  have ok': "consistent s'" "loadBalancers s' = loadBalancers s" "roster s' = roster s1" "\<And>j. j \<noteq> i \<Longrightarrow> sliceOf s' j = sliceOf s j"
    using s'(1) s1 by (simp_all add: only_touches_def)
  have "own_slice name port sl'" using own bare by (simp add: own_slice_def)
  then have "tidy lbID name s \<longrightarrow> tidy lbID name s'"
    using tidy_add [OF ok'(1) _ ok'(4) _ s'(2)] adds by (auto simp: adds_listener_def ok'(3))
  then show ?thesis unfolding port_ready_def using ok' s' adds by (simp add: adds_listener_def)
qed

lemma succeeds_newPort:
  assumes ok: "consistent (cloud w)" and lb: "lb_ID b \<in> dom (map_of (loadBalancers (cloud w)))"
    and free: "holder (roster (cloud w)) (lb_ID b) (portKey port) = None" and key: "byKey (portKey port) = None"
    and port: "serveable nodes port" and vals: "check_values settings"
  shows "succeeds w (reconcilePort fake_env ElbClient b name settings service nodes byKey port)
    (\<lambda>_ w'. \<exists>i. port_ready (lb_ID b) name settings service nodes port i (cloud w) (cloud w'))"
  unfolding reconcilePort_def key option.case
proof (rule succeeds_bind, rule succeeds_mono [OF succeeds_createListener [OF ok lb free]])
  fix l and w1 :: "fakeELB world"
  assume "\<exists>i sl. consistent (cloud w1) \<and> loadBalancers (cloud w1) = loadBalancers (cloud w) \<and>
     (\<forall>j. j \<noteq> i \<longrightarrow> sliceOf (cloud w1) j = sliceOf (cloud w) j) \<and> sliceOf (cloud w1) i = Some sl \<and> sl_listener sl = l \<and>
     ls_IpGroupID l = '''' \<and> adds_listener (lb_ID b) name port i (cloud w) (cloud w1)"
  then obtain i sl where w1: "consistent (cloud w1)" "loadBalancers (cloud w1) = loadBalancers (cloud w)"
      "\<forall>j. j \<noteq> i \<longrightarrow> sliceOf (cloud w1) j = sliceOf (cloud w) j" "sliceOf (cloud w1) i = Some sl"
    and l: "sl_listener sl = l" "ls_IpGroupID l = ''''" and adds: "adds_listener (lb_ID b) name port i (cloud w) (cloud w1)"
    by (elim exE conjE)
  have pre: "lb_ID b \<in> dom (map_of (loadBalancers (cloud w1)))" "no_foreign_group name service port sl"
    using lb w1(2) l by (simp_all add: no_foreign_group_def)
  show "succeeds w1 (settleListener b name settings service nodes l port)
      (\<lambda>_ w'. \<exists>i. port_ready (lb_ID b) name settings service nodes port i (cloud w) (cloud w'))"
    unfolding l(1) [symmetric]
    by (rule succeeds_mono [OF succeeds_settleListener [OF w1(1,4) pre port vals]], rule exI, rule new_port_ready [OF w1(2) _ adds])
      (use w1(3) l in auto)
qed

lemma succeeds_oldPort:
  assumes ok: "consistent (cloud w)" and lb: "lb_ID b \<in> dom (map_of (loadBalancers (cloud w)))"
    and i: "holder (roster (cloud w)) (lb_ID b) (portKey port) = Some i" and sl: "sliceOf (cloud w) i = Some sl"
    and key: "byKey (portKey port) = Some (sl_listener sl)" and own: "no_foreign_group name service port sl"
    and port: "serveable nodes port" and vals: "check_values settings"
  shows "succeeds w (reconcilePort fake_env ElbClient b name settings service nodes byKey port)
    (\<lambda>_ w'. \<exists>i. port_ready (lb_ID b) name settings service nodes port i (cloud w) (cloud w'))"
proof -
  have id: "ls_ID (sl_listener sl) = i" using ok sl by (rule slice_id)
  have rest: "succeeds w1 (settleListener b name settings service nodes (sl_listener sl) port)
      (\<lambda>_ w'. \<exists>i. port_ready (lb_ID b) name settings service nodes port i (cloud w) (cloud w'))"
    if w1: "only_touches i (cloud w) (cloud w1) \<and> sliceOf (cloud w1) i = Some sl" for w1
  proof -
    have ok1: "consistent (cloud w1)" "sliceOf (cloud w1) i = Some sl" "lb_ID b \<in> dom (map_of (loadBalancers (cloud w1)))"
      using w1 lb by (simp_all add: only_touches_def)
    show ?thesis
      by (rule succeeds_mono [OF succeeds_settleListener [OF ok1 own port vals]], rule exI, rule old_port_ready [OF ok i sl]) (use w1 in simp_all)
  qed
  show ?thesis
  proof (cases "IdleTimeout settings > 0")
    case True
    show ?thesis
      unfolding reconcilePort_def key option.case if_P [OF True] id bindG_assoc bindG_return
      by (rule succeeds_bind, rule succeeds_wrap, rule succeeds_mono [OF succeeds_setTimeout [OF ok sl lb]], rule rest)
  next
    case False
    show ?thesis
      unfolding reconcilePort_def key option.case if_not_P [OF False] bindG_return
      by (rule rest) (use ok sl in \<open>simp add: only_touches_refl\<close>)
  qed
qed

lemma succeeds_reconcilePort:
  assumes ok: "consistent (cloud w)" and lb: "lb_ID b \<in> dom (map_of (loadBalancers (cloud w)))"
    and key: "byKey (portKey port) = Option.bind (holder (roster (cloud w)) (lb_ID b) (portKey port)) (\<lambda>i. map_option sl_listener (sliceOf (cloud w) i))"
    and own: "\<And>i sl. holder (roster (cloud w)) (lb_ID b) (portKey port) = Some i \<Longrightarrow> sliceOf (cloud w) i = Some sl \<Longrightarrow>
      no_foreign_group name service port sl"
    and port: "serveable nodes port" and vals: "check_values settings"
  shows "succeeds w (reconcilePort fake_env ElbClient b name settings service nodes byKey port)
    (\<lambda>_ w'. \<exists>i. port_ready (lb_ID b) name settings service nodes port i (cloud w) (cloud w'))"
proof (cases "holder (roster (cloud w)) (lb_ID b) (portKey port)")
  case None
  show ?thesis by (rule succeeds_newPort [OF ok lb None _ port vals]) (simp add: key None)
next
  case (Some i)
  obtain sl where sl: "sliceOf (cloud w) i = Some sl"
    using holder_Some [OF Some] roster_key [OF ok] by blast
  show ?thesis by (rule succeeds_oldPort [OF ok lb Some sl _ own [OF Some sl] port vals]) (simp add: key Some sl)
qed

subsection \<open>Removing a listener\<close>

text \<open>Deleting members one after the other; one that is already gone is no error.\<close>

lemma succeeds_deleteMember:
  assumes fr: "framed_ok s0 lbID j (cloud w)"
  shows "succeeds w (ignoreNotFound fmt args (mutate fake_env ElbClient lbID (mbDelete fake_env ElbClient j n)))
    (\<lambda>_ w'. framed_ok s0 lbID j (cloud w') \<and> fake_store (cloud w') j \<subseteq> fake_store (cloud w) j \<and>
       (\<forall>j'. j' \<noteq> j \<longrightarrow> fake_store (cloud w') j' = fake_store (cloud w) j'))"
proof -
  obtain x c' where del: "members_Delete fake_env ElbClient j n (cloud w) = (x, c')" "x = Inr () \<or> x = Inl (Http 404)"
    using framed.delete_live [OF fr] by blast
  have eff: "framed_ok s0 lbID j c' \<and> fake_store c' = (fake_store (cloud w))(j := {m \<in> fake_store (cloud w) j. mb_ID m \<noteq> n})"
    by (rule framed.delete_ok [OF fr del(1)]) (use del(2) in auto)
  let ?w = "w\<lparr>cloud := c', trace := trace w @ [MbDelete j n x]\<rparr>"
  have act: "active lbID c'" using eff by (simp add: framed_ok_def fake_ok_def active_def)
  show ?thesis
  proof (cases x)
    case (Inr u)
    then have ok: "members_Delete fake_env ElbClient j n (cloud w) = (Inr (), c')" using del(1) by simp
    show ?thesis
      by (rule succeeds_ignore, rule succeeds_mutate, unfold mbDelete_def, rule succeeds_sdkCall, rule ok)
        (use eff act in \<open>auto simp: steady_def\<close>)
  next
    case (Inl e)
    then have x: "x = Inl (Http 404)" using del(2) by simp
    have "mbDelete fake_env ElbClient j n w = (Fail (Http 404), ?w)"
      using del(1) x by (simp add: mbDelete_def sdkCall_def)
    then have "retryCond (mbDelete fake_env ElbClient j n) w = (Fail (Http 404), ?w)"
      by (simp add: retryCond_result)
    then have "attempts (Suc 5) e (retryCond (mbDelete fake_env ElbClient j n)) w = (Fail (Http 404), ?w)" for e
      unfolding attempts.simps by (simp add: bindG_def)
    then have "mutate fake_env ElbClient lbID (mbDelete fake_env ElbClient j n) w = (Fail (Http 404), ?w)"
      by (simp add: mutate_def retryOnConflict_def fake_fields patientBackoff_def conflictBackoff_def bindG_Fail)
    then have "ignoreNotFound fmt args (mutate fake_env ElbClient lbID (mbDelete fake_env ElbClient j n)) w = (Ok (), ?w)"
      by (simp add: ignoreNotFound_def catchG_def returnG_def)
    then show ?thesis by (rule succeedsI) (use eff in auto)
  qed
qed

lemma succeeds_deleteMembers:
  assumes ok: "consistent (cloud w)" and p: "pool_at (cloud w) i sl p" and lb: "lbID \<in> dom (map_of (loadBalancers (cloud w)))"
  shows "succeeds w (eachG (\<lambda>m. ignoreNotFound fmt (args m)
      (mutate fake_env ElbClient lbID (mbDelete fake_env ElbClient (pl_ID p) (mb_ID m)))) ms)
    (\<lambda>_ w'. only_touches i (cloud w) (cloud w') \<and> (\<exists>M. sliceOf (cloud w') i = Some (sl\<lparr>sl_members := M\<rparr>)))"
proof -
  obtain l where l: "map_of (listeners (cloud w)) i = Some l" "poolRef l = pl_ID p" "pl_ID p \<noteq> ''''"
    using p by (rule pool_atE)
  have j: "poolRef l \<noteq> ''''" using l by simp
  note start = framed_start [OF ok l(1) j lb, unfolded l(2)]
  let ?I = "\<lambda>_ u. framed_ok (cloud w) lbID (pl_ID p) (cloud u) \<and> fake_store (cloud u) (pl_ID p) \<subseteq> fake_store (cloud w) (pl_ID p) \<and>
     (\<forall>j'. j' \<noteq> pl_ID p \<longrightarrow> fake_store (cloud u) j' = fake_store (cloud w) j')"
  show ?thesis
  proof (rule succeeds_each [where I = ?I])
    show "?I [] w" using start(1) by simp
    show "succeeds u (ignoreNotFound fmt (args m) (mutate fake_env ElbClient lbID (mbDelete fake_env ElbClient (pl_ID p) (mb_ID m)))) (\<lambda>_. ?I (xs @ [m]))"
      if "?I xs u" for xs m u
      by (rule succeeds_mono [OF succeeds_deleteMember]) (use that in auto)
    fix u assume I: "?I ms u"
    have inj: "inj_on endpoint (fake_store (cloud u) (pl_ID p))" "inj_on mb_ID (fake_store (cloud u) (pl_ID p))"
      using I start(2,3) inj_on_subset by blast+
    have "only_touches i (cloud w) (cloud u) \<and> listeners (cloud u) = listeners (cloud w) \<and> pools (cloud u) = pools (cloud w) \<and>
      sliceOf (cloud u) i = map_option (\<lambda>sl. sl\<lparr>sl_members := fake_store (cloud u) (poolRef l)\<rparr>) (sliceOf (cloud w) i)"
      by (rule framed_touches [OF ok l(1) j, where b = lbID]) (use I inj in \<open>simp_all add: l(2)\<close>)
    then show "only_touches i (cloud w) (cloud u) \<and> (\<exists>M. sliceOf (cloud u) i = Some (sl\<lparr>sl_members := M\<rparr>))"
      using p by (auto simp: pool_at_def)
  qed
qed

text \<open>The pool goes with its monitor and members; the listener still refers to it then.\<close>

definition pool_gone :: "string \<Rightarrow> Slice \<Rightarrow> fakeELB \<Rightarrow> fakeELB \<Rightarrow> bool" where
  "pool_gone i sl s s' \<longleftrightarrow> (\<exists>s2 sl2. only_touches i s s2 \<and> sliceOf s2 i = Some sl2 \<and> sl_listener sl2 = sl_listener sl \<and>
     (let j = ls_DefaultPoolID (sl_listener sl) in
      s' = (if j = '''' then s2 else s2\<lparr>pools := AList.delete j (pools s2), members := AList.delete j (members s2)\<rparr>)))"

text \<open>The three parts of removing a pool: its monitor, its members, the pool itself.\<close>

definition pool_renamed :: "string \<Rightarrow> Slice \<Rightarrow> PoolObj \<Rightarrow> fakeELB \<Rightarrow> Slice \<Rightarrow> PoolObj \<Rightarrow> fakeELB \<Rightarrow> bool" where
  "pool_renamed i sl p s sl' q s' \<longleftrightarrow> only_touches i s s' \<and> pool_at s' i sl' q \<and> pl_ID q = pl_ID p \<and> sl_listener sl' = sl_listener sl"

lemma succeeds_dropMonitor:
  assumes ok: "consistent (cloud w)" and p: "pool_at (cloud w) i sl p" and lb: "lbID \<in> dom (map_of (loadBalancers (cloud w)))"
  shows "succeeds w (if pl_MonitorID p \<noteq> '''' then ignoreNotFound fmt args
      (mutate fake_env ElbClient lbID (moDelete fake_env ElbClient (pl_MonitorID p))) else returnG ())
    (\<lambda>_ w'. \<exists>sl' q. pool_renamed i sl p (cloud w) sl' q (cloud w'))"
proof (cases "pl_MonitorID p = ''''")
  case True
  have "pool_renamed i sl p (cloud w) sl p (cloud w)" using ok p by (simp add: pool_renamed_def only_touches_refl)
  then show ?thesis using True by (auto intro!: succeeds_return)
next
  case False
  let ?p = "p\<lparr>pl_MonitorID := ''''\<rparr>"
  show ?thesis
    unfolding if_P [OF False]
  proof (rule succeeds_ignore, rule succeeds_mono [OF succeeds_deleteMonitor [OF ok p lb False]])
    fix x and w1 :: "fakeELB world" assume "only_touches i (cloud w) (cloud w1) \<and>
      (\<exists>mo. sliceOf (cloud w1) i = Some (sl\<lparr>sl_pool := Some ?p, sl_monitor := mo\<rparr>))"
    then obtain mo where w1: "only_touches i (cloud w) (cloud w1)"
      "sliceOf (cloud w1) i = Some (sl\<lparr>sl_pool := Some ?p, sl_monitor := mo\<rparr>)" by (elim conjE exE)
    then have "pool_renamed i sl p (cloud w) (sl\<lparr>sl_pool := Some ?p, sl_monitor := mo\<rparr>) ?p (cloud w1)"
      using p by (simp add: pool_renamed_def pool_at_def)
    then show "\<exists>sl' q. pool_renamed i sl p (cloud w) sl' q (cloud w1)" by blast
  qed
qed

lemma succeeds_dropMembers:
  assumes q: "pool_renamed i sl p s sl1 q (cloud w)" and lb: "lbID \<in> dom (map_of (loadBalancers s))"
  shows "succeeds w (bindG (listMembers fake_env ElbClient (pl_ID p)) (\<lambda>existing.
      eachG (\<lambda>m. ignoreNotFound fmt [mb_ID m]
        (mutate fake_env ElbClient lbID (mbDelete fake_env ElbClient (pl_ID p) (mb_ID m)))) existing))
    (\<lambda>_ w'. \<exists>M. pool_renamed i sl p s (sl1\<lparr>sl_members := M\<rparr>) q (cloud w'))"
proof -
  have w: "consistent (cloud w)" "lbID \<in> dom (map_of (loadBalancers (cloud w)))" "pool_at (cloud w) i sl1 q" "pl_ID p = pl_ID q"
    using q lb by (simp_all add: pool_renamed_def only_touches_def)
  have "pl_ID q \<in> dom (map_of (pools (cloud w)))" using w(3) by (elim pool_atE) blast
  then obtain ms where ms: "map_of (members (cloud w)) (pl_ID q) = Some ms"
    using consistentD(12) [OF w(1)] unfolding members_ok_def by blast
  have list: "members_List fake_env ElbClient (pl_ID q) (cloud w) = (Inr (Inr (map snd ms)), cloud w)"
    using ms by (simp add: fake_fields onElb_def fake_mbList_def getItem_def)
  let ?w = "w\<lparr>cloud := cloud w, trace := trace w @ [MbList (pl_ID q) (Inr (Inr (map snd ms)))]\<rparr>"
  have "succeeds ?w (eachG (\<lambda>m. ignoreNotFound fmt [mb_ID m]
       (mutate fake_env ElbClient lbID (mbDelete fake_env ElbClient (pl_ID q) (mb_ID m)))) (map snd ms))
    (\<lambda>_ w'. only_touches i (cloud ?w) (cloud w') \<and> (\<exists>M. sliceOf (cloud w') i = Some (sl1\<lparr>sl_members := M\<rparr>)))"
    by (rule succeeds_deleteMembers) (use w in simp_all)
  then have "succeeds ?w (eachG (\<lambda>m. ignoreNotFound fmt [mb_ID m]
       (mutate fake_env ElbClient lbID (mbDelete fake_env ElbClient (pl_ID q) (mb_ID m)))) (map snd ms))
    (\<lambda>_ w'. \<exists>M. pool_renamed i sl p s (sl1\<lparr>sl_members := M\<rparr>) q (cloud w'))"
  proof (rule succeeds_mono)
    fix y and w' :: "fakeELB world"
    assume "only_touches i (cloud ?w) (cloud w') \<and> (\<exists>M. sliceOf (cloud w') i = Some (sl1\<lparr>sl_members := M\<rparr>))"
    then obtain M where w': "only_touches i (cloud w) (cloud w')" "sliceOf (cloud w') i = Some (sl1\<lparr>sl_members := M\<rparr>)" by auto
    have "only_touches i s (cloud w')" using q w'(1) by (auto simp: pool_renamed_def intro: only_touches_trans)
    then have "pool_renamed i sl p s (sl1\<lparr>sl_members := M\<rparr>) q (cloud w')" using q w'(2) by (auto simp: pool_renamed_def pool_at_def)
    then show "\<exists>M. pool_renamed i sl p s (sl1\<lparr>sl_members := M\<rparr>) q (cloud w')" ..
  qed
  then show ?thesis
    unfolding listMembers_def bindG_assoc mbList_def w(4)
    by (intro succeeds_bind succeeds_wrap) (rule succeeds_sdkCall, rule list, simp only: liftG_simps bindG_return)
qed

lemma succeeds_dropPool:
  assumes q: "pool_renamed i sl p s sl1 q (cloud w)" and lb: "lbID \<in> dom (map_of (loadBalancers s))" and p: "pool_at s i sl p"
  shows "succeeds w (ignoreNotFound fmt args (mutate fake_env ElbClient lbID (plDelete fake_env ElbClient (pl_ID p))))
    (\<lambda>_ w'. pool_gone i sl s (cloud w') \<and> active lbID (cloud w'))"
proof -
  let ?j = "pl_ID p"
  let ?s = "cloud w\<lparr>pools := AList.delete ?j (pools (cloud w)), members := AList.delete ?j (members (cloud w))\<rparr>"
  have touch: "only_touches i s (cloud w)" and at1: "pool_at (cloud w) i sl1 q" and same: "pl_ID q = ?j" "sl_listener sl1 = sl_listener sl"
    using q by (simp_all add: pool_renamed_def)
  have "map_of (pools (cloud w)) ?j = Some q" using at1 same(1) by (elim pool_atE) simp
  then have del: "pools_Delete fake_env ElbClient ?j (cloud w) = (Inr (), ?s)"
    by (simp add: fake_fields onElb_def fake_plDelete_def delItem_def)
  have ref: "ls_DefaultPoolID (sl_listener sl) = ?j" "?j \<noteq> ''''" using p by (simp_all add: pool_at_def)
  have sl1: "sliceOf (cloud w) i = Some sl1" using at1 by (simp add: pool_at_def)
  have gone: "pool_gone i sl s ?s"
    unfolding pool_gone_def
    by (rule exI [of _ "cloud w"], rule exI [of _ sl1]) (use touch sl1 same ref in \<open>simp add: Let_def\<close>)
  have "active lbID (cloud w)" using touch lb by (intro consistent_active) (auto simp: only_touches_def)
  then have act: "active lbID ?s" by (simp add: active_def)
  show ?thesis
    by (rule succeeds_ignore, rule succeeds_mutate, unfold plDelete_def, rule succeeds_sdkCall, rule del)
      (use gone act in \<open>auto simp: steady_def\<close>)
qed

lemma succeeds_deletePool:
  assumes ok: "consistent (cloud w)" and p: "pool_at (cloud w) i sl p" and lb: "lbID \<in> dom (map_of (loadBalancers (cloud w)))"
  shows "succeeds w (deletePool fake_env ElbClient lbID p) (\<lambda>_ w'. pool_gone i sl (cloud w) (cloud w') \<and> active lbID (cloud w'))"
  unfolding deletePool_def
proof (rule succeeds_bind, rule succeeds_mono [OF succeeds_dropMonitor [OF ok p lb]], elim exE)
  fix x sl1 q and w1 :: "fakeELB world" assume "pool_renamed i sl p (cloud w) sl1 q (cloud w1)"
  then show "succeeds w1 (bindG (listMembers fake_env ElbClient (pl_ID p)) (\<lambda>existing.
     bindG (eachG (\<lambda>m. ignoreNotFound ''failed to delete member %s: %w'' [mb_ID m]
         (mutate fake_env ElbClient lbID (mbDelete fake_env ElbClient (pl_ID p) (mb_ID m)))) existing) (\<lambda>_.
     ignoreNotFound ''failed to delete pool %s: %w'' [pl_ID p] (mutate fake_env ElbClient lbID (plDelete fake_env ElbClient (pl_ID p))))))
    (\<lambda>_ w'. pool_gone i sl (cloud w) (cloud w') \<and> active lbID (cloud w'))"
    unfolding bindG_assoc [symmetric]
    by (intro succeeds_bind succeeds_mono [OF succeeds_dropMembers [OF _ lb]], assumption, elim exE)
      (rule succeeds_dropPool [OF _ lb p])
qed

lemma pool_gone_removed:
  assumes gone: "pool_gone i sl s s'" and s'': "s'' = s'\<lparr>listeners := AList.delete i (listeners s')\<rparr>"
  shows "removes i s s'' \<and> i \<in> dom (map_of (listeners s')) \<and>
    (ls_IpGroupID (sl_listener sl) = '''' \<or> (\<exists>g. map_of (ipGroups s'') (ls_IpGroupID (sl_listener sl)) = Some g \<and>
       (\<forall>j l. map_of (listeners s'') j = Some l \<longrightarrow> groupRef l \<noteq> ls_IpGroupID (sl_listener sl))))"
proof -
  let ?j = "ls_DefaultPoolID (sl_listener sl)"
  obtain s2 sl2 where s2: "only_touches i s s2" "sliceOf s2 i = Some sl2" "sl_listener sl2 = sl_listener sl"
    and s': "s' = (if ?j = '''' then s2 else s2\<lparr>pools := AList.delete ?j (pools s2), members := AList.delete ?j (members s2)\<rparr>)"
    using gone by (auto simp: pool_gone_def Let_def)
  have ok: "consistent s2" using s2(1) by (simp add: only_touches_def)
  obtain l where l: "map_of (listeners s2) i = Some l" "fl_obj l = sl_listener sl"
    using s2(2,3) by (auto elim: sliceE)
  have ls: "listeners s' = listeners s2" "ipGroups s' = ipGroups s2" using s' by simp_all
  have rem: "removes i s2 s'' \<and> ipGroups s'' = ipGroups s2"
  proof (cases "?j = ''''")
    case True
    show ?thesis by (rule remove_bare_listener [OF ok l(1)]) (use s' s'' True in simp)
  next
    case False
    show ?thesis by (rule remove_listener [OF ok l(1), of ?j]) (use s' s'' False l(2) in simp_all)
  qed
  have "removes i s s''" using s2(1) rem by (blast intro: touches_removes)
  moreover have "i \<in> dom (map_of (listeners s'))" using l(1) ls by auto
  moreover have "\<exists>g. map_of (ipGroups s'') (groupRef l) = Some g \<and> (\<forall>j k. map_of (listeners s'') j = Some k \<longrightarrow> groupRef k \<noteq> groupRef l)"
    if "groupRef l \<noteq> ''''"
  proof -
    have link: "linked groupRef (map_of (listeners s2)) (dom (map_of (ipGroups s2)))" by (rule consistentD [OF ok])
    have "groupRef k \<noteq> groupRef l" if "map_of (listeners s'') j = Some k" for j k
      using that linkedD(2) [OF link l(1) \<open>groupRef l \<noteq> ''''\<close>, of j k] by (auto simp: s'' ls delete_conv' split: if_splits)
    moreover have "groupRef l \<in> dom (map_of (ipGroups s''))" using linkedD(1) [OF link l(1) that] rem by simp
    ultimately show ?thesis by blast
  qed
  ultimately show ?thesis using l(2) by auto
qed

lemma succeeds_findPool:
  assumes ok: "consistent (cloud w)" and sl: "sliceOf (cloud w) i = Some sl"
    and none: "\<And>w'. ls_DefaultPoolID (sl_listener sl) = '''' \<Longrightarrow> cloud w' = cloud w \<Longrightarrow> Q None w'"
    and some: "\<And>p w'. pool_at (cloud w) i sl p \<Longrightarrow> cloud w' = cloud w \<Longrightarrow> Q (Some p) w'"
  shows "succeeds w (findPoolForListener fake_env ElbClient i) Q"
proof -
  obtain l where l: "map_of (listeners (cloud w)) i = Some l" "fl_obj l = sl_listener sl"
    "sl_pool sl = map_of (pools (cloud w)) (poolRef l)"
    using sl by (rule sliceE)
  have get: "listeners_Get fake_env ElbClient i (cloud w) = (Inr (fl_obj l), cloud w)"
    using l(1) by (simp add: fake_fields onElb_def fake_lsGet_def getItem_def)
  let ?w = "w\<lparr>cloud := cloud w, trace := trace w @ [LsGet i (Inr (fl_obj l))]\<rparr>"
  have "succeeds ?w (if poolRef l = '''' then returnG None
     else getOrNone ''failed to get pool %s: %w'' [poolRef l] (plGet fake_env ElbClient (poolRef l))) Q"
  proof (cases "poolRef l = ''''")
    case True
    then show ?thesis using none l(2) by (simp add: succeeds_return)
  next
    case False
    then obtain p where p: "map_of (pools (cloud w)) (poolRef l) = Some p"
      using linkedD(1) [OF consistentD(10) [OF ok] l(1)] by blast
    then have "pl_ID p = poolRef l" using consistentD(7) [OF ok] by (simp add: keyed_def)
    then have pool: "pool_at (cloud w) i sl p" using sl l p False by (simp add: pool_at_def)
    have getp: "pools_Get fake_env ElbClient (poolRef l) (cloud ?w) = (Inr p, cloud ?w)"
      using p by (simp add: fake_fields onElb_def fake_plGet_def getItem_def)
    show ?thesis
      unfolding if_not_P [OF False] plGet_def
      by (rule succeeds_found, rule succeeds_sdkCall, rule getp, rule some [OF pool]) simp
  qed
  then show ?thesis
    unfolding findPoolForListener_def lsGet_def
    by (intro succeeds_bind succeeds_wrap) (rule succeeds_sdkCall, rule get)
qed

lemma succeeds_deleteIPGroup:
  assumes ok: "consistent (cloud w)" and g: "gid = '''' \<or> (\<exists>g. map_of (ipGroups (cloud w)) gid = Some g \<and>
      (\<forall>j l. map_of (listeners (cloud w)) j = Some l \<longrightarrow> groupRef l \<noteq> gid))"
  shows "succeeds w (deleteIPGroup fake_env ElbClient lbID gid name) (\<lambda>_ w'. only_touches i (cloud w) (cloud w'))"
proof (cases "gid = ''''")
  case True
  then show ?thesis using ok by (simp add: deleteIPGroup_def succeeds_return only_touches_refl)
next
  case False
  then obtain g where g: "map_of (ipGroups (cloud w)) gid = Some g"
    and free: "\<And>j l. map_of (listeners (cloud w)) j = Some l \<Longrightarrow> groupRef l \<noteq> gid"
    using g by blast
  have get: "ipgroups_Get fake_env ElbClient gid (cloud w) = (Inr g, cloud w)"
    using g by (simp add: fake_fields onElb_def fake_igGet_def getItem_def)
  let ?w = "w\<lparr>cloud := cloud w, trace := trace w @ [IgGet gid (Inr g)]\<rparr>"
  let ?s = "cloud w\<lparr>ipGroups := AList.delete gid (ipGroups (cloud w))\<rparr>"
  have del: "ipgroups_Delete fake_env ElbClient gid (cloud ?w) = (Inr (), ?s)"
    using g by (simp add: fake_fields onElb_def fake_igDelete_def delItem_def)
  have touch: "only_touches i (cloud w) ?s" by (rule conjunct1 [OF drop_group [OF ok _ refl]]) (rule free)
  have "succeeds ?w (case Some g of None \<Rightarrow> returnG () | Some grp \<Rightarrow>
            if \<not> HasPrefix (ig_Name grp) (name @ ''_'') then returnG ()
            else wrapG ''failed to delete ipgroup %s: %w'' [gid] (retryOnConflict fake_env lbID
                (catchG (igDelete fake_env ElbClient gid) (\<lambda>e. if isNotFound e then returnG () else failG e))))
     (\<lambda>_ w'. only_touches i (cloud w) (cloud w'))"
  proof (cases "HasPrefix (ig_Name g) (name @ ''_'')")
    case True
    then have "succeeds ?w (wrapG ''failed to delete ipgroup %s: %w'' [gid] (retryOnConflict fake_env lbID
                (catchG (igDelete fake_env ElbClient gid) (\<lambda>e. if isNotFound e then returnG () else failG e))))
     (\<lambda>_ w'. only_touches i (cloud w) (cloud w'))"
      by (intro succeeds_wrap succeeds_retry succeeds_catch, unfold igDelete_def)
        (rule succeeds_sdkCall, rule del, use touch in simp)
    then show ?thesis using True by simp
  qed (use ok in \<open>simp add: succeeds_return only_touches_refl\<close>)
  then show ?thesis
    unfolding deleteIPGroup_def if_not_P [OF False] igGet_def
    by (intro succeeds_bind succeeds_found) (rule succeeds_sdkCall, rule get)
qed

lemma succeeds_deleteListener:
  assumes ok: "consistent (cloud w)" and sl: "sliceOf (cloud w) i = Some sl" and lb: "lbID \<in> dom (map_of (loadBalancers (cloud w)))"
  shows "succeeds w (deleteListener fake_env ElbClient lbID name (sl_listener sl)) (\<lambda>_ w'. removes i (cloud w) (cloud w'))"
proof -
  have id: "ls_ID (sl_listener sl) = i" using ok sl by (rule slice_id)
  let ?rest = "bindG (ignoreNotFound ''failed to delete listener %s: %w'' [i] (mutate fake_env ElbClient lbID (lsDelete fake_env ElbClient i)))
      (\<lambda>_. deleteIPGroup fake_env ElbClient lbID (ls_IpGroupID (sl_listener sl)) name)"
  have rest: "succeeds w1 ?rest (\<lambda>_ w'. removes i (cloud w) (cloud w'))"
    if gone: "pool_gone i sl (cloud w) (cloud w1)" and act: "active lbID (cloud w1)" for w1
  proof -
    let ?s = "cloud w1\<lparr>listeners := AList.delete i (listeners (cloud w1))\<rparr>"
    note removed = pool_gone_removed [OF gone refl]
    have del: "listeners_Delete fake_env ElbClient i (cloud w1) = (Inr (), ?s)"
      using removed by (auto simp: fake_fields onElb_def fake_lsDelete_def delItem_def)
    have act': "active lbID ?s" using act by (simp add: active_def)
    have grp: "succeeds w2 (deleteIPGroup fake_env ElbClient lbID (ls_IpGroupID (sl_listener sl)) name)
        (\<lambda>_ w'. removes i (cloud w) (cloud w'))" if w2: "cloud w2 = ?s" for w2
    proof (rule succeeds_mono [OF succeeds_deleteIPGroup])
      show "consistent (cloud w2)" using removed w2 by (simp add: removes_def)
      show "ls_IpGroupID (sl_listener sl) = '''' \<or> (\<exists>g. map_of (ipGroups (cloud w2)) (ls_IpGroupID (sl_listener sl)) = Some g \<and>
          (\<forall>j l. map_of (listeners (cloud w2)) j = Some l \<longrightarrow> groupRef l \<noteq> ls_IpGroupID (sl_listener sl)))"
        unfolding w2 using removed by (elim conjE)
      fix x and w' :: "fakeELB world" assume "only_touches i (cloud w2) (cloud w')"
      then show "removes i (cloud w) (cloud w')" using removed w2 by (auto intro: removes_touches)
    qed
    show ?thesis
      by (rule succeeds_bind, rule succeeds_ignore, rule succeeds_mutate, unfold lsDelete_def, rule succeeds_sdkCall, rule del)
        (use act' in \<open>auto simp: steady_def intro: grp\<close>)
  qed
  show ?thesis
    unfolding deleteListener_def id
  proof (rule succeeds_bind, rule succeeds_findPool [OF ok sl])
    fix w1 :: "fakeELB world" assume none: "ls_DefaultPoolID (sl_listener sl) = ''''" and w1: "cloud w1 = cloud w"
    have "pool_gone i sl (cloud w) (cloud w)"
      unfolding pool_gone_def
      by (rule exI [of _ "cloud w"], rule exI [of _ sl]) (use ok sl none in \<open>simp add: Let_def only_touches_refl\<close>)
    then show "succeeds w1 (bindG (case None of None \<Rightarrow> returnG () | Some p \<Rightarrow> deletePool fake_env ElbClient lbID p) (\<lambda>_. ?rest))
        (\<lambda>_ w'. removes i (cloud w) (cloud w'))"
      using rest [of w1] w1 consistent_active [OF ok lb] by simp
  next
    fix p and w1 :: "fakeELB world" assume p: "pool_at (cloud w) i sl p" and w1: "cloud w1 = cloud w"
    have "succeeds w1 (deletePool fake_env ElbClient lbID p) (\<lambda>_ w'. pool_gone i sl (cloud w1) (cloud w') \<and> active lbID (cloud w'))"
      by (rule succeeds_deletePool) (use ok lb p w1 in simp_all)
    then show "succeeds w1 (bindG (case Some p of None \<Rightarrow> returnG () | Some p \<Rightarrow> deletePool fake_env ElbClient lbID p) (\<lambda>_. ?rest))
        (\<lambda>_ w'. removes i (cloud w) (cloud w'))"
      unfolding option.case w1 by (intro succeeds_bind, elim succeeds_mono) (rule rest, simp_all)
  qed
qed

end
