(* ===== verification/Fake_Lifecycle.thy ===== *)
theory Fake_Lifecycle
  imports Fake_Ports
begin

section \<open>EnsureLoadBalancer succeeds on the fake ELB\<close>

text \<open>
  \<open>reconcile\<close> on a consistent \<open>fakeELB\<close> settles every port, removes the stale listeners of the Service
  and touches nothing else (\<open>reconciled\<close>); \<open>EnsureLoadBalancer\<close> finds or creates the balancer and returns
  its status once it is settled (\<open>ensured\<close>).
\<close>

subsection \<open>All ports\<close>

lemma holder_key_unique:
  assumes "distinct (map fst r)" and "holder r lbID k = Some i" and "holder r lbID k' = Some i"
  shows "k' = k"
proof -
  obtain n n' where "(i, lbID, n, k) \<in> set r" "(i, lbID, n', k') \<in> set r" using assms(2,3) holder_Some by metis
  from eq_key_imp_eq_value [OF assms(1) this] show ?thesis by simp
qed

definition ports_done ::
  "string \<Rightarrow> string \<Rightarrow> serviceSettings \<Rightarrow> Service \<Rightarrow> Node list \<Rightarrow> fakeELB \<Rightarrow> ServicePort list \<Rightarrow> fakeELB \<Rightarrow> bool" where
  "ports_done lbID name settings service nodes s0 ps s \<longleftrightarrow>
     consistent s \<and> loadBalancers s = loadBalancers s0 \<and>
     (\<exists>R. roster s = roster s0 @ R \<and> (\<forall>(i, b, n, k) \<in> set R. b = lbID \<and> k \<in> portKey ` set ps \<and>
        (\<exists>port. n = resourceName name port))) \<and>
     (tidy lbID name s0 \<longrightarrow> tidy lbID name s) \<and>
     (\<forall>port \<in> set ps. \<exists>i sl. holder (roster s) lbID (portKey port) = Some i \<and> sliceOf s i = Some sl \<and>
        slice_settled name settings service nodes port sl) \<and>
     (\<forall>i \<in> fst ` set (roster s0). (\<forall>port \<in> set ps. holder (roster s0) lbID (portKey port) \<noteq> Some i) \<longrightarrow>
        sliceOf s i = sliceOf s0 i) \<and>
     (\<forall>port \<in> set ps. \<forall>i. holder (roster s0) lbID (portKey port) = Some i \<longrightarrow> holder (roster s) lbID (portKey port) = Some i)"

lemma ports_doneD:
  assumes "ports_done lbID name settings service nodes s0 ps s"
  shows "consistent s" and "loadBalancers s = loadBalancers s0"
    and "port \<in> set ps \<Longrightarrow> \<exists>i sl. holder (roster s) lbID (portKey port) = Some i \<and> sliceOf s i = Some sl \<and>
        slice_settled name settings service nodes port sl"
    and "i \<in> fst ` set (roster s0) \<Longrightarrow> (\<And>port. port \<in> set ps \<Longrightarrow> holder (roster s0) lbID (portKey port) \<noteq> Some i) \<Longrightarrow>
        sliceOf s i = sliceOf s0 i"
    and "port \<in> set ps \<Longrightarrow> holder (roster s0) lbID (portKey port) = Some i \<Longrightarrow> holder (roster s) lbID (portKey port) = Some i"
  using assms unfolding ports_done_def by blast+

lemma ports_done_roster:
  assumes "ports_done lbID name settings service nodes s0 ps s"
  obtains R where "roster s = roster s0 @ R" and "\<forall>(i, b, n, k) \<in> set R. b = lbID \<and> k \<in> portKey ` set ps"
proof -
  obtain R where "roster s = roster s0 @ R"
    "\<forall>(i, b, n, k) \<in> set R. b = lbID \<and> k \<in> portKey ` set ps \<and> (\<exists>port. n = resourceName name port)"
    using assms unfolding ports_done_def by blast
  then show thesis by (intro that [of R]) auto
qed

lemma ports_done_tidy: "ports_done lbID name settings service nodes s0 ps s \<Longrightarrow> tidy lbID name s0 \<Longrightarrow> tidy lbID name s"
  unfolding ports_done_def by (elim conjE) (rule mp)

lemma ports_done_holder:
  assumes "ports_done lbID name settings service nodes s0 ps s" and "k \<notin> portKey ` set ps"
  shows "holder (roster s) lbID k = holder (roster s0) lbID k"
proof -
  obtain R where R: "roster s = roster s0 @ R" "\<forall>(i, b, n, k) \<in> set R. b = lbID \<and> k \<in> portKey ` set ps"
    by (rule ports_done_roster [OF assms(1)])
  have "\<forall>e \<in> set R. fst (snd e) = lbID \<longrightarrow> snd (snd (snd e)) \<noteq> k"
    using R(2) assms(2) by fastforce
  then show ?thesis unfolding R(1) by (rule holder_append)
qed

lemma ports_done_start: "consistent s \<Longrightarrow> ports_done lbID name settings service nodes s [] s"
  by (simp add: ports_done_def)

text \<open>One more port is done: what that leaves of the roster and of the listeners.\<close>

lemma port_step_roster:
  assumes R: "roster s = roster s0 @ R" "\<forall>(i, b, n, k) \<in> set R. b = lbID \<and> k \<in> portKey ` set ps \<and> (\<exists>port. n = resourceName name port)"
    and way: "holder (roster s) lbID (portKey y) = Some i \<and> roster s' = roster s \<or> adds_listener lbID name y i s s'"
  shows "\<exists>R. roster s' = roster s0 @ R \<and> (\<forall>(i, b, n, k) \<in> set R. b = lbID \<and> k \<in> portKey ` set (ps @ [y]) \<and>
    (\<exists>port. n = resourceName name port))"
  using way
proof
  assume "holder (roster s) lbID (portKey y) = Some i \<and> roster s' = roster s"
  then show ?thesis using R by (intro exI [of _ R]) auto
next
  assume "adds_listener lbID name y i s s'"
  then have "roster s' = roster s @ [(i, lbID, resourceName name y, portKey y)]" by (simp add: adds_listener_def)
  then show ?thesis using R by (intro exI [of _ "R @ [(i, lbID, resourceName name y, portKey y)]"]) auto
qed

lemma port_step_other:
  assumes ok: "consistent s" and k: "k \<noteq> portKey y"
    and way: "holder (roster s) lbID (portKey y) = Some i \<and> roster s' = roster s \<or> adds_listener lbID name y i s s'"
  shows "holder (roster s') lbID k = holder (roster s) lbID k" and "holder (roster s) lbID k \<noteq> Some i"
proof -
  show "holder (roster s') lbID k = holder (roster s) lbID k" using way k by (auto simp: adds_listener_def)
  show "holder (roster s) lbID k \<noteq> Some i"
  proof
    assume i: "holder (roster s) lbID k = Some i"
    then have "\<exists>n. (i, lbID, n, k) \<in> set (roster s)" by (rule holder_Some)
    then have "i \<in> fst ` set (roster s)" by force
    then have "holder (roster s) lbID (portKey y) = Some i" using way by (auto simp: adds_listener_def)
    with i show False using holder_key_unique roster_ids(1) [OF ok] k by metis
  qed
qed

lemma port_step_keeps:
  assumes before: "ports_done lbID name settings service nodes s0 ps s" and y: "portKey y \<notin> portKey ` set ps"
    and way: "holder (roster s) lbID (portKey y) = Some i \<and> roster s' = roster s \<or> adds_listener lbID name y i s s'"
    and port: "port \<in> set (ps @ [y])" and j: "holder (roster s0) lbID (portKey port) = Some j"
  shows "holder (roster s') lbID (portKey port) = Some j"
proof (cases "portKey port = portKey y")
  case True
  then show ?thesis using j ports_done_holder [OF before y] way by (auto simp: adds_listener_def)
next
  case False
  then have "port \<in> set ps" using port by auto
  then have "holder (roster s) lbID (portKey port) = Some j" using j by (rule ports_doneD(5) [OF before])
  then show ?thesis using port_step_other(1) [OF ports_doneD(1) [OF before] False way] by simp
qed

lemma ports_done_step:
  assumes ok: "consistent s0" and before: "ports_done lbID name settings service nodes s0 ps s"
    and y: "portKey y \<notin> portKey ` set ps" and ready: "port_ready lbID name settings service nodes y i s s'"
  shows "ports_done lbID name settings service nodes s0 (ps @ [y]) s'"
proof -
  obtain R where R: "roster s = roster s0 @ R"
    "\<forall>(i, b, n, k) \<in> set R. b = lbID \<and> k \<in> portKey ` set ps \<and> (\<exists>port. n = resourceName name port)"
    using before unfolding ports_done_def by blast
  have old: "holder (roster s) lbID (portKey y) = holder (roster s0) lbID (portKey y)"
    using before y by (rule ports_done_holder)
  have s': "consistent s'" "loadBalancers s' = loadBalancers s0" "\<And>j. j \<noteq> i \<Longrightarrow> sliceOf s' j = sliceOf s j"
    using ready before by (simp_all add: port_ready_def ports_done_def)
  obtain sl where sl: "sliceOf s' i = Some sl" "slice_settled name settings service nodes y sl"
    using ready by (auto simp: port_ready_def)
  have way: "holder (roster s) lbID (portKey y) = Some i \<and> roster s' = roster s \<or> adds_listener lbID name y i s s'"
    using ready by (simp add: port_ready_def)
  have hy: "holder (roster s') lbID (portKey y) = Some i"
    using way by (auto simp: adds_listener_def)
  have "\<exists>j sl. holder (roster s') lbID (portKey port) = Some j \<and> sliceOf s' j = Some sl \<and>
      slice_settled name settings service nodes port sl" if port: "port \<in> set (ps @ [y])" for port
  proof (cases "portKey port = portKey y")
    case True
    then have "port = y" using port y by (auto simp: image_iff)
    then show ?thesis using hy sl by blast
  next
    case False
    then have "port \<in> set ps" using port by auto
    then obtain j sl' where j: "holder (roster s) lbID (portKey port) = Some j" "sliceOf s j = Some sl'"
      "slice_settled name settings service nodes port sl'"
      using ports_doneD(3) [OF before] by blast
    note other = port_step_other [OF ports_doneD(1) [OF before] False way]
    have "j \<noteq> i" using other(2) j(1) by auto
    then show ?thesis using j s'(3) other(1) by auto
  qed
  moreover have "sliceOf s' j = sliceOf s0 j" if j: "j \<in> fst ` set (roster s0)"
    and free: "\<forall>port \<in> set (ps @ [y]). holder (roster s0) lbID (portKey port) \<noteq> Some j" for j
  proof -
    have "j \<in> fst ` set (roster s)" using j R(1) by auto
    then have "j \<noteq> i" using way free old by (auto simp: adds_listener_def)
    then have "sliceOf s' j = sliceOf s j" by (rule s'(3))
    also have "\<dots> = sliceOf s0 j" using ports_doneD(4) [OF before j] free by simp
    finally show ?thesis .
  qed
  moreover have "holder (roster s') lbID (portKey port) = Some j"
    if "port \<in> set (ps @ [y])" "holder (roster s0) lbID (portKey port) = Some j" for port j
    using before y way that by (rule port_step_keeps)
  moreover have "tidy lbID name s0 \<longrightarrow> tidy lbID name s'"
    using before ready unfolding ports_done_def port_ready_def by blast
  moreover note port_step_roster [OF R way]
  ultimately show ?thesis unfolding ports_done_def using s'(1,2) by blast
qed

lemma succeeds_ports:
  assumes ok: "consistent (cloud w)" and lb: "lb_ID b \<in> dom (map_of (loadBalancers (cloud w)))"
    and keys: "distinct (map portKey ps)"
    and byKey: "\<And>key. byKey key = Option.bind (holder (roster (cloud w)) (lb_ID b) key) (\<lambda>i. map_option sl_listener (sliceOf (cloud w) i))"
    and own: "\<And>port i sl. port \<in> set ps \<Longrightarrow> holder (roster (cloud w)) (lb_ID b) (portKey port) = Some i \<Longrightarrow>
      sliceOf (cloud w) i = Some sl \<Longrightarrow> no_foreign_group name service port sl"
    and ports: "\<forall>port \<in> set ps. serveable nodes port" and vals: "check_values settings"
  shows "succeeds w (eachG (reconcilePort fake_env ElbClient b name settings service nodes byKey) ps)
    (\<lambda>_ w'. ports_done (lb_ID b) name settings service nodes (cloud w) ps (cloud w'))"
proof (rule succeeds_each [where I = "\<lambda>xs u. ports_done (lb_ID b) name settings service nodes (cloud w) xs (cloud u)"])
  show "ports_done (lb_ID b) name settings service nodes (cloud w) [] (cloud w)" using ok by (rule ports_done_start)
next
  fix xs y ys and u :: "fakeELB world"
  assume split: "ps = xs @ y # ys" and I: "ports_done (lb_ID b) name settings service nodes (cloud w) xs (cloud u)"
  have y: "y \<in> set ps" "portKey y \<notin> portKey ` set xs" using split keys by auto
  have u: "consistent (cloud u)" "lb_ID b \<in> dom (map_of (loadBalancers (cloud u)))"
    using ports_doneD(1,2) [OF I] lb by simp_all
  have same: "holder (roster (cloud u)) (lb_ID b) (portKey y) = holder (roster (cloud w)) (lb_ID b) (portKey y)"
    using I y(2) by (rule ports_done_holder)
  have untouched: "sliceOf (cloud u) i = sliceOf (cloud w) i" if i: "holder (roster (cloud w)) (lb_ID b) (portKey y) = Some i" for i
  proof -
    have "\<exists>n. (i, lb_ID b, n, portKey y) \<in> set (roster (cloud w))" using i by (rule holder_Some)
    then have "i \<in> fst ` set (roster (cloud w))" by force
    then show ?thesis
    proof (rule ports_doneD(4) [OF I])
      fix port assume port: "port \<in> set xs"
      show "holder (roster (cloud w)) (lb_ID b) (portKey port) \<noteq> Some i"
      proof
        assume "holder (roster (cloud w)) (lb_ID b) (portKey port) = Some i"
        then have "portKey y = portKey port" using i by (rule holder_key_unique [OF roster_ids(1) [OF ok]])
        then show False using y(2) port by simp
      qed
    qed
  qed
  have "succeeds u (reconcilePort fake_env ElbClient b name settings service nodes byKey y)
      (\<lambda>_ w'. \<exists>i. port_ready (lb_ID b) name settings service nodes y i (cloud u) (cloud w'))"
  proof (rule succeeds_reconcilePort [OF u])
    show "byKey (portKey y) = Option.bind (holder (roster (cloud u)) (lb_ID b) (portKey y)) (\<lambda>i. map_option sl_listener (sliceOf (cloud u) i))"
      unfolding byKey same using untouched by (cases "holder (roster (cloud w)) (lb_ID b) (portKey y)") simp_all
    show "no_foreign_group name service y sl"
      if "holder (roster (cloud u)) (lb_ID b) (portKey y) = Some i" "sliceOf (cloud u) i = Some sl" for i sl
      using that own [OF y(1)] untouched same by simp
  qed (fact bspec [OF ports y(1)], fact vals)
  then show "succeeds u (reconcilePort fake_env ElbClient b name settings service nodes byKey y)
      (\<lambda>_ w'. ports_done (lb_ID b) name settings service nodes (cloud w) (xs @ [y]) (cloud w'))"
    by (rule succeeds_mono) (use ports_done_step [OF ok I y(2)] in blast)
qed

subsection \<open>A settled slice is a settled port\<close>

lemma port_settled_fake:
  assumes ok: "consistent s" and sl: "sliceOf s i = Some sl" and set: "slice_settled name settings service nodes port sl"
    and port: "serveable nodes port"
  shows "port_settled fake_env ElbClient s name settings service nodes (sl_listener sl) port"
proof -
  obtain l where l: "map_of (listeners s) i = Some l" "fl_obj l = sl_listener sl" "sl_pool sl = map_of (pools s) (poolRef l)"
    "sl_members sl = fake_store s (poolRef l)" "sl_group sl = map_of (ipGroups s) (groupRef l)"
    "sl_monitor sl = Option.bind (sl_pool sl) (\<lambda>q. map_option fm_obj (map_of (monitors s) (pl_MonitorID q)))"
    using sl by (rule sliceE)
  obtain p where p: "sl_pool sl = Some p" "pool_settled settings service p" "probed settings service port p (sl_monitor sl)"
    and ref: "ls_DefaultPoolID (sl_listener sl) \<noteq> ''''" and white: "whitelisted name service port sl"
    and ends: "endpoint ` sl_members sl = wantedEndpoints nodes port"
    using set by (auto simp: slice_settled_def)
  have at: "map_of (pools s) (poolRef l) = Some p" using l(3) p(1) by simp
  then have id: "pl_ID p = poolRef l" using consistentD(7) [OF ok] by (simp add: keyed_def)
  obtain ms where ms: "map_of (members s) (poolRef l) = Some ms"
    using consistentD(12) [OF ok] at unfolding members_ok_def by blast
  have "(\<lambda>m. (mb_Address m, mb_ProtocolPort m)) = endpoint" by (simp add: fun_eq_iff endpoint_def)
  moreover have "sl_members sl = set (map snd ms)" using ms l(4) by (simp add: fake_store_def)
  ultimately have mem: "members_settled nodes port (map snd ms)"
    using ends port by (simp only: members_settled_def serveable_def wantedEndpoints_def) blast
  have mon: "monitor_settled fake_env ElbClient s settings service port p"
    using p(1,3) l(6) by (auto simp: monitor_settled_def probed_def fake_fields onElb_def fake_moGet_def getItem_def split: if_splits option.splits)
  have wh: "whitelist_settled fake_env ElbClient s name service port (sl_listener sl)"
  proof (cases "ls_IpGroupID (sl_listener sl) = ''''")
    case True
    then show ?thesis using white by (auto simp: whitelist_settled_def whitelisted_def Let_def split: if_splits)
  next
    case False
    then obtain g where g: "map_of (ipGroups s) (ls_IpGroupID (sl_listener sl)) = Some g"
      using linkedD(1) [OF consistentD(11) [OF ok] l(1)] l(2) by auto
    then have get: "ipgroups_Get fake_env ElbClient (ls_IpGroupID (sl_listener sl)) s = (Inr g, s)"
      by (simp add: fake_fields onElb_def fake_igGet_def getItem_def)
    have "sl_group sl = Some g" using l(2,5) g by simp
    then show ?thesis
      using white get False by (auto simp: whitelist_settled_def whitelisted_def getAnswers_def Let_def split: if_splits)
  qed
  show ?thesis
    unfolding port_settled_def
    by (intro conjI exI [of _ p] exI [of _ "map snd ms"])
      (use wh ref at id ms p mem mon l(2) in \<open>simp_all add: fake_fields onElb_def fake_plGet_def fake_mbList_def getItem_def\<close>)
qed

subsection \<open>Stale listeners\<close>

text \<open>\<open>s'\<close> is \<open>s\<close> without the listeners \<open>I\<close>.\<close>

definition cleared :: "string set \<Rightarrow> fakeELB \<Rightarrow> fakeELB \<Rightarrow> bool" where
  "cleared I s s' \<longleftrightarrow> consistent s' \<and> loadBalancers s' = loadBalancers s \<and> roster s' = filter (\<lambda>e. fst e \<notin> I) (roster s) \<and>
     (\<forall>i. i \<notin> I \<longrightarrow> sliceOf s' i = sliceOf s i)"

lemma cleared_tidy:
  assumes "cleared I s s'" and "tidy lbID name s"
  shows "tidy lbID name s'"
proof (rule tidyI)
  fix i n k sl assume "(i, lbID, n, k) \<in> set (roster s')" "sliceOf s' i = Some sl"
  then show "tidy_slice name sl" using tidyD [OF assms(2), of i n k sl] assms(1) by (simp add: cleared_def)
qed

lemma cleared_removes: "cleared I s s' \<Longrightarrow> removes i s' s'' \<Longrightarrow> cleared (insert i I) s s''"
  by (auto simp: cleared_def removes_def intro: filter_cong)

lemma succeeds_deleteListeners:
  assumes ok: "consistent (cloud w)" and lb: "lbID \<in> dom (map_of (loadBalancers (cloud w)))" and ids: "distinct (map ls_ID ls)"
    and sl: "\<And>l. l \<in> set ls \<Longrightarrow> stale l \<Longrightarrow> \<exists>sl. sliceOf (cloud w) (ls_ID l) = Some sl \<and> sl_listener sl = l"
    and f: "\<And>l. stale l \<Longrightarrow> f l = deleteListener fake_env ElbClient lbID name l" "\<And>l. \<not> stale l \<Longrightarrow> f l = returnG ()"
  shows "succeeds w (eachG f ls) (\<lambda>_ w'. cleared (ls_ID ` {l \<in> set ls. stale l}) (cloud w) (cloud w'))"
proof (rule succeeds_each [where I = "\<lambda>xs u. cleared (ls_ID ` {l \<in> set xs. stale l}) (cloud w) (cloud u)"])
  show "cleared (ls_ID ` {l \<in> set []. stale l}) (cloud w) (cloud w)" using ok by (simp add: cleared_def)
next
  fix xs y ys and u :: "fakeELB world"
  assume split: "ls = xs @ y # ys" and I: "cleared (ls_ID ` {l \<in> set xs. stale l}) (cloud w) (cloud u)"
  have y: "y \<in> set ls" "ls_ID y \<notin> ls_ID ` set xs" using split ids by auto
  show "succeeds u (f y) (\<lambda>_ w'. cleared (ls_ID ` {l \<in> set (xs @ [y]). stale l}) (cloud w) (cloud w'))"
  proof (cases "stale y")
    case True
    obtain sl where sl: "sliceOf (cloud w) (ls_ID y) = Some sl" "sl_listener sl = y" using sl [OF y(1) True] by blast
    have u: "consistent (cloud u)" "sliceOf (cloud u) (ls_ID y) = Some sl" "lbID \<in> dom (map_of (loadBalancers (cloud u)))"
      using I y(2) sl(1) lb by (auto simp: cleared_def)
    have set: "ls_ID ` {l \<in> set (xs @ [y]). stale l} = insert (ls_ID y) (ls_ID ` {l \<in> set xs. stale l})" using True by auto
    show ?thesis
      unfolding f(1) [OF True] set
      using succeeds_deleteListener [OF u, unfolded sl(2)] by (rule succeeds_mono) (rule cleared_removes [OF I])
  next
    case False
    then have "{l \<in> set (xs @ [y]). stale l} = {l \<in> set xs. stale l}" by auto
    then show ?thesis using I f(2) [OF False] by (simp add: succeeds_return)
  qed
qed

lemma listed_slices:
  assumes ok: "consistent s" and l: "l \<in> set (map fl_obj (filter (\<lambda>l. fl_loadbalancer_id l = lbID) (map snd (listeners s))))"
  shows "\<exists>sl. sliceOf s (ls_ID l) = Some sl \<and> sl_listener sl = l" and "(ls_ID l, lbID, ls_Name l, listenerKey l) \<in> set (roster s)"
proof -
  obtain i fl where fl: "(i, fl) \<in> set (listeners s)" "fl_obj fl = l" "fl_loadbalancer_id fl = lbID" using l by auto
  have at: "map_of (listeners s) i = Some fl" using fl(1) consistentD(4) [OF ok] by (simp add: map_of_is_SomeI)
  then have id: "ls_ID l = i" using consistentD(6) [OF ok] fl(2) by (auto simp: keyed_def)
  show "\<exists>sl. sliceOf s (ls_ID l) = Some sl \<and> sl_listener sl = l"
    using at fl(2) id by (simp add: sliceOf_def Let_def)
  show "(ls_ID l, lbID, ls_Name l, listenerKey l) \<in> set (roster s)"
    unfolding roster_entries using fl id by (force simp: entry_def)
qed

lemma listed_ids:
  assumes ok: "consistent s"
  shows "distinct (map ls_ID (map fl_obj (filter P (map snd (listeners s)))))"
proof -
  have "map (\<lambda>x. ls_ID (fl_obj (snd x))) (listeners s) = map fst (listeners s)"
  proof (rule map_cong [OF refl])
    fix x assume x: "x \<in> set (listeners s)"
    have "map_of (listeners s) (fst x) = Some (snd x)" using x consistentD(4) [OF ok] by (simp add: map_of_is_SomeI)
    then show "ls_ID (fl_obj (snd x)) = fst x" using consistentD(6) [OF ok] by (simp add: keyed_def)
  qed
  then have "map (\<lambda>l. ls_ID (fl_obj l)) (map snd (listeners s)) = map fst (listeners s)" by (simp only: map_map o_def)
  then have "distinct (map (\<lambda>l. ls_ID (fl_obj l)) (map snd (listeners s)))"
    using consistentD(4) [OF ok] by (simp only:)
  then have "distinct (map (\<lambda>l. ls_ID (fl_obj l)) (filter P (map snd (listeners s))))"
    by (rule distinct_map_filter)
  then show ?thesis by (simp add: o_def)
qed


subsection \<open>The reconciliation loop\<close>

text \<open>The listeners a reconciliation must leave alone: those of other balancers, and those of the balancer
  that have neither the port nor the name of the Service.\<close>

definition foreign :: "string \<Rightarrow> string \<Rightarrow> Service \<Rightarrow> string \<times> string \<times> string \<times> string \<Rightarrow> bool" where
  "foreign lbID name service = (\<lambda>(i, b, n, k). b \<noteq> lbID \<or> k \<notin> portKey ` set (Ports service) \<and> \<not> HasPrefix n (name @ ''_''))"

definition stale_ids :: "string \<Rightarrow> string \<Rightarrow> Service \<Rightarrow> fakeELB \<Rightarrow> string set" where
  "stale_ids lbID name service s = {i. \<exists>n k. (i, lbID, n, k) \<in> set (roster s) \<and> HasPrefix n (name @ ''_'') \<and>
     k \<notin> portKey ` set (Ports service)}"

definition spares :: "(string \<times> string \<times> string \<times> string \<Rightarrow> bool) \<Rightarrow> fakeELB \<Rightarrow> fakeELB \<Rightarrow> bool" where
  "spares P s s' \<longleftrightarrow> (\<forall>e \<in> set (roster s). P e \<longrightarrow> e \<in> set (roster s') \<and> sliceOf s' (fst e) = sliceOf s (fst e))"

lemma roster_unique:
  assumes "consistent s" and "(i, b, n, k) \<in> set (roster s)" and "(i, b', n', k') \<in> set (roster s)"
  shows "b' = b \<and> n' = n \<and> k' = k"
  using eq_key_imp_eq_value [OF roster_ids(1) [OF assms(1)] assms(2,3)] by simp

lemma listed_entry:
  assumes "consistent s"
  shows "(i, lbID, n, k) \<in> set (roster s) \<longleftrightarrow>
    (\<exists>l \<in> set (map fl_obj (filter (\<lambda>l. fl_loadbalancer_id l = lbID) (map snd (listeners s)))).
       ls_ID l = i \<and> ls_Name l = n \<and> listenerKey l = k)"
proof
  assume "(i, lbID, n, k) \<in> set (roster s)"
  then obtain fl where fl: "(i, fl) \<in> set (listeners s)" "fl_loadbalancer_id fl = lbID" "ls_Name (fl_obj fl) = n"
    "listenerKey (fl_obj fl) = k"
    by (auto simp: roster_entries entry_def)
  have "map_of (listeners s) i = Some fl" using fl(1) consistentD(4) [OF assms] by (simp add: map_of_is_SomeI)
  then have "ls_ID (fl_obj fl) = i" using consistentD(6) [OF assms] by (auto simp: keyed_def)
  then show "\<exists>l \<in> set (map fl_obj (filter (\<lambda>l. fl_loadbalancer_id l = lbID) (map snd (listeners s)))).
       ls_ID l = i \<and> ls_Name l = n \<and> listenerKey l = k"
    using fl by force
next
  assume "\<exists>l \<in> set (map fl_obj (filter (\<lambda>l. fl_loadbalancer_id l = lbID) (map snd (listeners s)))).
       ls_ID l = i \<and> ls_Name l = n \<and> listenerKey l = k"
  then show "(i, lbID, n, k) \<in> set (roster s)" using listed_slices(2) [OF assms] by blast
qed

lemma stale_ids_listed:
  assumes "consistent s"
  shows "stale_ids lbID name service s =
    ls_ID ` {l \<in> set (map fl_obj (filter (\<lambda>l. fl_loadbalancer_id l = lbID) (map snd (listeners s)))).
      HasPrefix (ls_Name l) (name @ ''_'') \<and> listenerKey l \<notin> portKey ` set (Ports service)}"
  unfolding stale_ids_def listed_entry [OF assms] by blast

text \<open>\<open>s1\<close> after the loop over the ports, \<open>s'\<close> after the loop over the listeners listed before it.\<close>

definition reconciled ::
  "string \<Rightarrow> string \<Rightarrow> serviceSettings \<Rightarrow> Service \<Rightarrow> Node list \<Rightarrow> fakeELB \<Rightarrow> fakeELB \<Rightarrow> fakeELB \<Rightarrow> bool" where
  "reconciled lbID name settings service nodes s0 s1 s' \<longleftrightarrow> consistent s0 \<and>
     ports_done lbID name settings service nodes s0 (Ports service) s1 \<and>
     cleared (stale_ids lbID name service s0) s1 s'"

lemma reconciledD:
  assumes "reconciled lbID name settings service nodes s0 s1 s'"
  shows "consistent s0" and "ports_done lbID name settings service nodes s0 (Ports service) s1"
    and "cleared (stale_ids lbID name service s0) s1 s'"
  using assms by (simp_all add: reconciled_def)


lemma reconciled_kept:
  assumes rec: "reconciled lbID name settings service nodes s0 s1 s'"
    and "(i, b, n, k) \<in> set (roster s1)" and "b \<noteq> lbID \<or> k \<in> portKey ` set (Ports service) \<or> \<not> HasPrefix n (name @ ''_'')"
  shows "i \<notin> stale_ids lbID name service s0"
proof
  note before = reconciledD(2) [OF rec]
  assume "i \<in> stale_ids lbID name service s0"
  then obtain n' k' where e: "(i, lbID, n', k') \<in> set (roster s0)" "HasPrefix n' (name @ ''_'')"
    "k' \<notin> portKey ` set (Ports service)" unfolding stale_ids_def by blast
  then have "(i, lbID, n', k') \<in> set (roster s1)" using before by (auto simp: ports_done_def)
  from roster_unique [OF ports_doneD(1) [OF before] assms(2) this] show False using e(2,3) assms(3) by blast
qed

lemma reconciled_roster:
  assumes rec: "reconciled lbID name settings service nodes s0 s1 s'"
  shows "set (roster s') = {e \<in> set (roster s1). fst e \<notin> stale_ids lbID name service s0}"
  using reconciledD(3) [OF rec] by (simp add: cleared_def)

lemma reconciled_holder:
  assumes rec: "reconciled lbID name settings service nodes s0 s1 s'" and "port \<in> set (Ports service)"
  shows "holder (roster s') lbID (portKey port) = holder (roster s1) lbID (portKey port)"
proof -
  have "holder (filter (\<lambda>e. fst e \<notin> stale_ids lbID name service s0) (roster s1)) lbID (portKey port) =
      holder (roster s1) lbID (portKey port)"
    by (rule holder_filter) (use reconciled_kept [OF rec] assms(2) in \<open>fastforce simp: image_iff\<close>)
  then show ?thesis using reconciledD(3) [OF rec] by (simp add: cleared_def)
qed

lemma reconciled_ports:
  assumes rec: "reconciled lbID name settings service nodes s0 s1 s'"
    and "port \<in> set (Ports service)"
  shows "\<exists>i sl. holder (roster s') lbID (portKey port) = Some i \<and> sliceOf s' i = Some sl \<and>
    slice_settled name settings service nodes port sl"
proof -
  note before = reconciledD(2) [OF rec] and clear = reconciledD(3) [OF rec]
  obtain i sl where i: "holder (roster s1) lbID (portKey port) = Some i" "sliceOf s1 i = Some sl"
    "slice_settled name settings service nodes port sl" using ports_doneD(3) [OF before assms(2)] by blast
  have "\<exists>n. (i, lbID, n, portKey port) \<in> set (roster s1)" using i(1) by (rule holder_Some)
  then have "i \<notin> stale_ids lbID name service s0" using reconciled_kept [OF rec] assms(2) by blast
  then have "sliceOf s' i = Some sl" using clear i(2) by (simp add: cleared_def)
  moreover have "holder (roster s') lbID (portKey port) = Some i"
    using reconciled_holder [OF rec assms(2)] i(1) by simp
  ultimately show ?thesis using i(3) by blast
qed

lemma reconciled_no_stale:
  assumes rec: "reconciled lbID name settings service nodes s0 s1 s'"
    and "(i, lbID, n, k) \<in> set (roster s')" and "HasPrefix n (name @ ''_'')"
  shows "k \<in> portKey ` set (Ports service)"
proof (rule ccontr)
  note before = reconciledD(2) [OF rec]
  assume k: "k \<notin> portKey ` set (Ports service)"
  have e: "(i, lbID, n, k) \<in> set (roster s1)" "i \<notin> stale_ids lbID name service s0"
    using assms(2) by (auto simp: reconciled_roster [OF rec])
  obtain R where R: "roster s1 = roster s0 @ R" "\<forall>(i, b, n, k) \<in> set R. b = lbID \<and> k \<in> portKey ` set (Ports service)"
    by (rule ports_done_roster [OF before])
  have "(i, lbID, n, k) \<notin> set R" using R(2) k by blast
  then have "(i, lbID, n, k) \<in> set (roster s0)" using e(1) R(1) by simp
  then show False using e(2) assms(3) k unfolding stale_ids_def by blast
qed

lemma reconciled_spares:
  assumes rec: "reconciled lbID name settings service nodes s0 s1 s'"
  shows "spares (foreign lbID name service) s0 s'"
  unfolding spares_def
proof (intro ballI impI)
  note ok0 = reconciledD(1) [OF rec] and before = reconciledD(2) [OF rec] and clear = reconciledD(3) [OF rec]
  fix e assume e: "e \<in> set (roster s0)" and far: "foreign lbID name service e"
  obtain i b n k where e': "e = (i, b, n, k)" by (cases e)
  have way: "b \<noteq> lbID \<or> k \<notin> portKey ` set (Ports service) \<and> \<not> HasPrefix n (name @ ''_'')"
    using far by (simp add: foreign_def e')
  have in1: "(i, b, n, k) \<in> set (roster s1)" using e before by (auto simp: ports_done_def e')
  have live: "i \<notin> stale_ids lbID name service s0" by (rule reconciled_kept [OF rec in1]) (use way in blast)
  have "sliceOf s1 i = sliceOf s0 i"
  proof (rule ports_doneD(4) [OF before])
    show "i \<in> fst ` set (roster s0)" using e unfolding e' by force
    fix port assume port: "port \<in> set (Ports service)"
    show "holder (roster s0) lbID (portKey port) \<noteq> Some i"
    proof
      assume "holder (roster s0) lbID (portKey port) = Some i"
      then obtain n' where n': "(i, lbID, n', portKey port) \<in> set (roster s0)" using holder_Some by metis
      have "(i, b, n, k) \<in> set (roster s0)" using e by (simp add: e')
      from roster_unique [OF ok0 this n'] show False using way port by blast
    qed
  qed
  moreover have "sliceOf s' i = sliceOf s1 i" using clear live by (simp add: cleared_def)
  ultimately show "e \<in> set (roster s') \<and> sliceOf s' (fst e) = sliceOf s0 (fst e)"
    using in1 live by (simp add: reconciled_roster [OF rec] e')
qed

lemma reconciled_tidy: "reconciled lbID name settings service nodes s0 s1 s' \<Longrightarrow> tidy lbID name s0 \<Longrightarrow> tidy lbID name s'"
  using ports_done_tidy [OF reconciledD(2)] cleared_tidy [OF reconciledD(3)] by blast

text \<open>What makes a Service settled on the fake.\<close>

lemma settledI:
  assumes ok: "consistent s" and b: "map_of (loadBalancers s) lbID = Some b"
    and ports: "\<And>port. port \<in> set (Ports service) \<Longrightarrow> serveable nodes port"
    and slices: "\<And>port. port \<in> set (Ports service) \<Longrightarrow> \<exists>i sl. holder (roster s) lbID (portKey port) = Some i \<and>
      sliceOf s i = Some sl \<and> slice_settled name settings service nodes port sl"
    and stale: "\<And>i n k. (i, lbID, n, k) \<in> set (roster s) \<Longrightarrow> HasPrefix n (name @ ''_'') \<Longrightarrow> k \<in> portKey ` set (Ports service)"
  shows "settled fake_env ElbClient s name settings service nodes lbID b"
proof -
  have lb: "lbID \<noteq> '''' \<and> lb_ProvisioningStatus b = statusActive" using consistentD(9) [OF ok b] by simp
  have ne: "lbID \<noteq> ''''" using lb by simp
  have get: "loadbalancers_Get fake_env ElbClient lbID s = (Inr b, s)"
    using b by (simp add: fake_fields onElb_def getItem_def)
  let ?ls = "map fl_obj (filter (\<lambda>l. fl_loadbalancer_id l = lbID) (map snd (listeners s)))"
  have each: "\<exists>l. listenersByKey ?ls (portKey port) = Some l \<and> port_settled fake_env ElbClient s name settings service nodes l port"
    if port: "port \<in> set (Ports service)" for port
  proof -
    obtain i sl where i: "holder (roster s) lbID (portKey port) = Some i" "sliceOf s i = Some sl"
      "slice_settled name settings service nodes port sl" using slices [OF port] by blast
    have "listenersByKey ?ls (portKey port) = Some (sl_listener sl)" unfolding key_listener [OF ok] by (simp add: i)
    moreover have "port_settled fake_env ElbClient s name settings service nodes (sl_listener sl) port"
      using ok i(2,3) ports [OF port] by (rule port_settled_fake)
    ultimately show ?thesis by blast
  qed
  have stale: "listenerKey l \<in> portKey ` set (Ports service)" if "l \<in> set ?ls" "HasPrefix (ls_Name l) (name @ ''_'')" for l
    using listed_slices(2) [OF ok that(1)] that(2) by (rule stale)
  show ?thesis
    unfolding settled_def
    using get lb each stale list_listeners [OF ne, of s] by blast
qed

lemma reconciled_settled:
  assumes rec: "reconciled lbID name settings service nodes s0 s1 s'"
    and b: "map_of (loadBalancers s0) lbID = Some b" and ports: "\<forall>port \<in> set (Ports service). serveable nodes port"
  shows "settled fake_env ElbClient s' name settings service nodes lbID b"
proof (rule settledI)
  show "consistent s'" "map_of (loadBalancers s') lbID = Some b"
    using reconciledD(3) [OF rec] ports_doneD(2) [OF reconciledD(2) [OF rec]] b by (simp_all add: cleared_def)
qed (use ports reconciled_ports [OF rec] reconciled_no_stale [OF rec] in blast)+


text \<open>No listener of a wanted port carries a group the Service does not own.\<close>

definition own_groups :: "string \<Rightarrow> string \<Rightarrow> Service \<Rightarrow> fakeELB \<Rightarrow> bool" where
  "own_groups lbID name service s \<longleftrightarrow> (\<forall>port \<in> set (Ports service).
     case Option.bind (holder (roster s) lbID (portKey port)) (sliceOf s) of
       None \<Rightarrow> True | Some sl \<Rightarrow> no_foreign_group name service port sl)"

lemma succeeds_listListeners:
  assumes "lbID \<noteq> ''''" and "\<And>w'. cloud w' = cloud w \<Longrightarrow>
    Q (map fl_obj (filter (\<lambda>l. fl_loadbalancer_id l = lbID) (map snd (listeners (cloud w))))) w'"
  shows "succeeds w (listListeners fake_env ElbClient lbID) Q"
  unfolding listListeners_def lsList_def
  by (rule succeeds_bind, rule succeeds_wrap, rule succeeds_sdkCall, rule list_listeners [OF assms(1)],
      rule succeeds_lift, rule refl, rule assms(2)) simp

lemma succeeds_reconcile:
  assumes ok: "consistent (cloud w)" and b: "map_of (loadBalancers (cloud w)) (lb_ID b) = Some b"
    and keys: "distinct (map portKey (Ports service))" and own: "own_groups (lb_ID b) name service (cloud w)"
    and ports: "\<forall>port \<in> set (Ports service). serveable nodes port" and vals: "check_values settings"
  shows "succeeds w (reconcile fake_env ElbClient b name settings service nodes)
    (\<lambda>_ w'. \<exists>s1. reconciled (lb_ID b) name settings service nodes (cloud w) s1 (cloud w'))"
proof -
  let ?ls = "map fl_obj (filter (\<lambda>l. fl_loadbalancer_id l = lb_ID b) (map snd (listeners (cloud w))))"
  let ?stale = "\<lambda>l. HasPrefix (ls_Name l) (name @ ''_'') \<and> listenerKey l \<notin> portKey ` set (Ports service)"
  let ?f = "\<lambda>listener. if \<not> HasPrefix (ls_Name listener) (name @ ''_'') then returnG ()
       else if listenerKey listener \<in> set (map portKey (Ports service)) then returnG ()
       else deleteListener fake_env ElbClient (lb_ID b) name listener"
  have ne: "lb_ID b \<noteq> ''''" using consistentD(9) [OF ok b] by simp
  have rest: "succeeds w2 (eachG ?f ?ls) (\<lambda>_ w'. \<exists>s1. reconciled (lb_ID b) name settings service nodes (cloud w) s1 (cloud w'))"
    if mid: "ports_done (lb_ID b) name settings service nodes (cloud w) (Ports service) (cloud w2)" for w2
  proof -
    have "succeeds w2 (eachG ?f ?ls) (\<lambda>_ w'. cleared (ls_ID ` {l \<in> set ?ls. ?stale l}) (cloud w2) (cloud w'))"
    proof (rule succeeds_deleteListeners)
      show "consistent (cloud w2)" by (rule ports_doneD [OF mid])
      show "lb_ID b \<in> dom (map_of (loadBalancers (cloud w2)))" using ports_doneD(2) [OF mid] b by auto
      show "distinct (map ls_ID ?ls)" by (rule listed_ids [OF ok])
      fix l assume l: "l \<in> set ?ls" "?stale l"
      obtain sl where sl: "sliceOf (cloud w) (ls_ID l) = Some sl" "sl_listener sl = l" using listed_slices(1) [OF ok l(1)] by blast
      have e: "(ls_ID l, lb_ID b, ls_Name l, listenerKey l) \<in> set (roster (cloud w))" by (rule listed_slices(2) [OF ok l(1)])
      have "sliceOf (cloud w2) (ls_ID l) = sliceOf (cloud w) (ls_ID l)"
      proof (rule ports_doneD(4) [OF mid])
        show "ls_ID l \<in> fst ` set (roster (cloud w))" using e by force
        fix port assume port: "port \<in> set (Ports service)"
        show "holder (roster (cloud w)) (lb_ID b) (portKey port) \<noteq> Some (ls_ID l)"
        proof
          assume "holder (roster (cloud w)) (lb_ID b) (portKey port) = Some (ls_ID l)"
          then obtain n' where "(ls_ID l, lb_ID b, n', portKey port) \<in> set (roster (cloud w))" using holder_Some by metis
          from roster_unique [OF ok e this] show False using l(2) port by (metis image_eqI)
        qed
      qed
      then show "\<exists>sl. sliceOf (cloud w2) (ls_ID l) = Some sl \<and> sl_listener sl = l" using sl by simp
    qed simp_all
    then show ?thesis
      by (rule succeeds_mono) (use ok mid in \<open>unfold reconciled_def stale_ids_listed [OF ok], blast\<close>)
  qed
  show ?thesis
    unfolding reconcile_def
  proof (rule succeeds_bind, rule succeeds_listListeners [OF ne])
    fix w1 :: "fakeELB world" assume w1: "cloud w1 = cloud w"
    have "succeeds w1 (eachG (reconcilePort fake_env ElbClient b name settings service nodes (listenersByKey ?ls)) (Ports service))
      (\<lambda>_ w'. ports_done (lb_ID b) name settings service nodes (cloud w1) (Ports service) (cloud w'))"
    proof (rule succeeds_ports)
      show "no_foreign_group name service port sl"
        if "port \<in> set (Ports service)" "holder (roster (cloud w1)) (lb_ID b) (portKey port) = Some i" "sliceOf (cloud w1) i = Some sl"
        for port i sl
        using bspec [OF own [unfolded own_groups_def] that(1)] that(2,3) w1 by simp
    qed (use ok b keys ports vals w1 key_listener [OF ok] in auto)
    then show "succeeds w1 (bindG (eachG (reconcilePort fake_env ElbClient b name settings service nodes (listenersByKey ?ls)) (Ports service))
        (\<lambda>_. eachG ?f ?ls)) (\<lambda>_ w'. \<exists>s1. reconciled (lb_ID b) name settings service nodes (cloud w) s1 (cloud w'))"
      by (intro succeeds_bind, elim succeeds_mono) (rule rest, simp add: w1)
  qed
qed


subsection \<open>The balancer\<close>

text \<open>Listeners hang on existing balancers.\<close>

definition attached :: "fakeELB \<Rightarrow> bool" where
  "attached s \<longleftrightarrow> (\<forall>(i, b, n, k) \<in> set (roster s). b \<in> dom (map_of (loadBalancers s)))"

definition sound :: "fakeELB \<Rightarrow> bool" where
  "sound s \<longleftrightarrow> consistent s \<and> attached s"

text \<open>The balancer a lookup with these settings finds.\<close>

definition looked_up :: "string \<Rightarrow> serviceSettings \<Rightarrow> fakeELB \<Rightarrow> BalancerObj option" where
  "looked_up name settings s =
     (if LoadBalancerID settings \<noteq> '''' then map_of (loadBalancers s) (LoadBalancerID settings)
      else find (\<lambda>b. lb_Name b = name) (map snd (loadBalancers s)))"

lemma find_filter: "find P (filter (\<lambda>x. q \<or> P x) xs) = find P xs"
  by (induction xs) auto

lemma list_balancers: "loadbalancers_List fake_env ElbClient name s =
    (Inr (Inr (filter (\<lambda>b. name = '''' \<or> lb_Name b = name) (map snd (loadBalancers s)))), s)"
  by (simp add: fake_fields onElb_def fake_lbList_def)

lemma found_looked_up: "found_as fake_env ElbClient s name settings b \<longleftrightarrow> looked_up name settings s = Some b"
proof (cases "LoadBalancerID settings = ''''")
  case True
  then show ?thesis by (simp add: found_as_def looked_up_def list_balancers find_filter)
next
  case False
  then show ?thesis by (simp add: found_as_def looked_up_def fake_fields onElb_def getItem_def split: option.splits)
qed

lemma looked_up_at:
  assumes "consistent s" and "looked_up name settings s = Some b"
  shows "map_of (loadBalancers s) (lb_ID b) = Some b"
proof (cases "LoadBalancerID settings = ''''")
  case True
  then have "b \<in> set (map snd (loadBalancers s))" using assms(2) by (auto simp: looked_up_def find_Some_iff)
  then obtain i where "(i, b) \<in> set (loadBalancers s)" by auto
  then have "map_of (loadBalancers s) i = Some b" using consistentD(3) [OF assms(1)] by (simp add: map_of_is_SomeI)
  then show ?thesis using consistentD(5) [OF assms(1)] by (auto simp: keyed_def)
next
  case False
  then show ?thesis using assms consistentD(5) [OF assms(1)] by (auto simp: looked_up_def keyed_def)
qed

lemma succeeds_findLoadBalancer:
  assumes Q: "\<And>w'. cloud w' = cloud w \<Longrightarrow> Q (looked_up name settings (cloud w)) w'"
  shows "succeeds w (findLoadBalancer fake_env ElbClient settings name) Q"
proof (cases "LoadBalancerID settings = ''''")
  case True
  let ?bs = "filter (\<lambda>b. name = '''' \<or> lb_Name b = name) (map snd (loadBalancers (cloud w)))"
  have "succeeds w (bindG (wrapG ''failed to list load balancers: %w'' [] (lbList fake_env ElbClient name)) (\<lambda>pages.
        bindG (liftG pages) (\<lambda>items. returnG (find (\<lambda>b. lb_Name b = name) items)))) Q"
    unfolding lbList_def
    by (rule succeeds_bind, rule succeeds_wrap, rule succeeds_sdkCall, rule list_balancers, rule succeeds_bind,
        rule succeeds_lift, rule refl, rule succeeds_return)
      (use Q True in \<open>simp add: looked_up_def find_filter\<close>)
  then show ?thesis using True by (simp add: findLoadBalancer_def)
next
  case False
  show ?thesis
  proof (cases "looked_up name settings (cloud w)")
    case None
    let ?w = "w\<lparr>trace := trace w @ [LbGet (LoadBalancerID settings) (Inl (Http 404))]\<rparr>"
    have "findLoadBalancer fake_env ElbClient settings name w = (Ok None, ?w)"
      using None False by (simp add: findLoadBalancer_def getOrNone_def lbGet_def sdkCall_def catchG_def bindG_def looked_up_def
          fake_fields onElb_def getItem_def)
    then show ?thesis by (rule succeedsI) (use Q [of ?w] None in simp)
  next
    case (Some b)
    then have get: "loadbalancers_Get fake_env ElbClient (LoadBalancerID settings) (cloud w) = (Inr b, cloud w)"
      using False by (simp add: looked_up_def fake_fields onElb_def getItem_def)
    show ?thesis
      unfolding findLoadBalancer_def if_P [OF False] lbGet_def
      by (rule succeeds_found, rule succeeds_sdkCall, rule get) (use Q Some in simp)
  qed
qed

lemma looked_up_cong: "loadBalancers s' = loadBalancers s \<Longrightarrow> looked_up name settings s' = looked_up name settings s"
  by (simp add: looked_up_def)

text \<open>A balancer is added to the state.\<close>

definition adds_balancer :: "BalancerObj \<Rightarrow> fakeELB \<Rightarrow> fakeELB \<Rightarrow> bool" where
  "adds_balancer b s s' \<longleftrightarrow> consistent s' \<and> loadBalancers s' = loadBalancers s @ [(lb_ID b, b)] \<and>
     lb_ID b \<notin> dom (map_of (loadBalancers s)) \<and> roster s' = roster s \<and> sliceOf s' = sliceOf s"

lemma new_balancer:
  assumes ok: "consistent s" and run: "fake_lbCreate oo s = (Inr b, s')"
  shows "adds_balancer b s s'" and "lb_Name b = lc_Name oo"
proof -
  let ?i = "genID ''lb'' (nextID s + 1)"
  have b: "lb_ID b = ?i" "lb_ProvisioningStatus b = statusActive" "lb_Name b = lc_Name oo"
    and s': "loadBalancers s' = loadBalancers s @ [(?i, b)]" "nextID s + 1 \<le> nextID s'"
      "listeners s' = listeners s" "pools s' = pools s" "monitors s' = monitors s" "members s' = members s" "ipGroups s' = ipGroups s"
    using run by (auto simp: fake_lbCreate_def Let_def statusActive_def split: option.splits)
  have new: "?i \<notin> dom (map_of (loadBalancers s))" by (rule ids_unusedD [OF consistentD(2) [OF ok]])
  then have map: "map_of (loadBalancers s') = (map_of (loadBalancers s))(?i \<mapsto> b)"
    unfolding s' by (simp add: map_of_snoc del: map_of_append)
  have "unused ''lb'' (nextID s + 1) (insert ?i (dom (map_of (loadBalancers s))))"
    using consistentD(2) [OF ok] by (auto simp: ids_unused_def intro: unused_insert)
  then have "unused ''lb'' (nextID s') (dom (map_of (loadBalancers s')))"
    unfolding map by (rule unused_mono) (use s'(2) in auto)
  then have "ids_unused s'"
    using consistentD(2) [OF ok] s' unfolding ids_unused_def by (auto intro: unused_mono)
  moreover have "fake_ids s'" by (rule fake_ids_mono [OF consistentD(1) [OF ok] s'(6)]) (use s'(2) in simp)
  moreover have "keyed lb_ID (map_of (loadBalancers s'))"
    unfolding map using consistentD(5) [OF ok] b(1) by (rule keyed_update)
  moreover have "distinct (map fst (loadBalancers s'))"
    using new consistentD(3) [OF ok] by (simp add: s' dom_map_of_conv_image_fst)
  moreover have "\<forall>i x. map_of (loadBalancers s') i = Some x \<longrightarrow> i \<noteq> '''' \<and> lb_ProvisioningStatus x = statusActive"
    using consistentD(9) [OF ok] b by (auto simp: map)
  ultimately have "consistent s'"
    using ok s'(3-) by (simp add: consistent_def)
  then show "adds_balancer b s s'"
    using s' new b by (simp add: adds_balancer_def roster_def sliceOf_def [abs_def] fake_store_def)
  show "lb_Name b = lc_Name oo" by (rule b)
qed

lemma succeeds_createLoadBalancer:
  assumes ok: "consistent (cloud w)" and "SubnetID settings \<noteq> ''''" and "AvailabilityZones settings \<noteq> []"
    and Q: "\<And>b w'. adds_balancer b (cloud w) (cloud w') \<Longrightarrow> lb_Name b = name \<Longrightarrow> Q b w'"
  shows "succeeds w (createLoadBalancer fake_env ElbClient settings name service) Q"
proof -
  have make: "succeeds w (lbCreate fake_env ElbClient oo) Q" if name: "lc_Name oo = name" for oo
  proof -
    obtain b s' where run: "fake_lbCreate oo (cloud w) = (Inr b, s')" by (simp add: fake_lbCreate_def Let_def)
    then have call: "loadbalancers_Create fake_env ElbClient oo (cloud w) = (Inr b, s')" by (simp add: fake_fields onElb_def)
    show ?thesis
      unfolding lbCreate_def
      by (rule succeeds_sdkCall, rule call, rule Q) (use new_balancer [OF ok run] name in simp_all)
  qed
  show ?thesis
    unfolding createLoadBalancer_def if_not_P [OF assms(2)] if_not_P [OF assms(3)] Let_def
    by (rule succeeds_wrap, rule make) simp
qed


subsection \<open>EnsureLoadBalancer\<close>

definition balancer_ready :: "string \<Rightarrow> serviceSettings \<Rightarrow> Service \<Rightarrow> fakeELB \<Rightarrow> bool" where
  "balancer_ready name settings service s \<longleftrightarrow> (case looked_up name settings s of
     Some b \<Rightarrow> own_groups (lb_ID b) name service s
   | None \<Rightarrow> LoadBalancerID settings = '''' \<and> SubnetID settings \<noteq> '''' \<and> AvailabilityZones settings \<noteq> [])"

text \<open>What happens to the roster: the stale listeners of the Service go, those of its new ports are added.\<close>

definition stale_entry :: "string \<Rightarrow> string \<Rightarrow> Service \<Rightarrow> string \<times> string \<times> string \<times> string \<Rightarrow> bool" where
  "stale_entry lbID name service = (\<lambda>(i, b, n, k). b = lbID \<and> HasPrefix n (name @ ''_'') \<and> k \<notin> portKey ` set (Ports service))"

definition rearranged :: "string \<Rightarrow> string \<Rightarrow> Service \<Rightarrow> fakeELB \<Rightarrow> fakeELB \<Rightarrow> bool" where
  "rearranged lbID name service s s' \<longleftrightarrow> (\<exists>R. roster s' = filter (\<lambda>e. \<not> stale_entry lbID name service e) (roster s) @ R \<and>
     (\<forall>(i, b, n, k) \<in> set R. b = lbID \<and> k \<in> portKey ` set (Ports service) \<and> (\<exists>port. n = resourceName name port)))"

text \<open>The listeners of other balancers.\<close>

definition elsewhere :: "string \<Rightarrow> fakeELB \<Rightarrow> (string \<times> string \<times> string \<times> string) list" where
  "elsewhere lbID s = filter (\<lambda>(i, b, n, k). b \<noteq> lbID) (roster s)"

text \<open>The listener that holds a port of the Service keeps it.\<close>

definition keeps_holders :: "string \<Rightarrow> Service \<Rightarrow> fakeELB \<Rightarrow> fakeELB \<Rightarrow> bool" where
  "keeps_holders lbID service s s' \<longleftrightarrow> (\<forall>port \<in> set (Ports service). \<forall>i.
     holder (roster s) lbID (portKey port) = Some i \<longrightarrow> holder (roster s') lbID (portKey port) = Some i)"

lemma reconciled_keeps_holders:
  assumes rec: "reconciled lbID name settings service nodes s0 s1 s'"
  shows "keeps_holders lbID service s0 s'"
  unfolding keeps_holders_def using ports_doneD(5) [OF reconciledD(2) [OF rec]] reconciled_holder [OF rec] by simp

definition ensured ::
  "string \<Rightarrow> serviceSettings \<Rightarrow> Service \<Rightarrow> Node list \<Rightarrow> fakeELB \<Rightarrow> BalancerObj \<Rightarrow> fakeELB \<Rightarrow> bool" where
  "ensured name settings service nodes s b s' \<longleftrightarrow> sound s' \<and> looked_up name settings s' = Some b \<and>
     settled fake_env ElbClient s' name settings service nodes (lb_ID b) b \<and>
     spares (foreign (lb_ID b) name service) s s' \<and> rearranged (lb_ID b) name service s s' \<and>
     (tidy (lb_ID b) name s \<longrightarrow> tidy (lb_ID b) name s') \<and> keeps_holders (lb_ID b) service s s' \<and>
     loadBalancers s' = (case looked_up name settings s of Some _ \<Rightarrow> loadBalancers s | None \<Rightarrow> loadBalancers s @ [(lb_ID b, b)])"

text \<open>The state after the balancer was found or created.\<close>

definition provided :: "string \<Rightarrow> serviceSettings \<Rightarrow> Service \<Rightarrow> fakeELB \<Rightarrow> BalancerObj \<Rightarrow> fakeELB \<Rightarrow> bool" where
  "provided name settings service s b s1 \<longleftrightarrow> consistent s1 \<and> attached s1 \<and> map_of (loadBalancers s1) (lb_ID b) = Some b \<and>
     roster s1 = roster s \<and> sliceOf s1 = sliceOf s \<and> looked_up name settings s1 = Some b \<and> own_groups (lb_ID b) name service s1 \<and>
     loadBalancers s1 = (case looked_up name settings s of Some _ \<Rightarrow> loadBalancers s | None \<Rightarrow> loadBalancers s @ [(lb_ID b, b)])"

lemma providedD:
  assumes "provided name settings service s b s1"
  shows "consistent s1" and "attached s1" and "map_of (loadBalancers s1) (lb_ID b) = Some b" and "roster s1 = roster s"
    and "sliceOf s1 = sliceOf s" and "looked_up name settings s1 = Some b" and "own_groups (lb_ID b) name service s1"
    and "loadBalancers s1 = (case looked_up name settings s of Some _ \<Rightarrow> loadBalancers s | None \<Rightarrow> loadBalancers s @ [(lb_ID b, b)])"
  using assms unfolding provided_def by blast+

lemma find_last: "find P xs = None \<Longrightarrow> P x \<Longrightarrow> find P (xs @ [x]) = Some x"
  by (induction xs) (auto split: if_splits)

lemma provided_found:
  "sound s \<Longrightarrow> looked_up name settings s = Some b \<Longrightarrow> own_groups (lb_ID b) name service s \<Longrightarrow> provided name settings service s b s"
  using looked_up_at by (simp add: provided_def sound_def)

lemma provided_created:
  assumes s: "sound s" and none: "looked_up name settings s = None" and new: "adds_balancer b s s1"
    and b: "lb_Name b = name" "LoadBalancerID settings = ''''"
  shows "provided name settings service s b s1"
proof -
  have s1: "consistent s1" "loadBalancers s1 = loadBalancers s @ [(lb_ID b, b)]" "lb_ID b \<notin> dom (map_of (loadBalancers s))"
    "roster s1 = roster s" "sliceOf s1 = sliceOf s" using new by (simp_all add: adds_balancer_def)
  have map: "map_of (loadBalancers s1) = (map_of (loadBalancers s))(lb_ID b \<mapsto> b)"
    unfolding s1(2) using s1(3) by (rule map_of_snoc)
  have "attached s1" using s by (fastforce simp: sound_def attached_def s1(4) map)
  moreover have "looked_up name settings s1 = Some b"
    using none b by (simp add: looked_up_def s1(2) find_last)
  moreover have "holder (roster s1) (lb_ID b) key = None" for key
  proof (rule ccontr)
    assume "holder (roster s1) (lb_ID b) key \<noteq> None"
    then obtain i where "holder (roster s) (lb_ID b) key = Some i" by (auto simp: s1(4))
    then obtain n where "(i, lb_ID b, n, key) \<in> set (roster s)" using holder_Some by metis
    then show False using s s1(3) by (auto simp: sound_def attached_def)
  qed
  then have "own_groups (lb_ID b) name service s1" by (simp add: own_groups_def)
  moreover have "map_of (loadBalancers s1) (lb_ID b) = Some b" by (simp add: map)
  ultimately show ?thesis using s1 none unfolding provided_def by simp
qed

lemma reconciled_attached:
  assumes rec: "reconciled lbID name settings service nodes s0 s1 s'" and att: "attached s0" and lb: "lbID \<in> dom (map_of (loadBalancers s0))"
  shows "attached s'"
proof -
  note before = reconciledD(2) [OF rec]
  obtain R where R: "roster s1 = roster s0 @ R" "\<forall>(i, b, n, k) \<in> set R. b = lbID \<and> k \<in> portKey ` set (Ports service)"
    by (rule ports_done_roster [OF before])
  have same: "loadBalancers s' = loadBalancers s0"
    using reconciledD(3) [OF rec] ports_doneD(2) [OF before] by (simp add: cleared_def)
  have "b \<in> dom (map_of (loadBalancers s0))" if "(i, b, n, k) \<in> set (roster s')" for i b n k
  proof (cases "(i, b, n, k) \<in> set (roster s0)")
    case True
    then show ?thesis using att unfolding attached_def by blast
  next
    case False
    then have "(i, b, n, k) \<in> set R" using that R(1) by (simp add: reconciled_roster [OF rec])
    then have "b = lbID" using R(2) by blast
    then show ?thesis using lb by simp
  qed
  then show ?thesis unfolding attached_def same by blast
qed

lemma reconciled_rearranged:
  assumes rec: "reconciled lbID name settings service nodes s0 s1 s'"
  shows "rearranged lbID name service s0 s'"
proof -
  obtain R where R: "roster s1 = roster s0 @ R"
    "\<forall>(i, b, n, k) \<in> set R. b = lbID \<and> k \<in> portKey ` set (Ports service) \<and> (\<exists>port. n = resourceName name port)"
    using reconciledD(2) [OF rec] unfolding ports_done_def by blast
  have gone: "fst e \<in> stale_ids lbID name service s0 \<longleftrightarrow> stale_entry lbID name service e" if e: "e \<in> set (roster s1)" for e
  proof
    assume i: "fst e \<in> stale_ids lbID name service s0"
    obtain i b n k where e': "e = (i, b, n, k)" by (cases e)
    show "stale_entry lbID name service e"
      using reconciled_kept [OF rec e [unfolded e']] i unfolding e' stale_entry_def by auto
  next
    assume st: "stale_entry lbID name service e"
    obtain i b n k where e': "e = (i, b, n, k)" by (cases e)
    have "e \<notin> set R" using R(2) st unfolding e' stale_entry_def by blast
    then have "e \<in> set (roster s0)" using e R(1) by simp
    then show "fst e \<in> stale_ids lbID name service s0" using st unfolding e' stale_entry_def stale_ids_def by auto
  qed
  have "roster s' = filter (\<lambda>e. \<not> stale_entry lbID name service e) (roster s1)"
    using reconciledD(3) [OF rec] gone by (auto simp: cleared_def intro: filter_cong)
  moreover have "filter (\<lambda>e. \<not> stale_entry lbID name service e) R = R"
    unfolding filter_id_conv using R(2) by (fastforce simp: stale_entry_def)
  ultimately show ?thesis using R unfolding rearranged_def by (intro exI [of _ R]) simp
qed

lemma rearranged_elsewhere:
  assumes "rearranged lbID name service s s'"
  shows "elsewhere lbID s' = elsewhere lbID s"
proof -
  obtain R where R: "roster s' = filter (\<lambda>e. \<not> stale_entry lbID name service e) (roster s) @ R"
    "\<forall>(i, b, n, k) \<in> set R. b = lbID \<and> k \<in> portKey ` set (Ports service) \<and> (\<exists>port. n = resourceName name port)"
    using assms unfolding rearranged_def by blast
  have "filter (\<lambda>(i, b, n, k). b \<noteq> lbID) R = []" unfolding filter_empty_conv using R(2) by fastforce
  moreover have "filter (\<lambda>(i, b, n, k). b \<noteq> lbID) (filter (\<lambda>e. \<not> stale_entry lbID name service e) (roster s)) = elsewhere lbID s"
    by (auto simp: elsewhere_def stale_entry_def intro!: filter_cong)
  ultimately show ?thesis by (simp add: elsewhere_def R(1))
qed

lemma provided_ensured:
  assumes prov: "provided name settings service s b s1" and rec: "reconciled (lb_ID b) name settings service nodes s1 s2 s'"
    and ports: "\<forall>port \<in> set (Ports service). serveable nodes port"
  shows "ensured name settings service nodes s b s' \<and> map_of (loadBalancers s') (lb_ID b) = Some b"
proof -
  note s1 = providedD(2-6) [OF prov] and lbs = providedD(8) [OF prov]
  have s': "consistent s'" "loadBalancers s' = loadBalancers s1"
    using reconciledD(3) [OF rec] ports_doneD(2) [OF reconciledD(2) [OF rec]] by (simp_all add: cleared_def)
  have "attached s'" by (rule reconciled_attached [OF rec s1(1)]) (use s1(2) in blast)
  moreover have "spares (foreign (lb_ID b) name service) s s'"
    using reconciled_spares [OF rec] by (simp add: spares_def s1(3,4))
  moreover have "settled fake_env ElbClient s' name settings service nodes (lb_ID b) b"
    using rec s1(2) ports by (rule reconciled_settled)
  moreover have "looked_up name settings s' = Some b" using s1(5) looked_up_cong [OF s'(2)] by simp
  moreover have "tidy (lb_ID b) name s \<longrightarrow> tidy (lb_ID b) name s'"
    using reconciled_tidy [OF rec] by (simp add: tidy_def s1(3,4))
  moreover have "rearranged (lb_ID b) name service s s'"
    using reconciled_rearranged [OF rec] by (simp add: rearranged_def s1(3))
  moreover have "keeps_holders (lb_ID b) service s s'"
    using reconciled_keeps_holders [OF rec] by (simp add: keeps_holders_def s1(3))
  ultimately show ?thesis using s' s1(2) lbs by (simp add: ensured_def sound_def)
qed

text \<open>What follows once the balancer is there.\<close>

abbreviation fillBalancer ::
  "string \<Rightarrow> serviceSettings \<Rightarrow> Service \<Rightarrow> Node list \<Rightarrow> BalancerObj \<Rightarrow> (fakeELB world, LoadBalancerStatus) go" where
  "fillBalancer name settings service nodes balancer \<equiv> bindG (waitForActive fake_env ElbClient (lb_ID balancer)) (\<lambda>_.
     bindG (reconcile fake_env ElbClient balancer name settings service nodes) (\<lambda>_.
     bindG (wrapG ''failed to get load balancer after reconcile: %w'' [] (lbGet fake_env ElbClient (lb_ID balancer))) (\<lambda>balancer'.
     returnG (lbStatus balancer'))))"

lemma succeeds_fillBalancer:
  assumes prov: "provided name settings service s b (cloud w)" and keys: "distinct (map portKey (Ports service))"
    and ports: "\<forall>port \<in> set (Ports service). serveable nodes port" and vals: "check_values settings"
  shows "succeeds w (fillBalancer name settings service nodes b)
    (\<lambda>st w'. \<exists>b. st = lbStatus b \<and> ensured name settings service nodes s b (cloud w'))" (is "succeeds w _ ?Q")
proof (rule succeeds_bind, rule succeeds_active)
  have b: "consistent (cloud w)" "map_of (loadBalancers (cloud w)) (lb_ID b) = Some b" "own_groups (lb_ID b) name service (cloud w)"
    by (rule providedD [OF prov])+
  then show "active (lb_ID b) (cloud w)" by (intro consistent_active) auto
  fix w2 :: "fakeELB world" assume "steady w w2"
  then have w2: "cloud w2 = cloud w" by (rule steadyD)
  have "succeeds w2 (reconcile fake_env ElbClient b name settings service nodes)
    (\<lambda>_ w'. \<exists>s1. reconciled (lb_ID b) name settings service nodes (cloud w2) s1 (cloud w'))"
    by (rule succeeds_reconcile) (use b keys ports vals w2 in simp_all)
  then show "succeeds w2 (bindG (reconcile fake_env ElbClient b name settings service nodes) (\<lambda>_.
        bindG (wrapG ''failed to get load balancer after reconcile: %w'' [] (lbGet fake_env ElbClient (lb_ID b))) (\<lambda>balancer'.
        returnG (lbStatus balancer')))) ?Q"
  proof (intro succeeds_bind, elim succeeds_mono exE)
    fix y s2 and w3 :: "fakeELB world" assume rec: "reconciled (lb_ID b) name settings service nodes (cloud w2) s2 (cloud w3)"
    have post: "ensured name settings service nodes s b (cloud w3) \<and> map_of (loadBalancers (cloud w3)) (lb_ID b) = Some b"
      using prov rec [unfolded w2] ports by (rule provided_ensured)
    then have get: "loadbalancers_Get fake_env ElbClient (lb_ID b) (cloud w3) = (Inr b, cloud w3)"
      by (simp add: fake_fields onElb_def getItem_def)
    show "succeeds w3 (bindG (wrapG ''failed to get load balancer after reconcile: %w'' [] (lbGet fake_env ElbClient (lb_ID b)))
        (\<lambda>balancer'. returnG (lbStatus balancer'))) ?Q"
      unfolding lbGet_def
      by (rule succeeds_bind, rule succeeds_wrap, rule succeeds_sdkCall, rule get, rule succeeds_return) (use post in auto)
  qed
qed

lemma succeeds_EnsureLoadBalancer:
  assumes s: "sound (cloud w)" and conf: "settingsForService (opts lb) service = Inr settings" and client: "newClient lb = returnG ElbClient"
    and valid: "Ports service \<noteq> []" "validatePorts service = Inr u" and keys: "distinct (map portKey (Ports service))"
    and ports: "\<forall>port \<in> set (Ports service). serveable nodes port" and vals: "check_values settings"
    and ready: "balancer_ready (GetLoadBalancerName cl service) settings service (cloud w)"
  shows "succeeds w (EnsureLoadBalancer fake_env lb cl service nodes)
    (\<lambda>st w'. \<exists>b. st = lbStatus b \<and> ensured (GetLoadBalancerName cl service) settings service nodes (cloud w) b (cloud w'))"
    (is "succeeds w _ ?Q")
proof -
  let ?name = "GetLoadBalancerName cl service"
  note fill = succeeds_fillBalancer [OF _ keys ports vals]
  have ne: "nodes \<noteq> []"
    using ports valid(1) by (cases "Ports service") (auto simp: serveable_def)
  show ?thesis
    unfolding EnsureLoadBalancer_def if_not_P [OF valid(1)] valid(2) liftG_simps bindG_return if_not_P [OF ne] conf client Let_def
  proof (rule succeeds_bind, rule succeeds_findLoadBalancer)
    fix w1 :: "fakeELB world" assume w1: "cloud w1 = cloud w"
    show "succeeds w1 (bindG (case looked_up ?name settings (cloud w) of Some balancer \<Rightarrow> returnG balancer
          | None \<Rightarrow> if LoadBalancerID settings \<noteq> '''' then failG (Errorf ''load balancer %q referenced by annotation %s not found''
                    [LoadBalancerID settings, AnnotationID])
                else createLoadBalancer fake_env ElbClient settings ?name service) (fillBalancer ?name settings service nodes)) ?Q"
    proof (cases "looked_up ?name settings (cloud w)")
      case (Some b)
      then have "provided ?name settings service (cloud w) b (cloud w1)"
        using ready s w1 by (simp add: provided_found balancer_ready_def)
      then show ?thesis unfolding Some option.case bindG_return by (rule fill)
    next
      case None
      then have go: "LoadBalancerID settings = ''''" "SubnetID settings \<noteq> ''''" "AvailabilityZones settings \<noteq> []"
        using ready by (simp_all add: balancer_ready_def)
      then have nn: "\<not> LoadBalancerID settings \<noteq> ''''" by simp
      show ?thesis
        unfolding None option.case if_not_P [OF nn]
      proof (rule succeeds_bind, rule succeeds_createLoadBalancer [OF _ go(2,3)])
        show "consistent (cloud w1)" using s w1 by (simp add: sound_def)
        fix b and w' :: "fakeELB world" assume "adds_balancer b (cloud w1) (cloud w')" "lb_Name b = ?name"
        then show "succeeds w' (fillBalancer ?name settings service nodes b) ?Q"
          unfolding w1 by (intro fill provided_created [OF s None _ _ go(1)])
      qed
    qed
  qed
qed


end
