(* ===== verification/Fake_Changes.thy ===== *)
theory Fake_Changes
  imports Fake_Lifecycle
begin

section \<open>Deletion and node changes on the fake ELB\<close>

text \<open>
  \<open>EnsureLoadBalancerDeleted\<close> on a consistent \<open>fakeELB\<close> succeeds and leaves nothing of the Service behind
  (\<open>dismissed\<close>); \<open>UpdateLoadBalancer\<close> brings a settled Service to the new nodes (\<open>updated\<close>); creation
  followed by deletion gives the listeners and balancers there were (\<open>ensured_dismissed\<close>).
\<close>

subsection \<open>EnsureLoadBalancerDeleted\<close>

text \<open>The listeners of balancer \<open>lbID\<close> that go with the Service: all of them, or on a shared balancer those
  with its name.\<close>

definition goes :: "bool \<Rightarrow> string \<Rightarrow> string \<Rightarrow> string \<times> string \<times> string \<times> string \<Rightarrow> bool" where
  "goes shared lbID name = (\<lambda>(i, b, n, k). b = lbID \<and> (shared \<longrightarrow> HasPrefix n (name @ ''_'')))"

definition without :: "bool \<Rightarrow> string \<Rightarrow> string \<Rightarrow> fakeELB \<Rightarrow> fakeELB \<Rightarrow> bool" where
  "without shared lbID name s s' \<longleftrightarrow> roster s' = filter (\<lambda>e. \<not> goes shared lbID name e) (roster s) \<and>
     (\<forall>e \<in> set (roster s'). sliceOf s' (fst e) = sliceOf s (fst e)) \<and>
     loadBalancers s' = (if shared then loadBalancers s else AList.delete lbID (loadBalancers s))"

definition dismissed :: "string \<Rightarrow> serviceSettings \<Rightarrow> fakeELB \<Rightarrow> fakeELB \<Rightarrow> bool" where
  "dismissed name settings s s' \<longleftrightarrow> sound s' \<and> (case looked_up name settings s of None \<Rightarrow> s' = s
     | Some b \<Rightarrow> without (LoadBalancerID settings \<noteq> '''') (lb_ID b) name s s' \<and>
         (LoadBalancerID settings = '''' \<and> EipBandwidth settings > 0 \<and> \<not> EipKeep settings \<longrightarrow>
           (\<forall>e \<in> set (lb_PublicIps b). PublicIpID e \<noteq> '''' \<longrightarrow> PublicIpID e \<notin> dom (map_of (eips s')))))"

lemma drop_balancer:
  assumes ok: "consistent s" and s': "s' = s\<lparr>loadBalancers := AList.delete i (loadBalancers s)\<rparr>"
  shows "consistent s'" and "roster s' = roster s" and "sliceOf s' = sliceOf s"
proof -
  have map: "map_of (loadBalancers s') = (map_of (loadBalancers s))(i := None)" by (simp add: s' delete_conv')
  have dom: "dom (map_of (loadBalancers s')) \<subseteq> dom (map_of (loadBalancers s))" unfolding map by auto
  have "ids_unused s'"
    using consistentD(2) [OF ok] dom unfolding ids_unused_def s' by (auto intro: unused_mono)
  moreover have "fake_ids s'" by (rule fake_ids_mono [OF consistentD(1) [OF ok]]) (simp_all add: s')
  moreover have "keyed lb_ID (map_of (loadBalancers s'))" using consistentD(5) [OF ok] unfolding map by (simp add: keyed_def)
  moreover have "distinct (map fst (loadBalancers s'))"
    using consistentD(3) [OF ok] by (simp add: s' distinct_delete)
  moreover have "\<forall>j x. map_of (loadBalancers s') j = Some x \<longrightarrow> j \<noteq> '''' \<and> lb_ProvisioningStatus x = statusActive"
    using consistentD(9) [OF ok] unfolding map by (auto split: if_splits)
  ultimately show "consistent s'" using ok unfolding consistent_def by (simp add: s')
  show "roster s' = roster s" "sliceOf s' = sliceOf s"
    by (simp_all add: s' roster_def sliceOf_def [abs_def] fake_store_def)
qed

text \<open>Releasing EIPs touches nothing but \<open>eips\<close>.\<close>

definition eips_only :: "fakeELB \<Rightarrow> fakeELB \<Rightarrow> bool" where
  "eips_only s s' \<longleftrightarrow> (\<exists>I. s' = s\<lparr>eips := filter (\<lambda>e. fst e \<notin> I) (eips s)\<rparr>)"

lemma eips_only_same:
  assumes "eips_only s s'"
  shows "consistent s' = consistent s" and "roster s' = roster s" and "sliceOf s' = sliceOf s"
    and "loadBalancers s' = loadBalancers s" and "dom (map_of (eips s')) \<subseteq> dom (map_of (eips s))"
proof -
  obtain I where s': "s' = s\<lparr>eips := filter (\<lambda>e. fst e \<notin> I) (eips s)\<rparr>" using assms unfolding eips_only_def by blast
  show "consistent s' = consistent s" by (simp add: consistent_def s' fake_ids_def ids_unused_def)
  show "roster s' = roster s" "sliceOf s' = sliceOf s" "loadBalancers s' = loadBalancers s"
    by (simp_all add: s' roster_def sliceOf_def [abs_def] fake_store_def)
  show "dom (map_of (eips s')) \<subseteq> dom (map_of (eips s))" by (auto simp: s' dom_map_of_conv_image_fst)
qed

lemma eips_only_refl: "eips_only s s"
  unfolding eips_only_def by (rule exI [of _ "{}"]) simp

lemma eips_only_trans: "eips_only s s' \<Longrightarrow> eips_only s' s'' \<Longrightarrow> eips_only s s''"
  unfolding eips_only_def
proof (elim exE)
  fix I J assume "s' = s\<lparr>eips := filter (\<lambda>e. fst e \<notin> I) (eips s)\<rparr>" "s'' = s'\<lparr>eips := filter (\<lambda>e. fst e \<notin> J) (eips s')\<rparr>"
  then show "\<exists>I. s'' = s\<lparr>eips := filter (\<lambda>e. fst e \<notin> I) (eips s)\<rparr>" by (intro exI [of _ "I \<union> J"]) (simp add: conj_commute)
qed

lemma succeeds_releaseEip:
  shows "succeeds w (releaseEip fake_env NetworkClient eip)
    (\<lambda>_ w'. eips_only (cloud w) (cloud w') \<and> (PublicIpID eip \<noteq> '''' \<longrightarrow> PublicIpID eip \<notin> dom (map_of (eips (cloud w')))))"
proof (cases "PublicIpID eip = ''''")
  case True
  then show ?thesis by (simp add: releaseEip_def succeeds_return eips_only_refl)
next
  case False
  let ?i = "PublicIpID eip"
  let ?s = "cloud w\<lparr>eips := AList.delete ?i (eips (cloud w))\<rparr>"
  let ?fn = "catchG (eipDelete fake_env NetworkClient ?i) (\<lambda>e. if isConflict e \<or> isBadRequest e then failG (Http 409) else failG e)"
  have del: "AList.delete ?i (eips (cloud w)) = filter (\<lambda>e. fst e \<noteq> ?i) (eips (cloud w))"
    using map_delete [of id ?i "eips (cloud w)"] by simp
  have s: "eips_only (cloud w) ?s" "?i \<notin> dom (map_of (eips ?s))"
    unfolding eips_only_def del by (intro exI [of _ "{?i}"]) (simp_all add: dom_map_of_conv_image_fst image_iff)
  show ?thesis
  proof (cases "map_of (eips (cloud w)) ?i")
    case None
    let ?w = "w\<lparr>trace := trace w @ [EipDelete ?i (Inl (Http 404))]\<rparr>"
    have "?fn w = (Fail (Http 404), ?w)"
      using None by (simp add: eipDelete_def sdkCall_def catchG_def failG_def fake_fields fake_eipDelete_def delItem_def)
    then have "retryCond ?fn w = (Fail (Http 404), ?w)" by (simp add: retryCond_result)
    then have "attempts (Suc 5) e (retryCond ?fn) w = (Fail (Http 404), ?w)" for e
      unfolding attempts.simps by (simp add: bindG_def)
    then have "retryOnConflict fake_env ?i ?fn w = (Fail (Http 404), ?w)"
      by (simp add: retryOnConflict_def fake_fields patientBackoff_def conflictBackoff_def)
    then have "releaseEip fake_env NetworkClient eip w = (Ok (), ?w)"
      using False by (simp add: releaseEip_def ignoreNotFound_def catchG_def returnG_def)
    then show ?thesis by (rule succeedsI) (use None in \<open>auto simp: eips_only_refl\<close>)
  next
    case (Some a)
    then have del: "eips_Delete fake_env NetworkClient ?i (cloud w) = (Inr (), ?s)"
      by (simp add: fake_fields fake_eipDelete_def delItem_def)
    show ?thesis
      unfolding releaseEip_def if_not_P [OF False] eipDelete_def
      by (rule succeeds_ignore, rule succeeds_retry, rule succeeds_catch, rule succeeds_sdkCall, rule del) (use s in simp)
  qed
qed

lemma succeeds_releaseEips:
  assumes "newNetworkClient lb = returnG NetworkClient"
  shows "succeeds w (releaseEips fake_env lb es) (\<lambda>_ w'. eips_only (cloud w) (cloud w') \<and>
    (\<forall>e \<in> set es. PublicIpID (e :: PublicIpInfo) \<noteq> '''' \<longrightarrow> PublicIpID e \<notin> dom (map_of (eips (cloud w')))))"
proof (cases "es = []")
  case True
  then show ?thesis by (simp add: releaseEips_def succeeds_return eips_only_refl)
next
  case False
  show ?thesis
    unfolding releaseEips_def if_not_P [OF False] assms bindG_return
  proof (rule succeeds_each [where I = "\<lambda>xs u. eips_only (cloud w) (cloud u) \<and>
      (\<forall>e \<in> set xs. PublicIpID (e :: PublicIpInfo) \<noteq> '''' \<longrightarrow> PublicIpID e \<notin> dom (map_of (eips (cloud u))))"])
    fix xs ys x and u :: "fakeELB world"
    assume u: "eips_only (cloud w) (cloud u) \<and> (\<forall>e \<in> set xs. PublicIpID (e :: PublicIpInfo) \<noteq> '''' \<longrightarrow> PublicIpID e \<notin> dom (map_of (eips (cloud u))))"
    show "succeeds u (releaseEip fake_env NetworkClient x) (\<lambda>_ w'. eips_only (cloud w) (cloud w') \<and>
        (\<forall>e \<in> set (xs @ [x]). PublicIpID e \<noteq> '''' \<longrightarrow> PublicIpID e \<notin> dom (map_of (eips (cloud w')))))"
      by (rule succeeds_mono [OF succeeds_releaseEip]) (use u eips_only_same(5) eips_only_trans in fastforce)
  qed (simp_all add: eips_only_refl)
qed


lemma cleared_without:
  assumes s: "sound s" and clear: "cleared I s s1" and I: "I = {i. \<exists>e \<in> set (roster s). fst e = i \<and> goes shared lbID name e}"
    and s': "s' = (if shared then s1 else s1\<lparr>loadBalancers := AList.delete lbID (loadBalancers s1)\<rparr>)"
  shows "sound s' \<and> without shared lbID name s s'"
proof -
  have ok: "consistent s" "attached s" using s by (simp_all add: sound_def)
  have s1: "consistent s1" "loadBalancers s1 = loadBalancers s" "roster s1 = filter (\<lambda>e. fst e \<notin> I) (roster s)"
    "\<And>i. i \<notin> I \<Longrightarrow> sliceOf s1 i = sliceOf s i" using clear by (simp_all add: cleared_def)
  have same: "consistent s' \<and> roster s' = roster s1 \<and> sliceOf s' = sliceOf s1"
    using drop_balancer [OF s1(1) refl, of lbID] s1(1) by (simp add: s')
  have "fst e \<in> I \<longleftrightarrow> goes shared lbID name e" if e: "e \<in> set (roster s)" for e
  proof
    assume "fst e \<in> I"
    then obtain d where d: "d \<in> set (roster s)" "fst d = fst e" "goes shared lbID name d" unfolding I by blast
    obtain i b n k b' n' k' where ed: "e = (i, b, n, k)" "d = (i, b', n', k')" using d(2) by (cases e; cases d) auto
    from roster_unique [OF ok(1) e [unfolded ed] d(1) [unfolded ed]] d(3) show "goes shared lbID name e" unfolding ed by simp
  qed (use e I in blast)
  then have r: "roster s' = filter (\<lambda>e. \<not> goes shared lbID name e) (roster s)"
    using same s1(3) by (auto intro: filter_cong)
  have "\<forall>e \<in> set (roster s'). sliceOf s' (fst e) = sliceOf s (fst e)" using same s1(3,4) by auto
  moreover have lbs: "loadBalancers s' = (if shared then loadBalancers s else AList.delete lbID (loadBalancers s))"
    by (simp add: s' s1(2))
  moreover have "attached s'"
    using ok(2) unfolding attached_def r lbs by (fastforce simp: goes_def delete_conv')
  ultimately show ?thesis using same r by (simp add: sound_def without_def)
qed

lemma succeeds_destroyBalancer:
  assumes net: "newNetworkClient lb = returnG NetworkClient" and b: "map_of (loadBalancers (cloud w)) (lb_ID b) = Some b"
  shows "succeeds w (destroyBalancer fake_env lb ElbClient settings b)
    (\<lambda>_ w'. eips_only (cloud w\<lparr>loadBalancers := AList.delete (lb_ID b) (loadBalancers (cloud w))\<rparr>) (cloud w') \<and>
      (EipBandwidth settings > 0 \<and> \<not> EipKeep settings \<longrightarrow>
         (\<forall>e \<in> set (lb_PublicIps b). PublicIpID e \<noteq> '''' \<longrightarrow> PublicIpID e \<notin> dom (map_of (eips (cloud w'))))))"
proof -
  let ?s = "cloud w\<lparr>loadBalancers := AList.delete (lb_ID b) (loadBalancers (cloud w))\<rparr>"
  have del: "loadbalancers_Delete fake_env ElbClient (lb_ID b) (cloud w) = (Inr (), ?s)"
    using b by (simp add: fake_fields onElb_def fake_lbDelete_def delItem_def)
  show ?thesis
    unfolding destroyBalancer_def lbDelete_def
  proof (rule succeeds_bind, rule succeeds_ignore, rule succeeds_retry, rule succeeds_sdkCall, rule del)
    let ?w = "w\<lparr>cloud := ?s, trace := trace w @ [LbDelete (lb_ID b) (Inr ())]\<rparr>"
    show "succeeds ?w (if EipBandwidth settings > 0 \<and> \<not> EipKeep settings then releaseEips fake_env lb (lb_PublicIps b) else returnG ())
      (\<lambda>_ w'. eips_only ?s (cloud w') \<and> (EipBandwidth settings > 0 \<and> \<not> EipKeep settings \<longrightarrow>
         (\<forall>e \<in> set (lb_PublicIps b). PublicIpID e \<noteq> '''' \<longrightarrow> PublicIpID e \<notin> dom (map_of (eips (cloud w'))))))"
    proof (cases "EipBandwidth settings > 0 \<and> \<not> EipKeep settings")
      case True
      show ?thesis
        unfolding if_P [OF True] by (rule succeeds_mono [OF succeeds_releaseEips [OF net]]) simp
    next
      case False
      show ?thesis unfolding if_not_P [OF False] using False by (auto simp: eips_only_refl intro!: succeeds_return)
    qed
  qed
qed

text \<open>The listeners that a deletion removes: all of the balancer's own, or the service's on a shared one.\<close>

abbreviation going_ids :: "bool \<Rightarrow> string \<Rightarrow> string \<Rightarrow> fakeELB \<Rightarrow> string set" where
  "going_ids shared lbID name s \<equiv> {i. \<exists>e \<in> set (roster s). fst e = i \<and> goes shared lbID name e}"

abbreviation listed :: "string \<Rightarrow> fakeELB \<Rightarrow> ListenerObj list" where
  "listed lbID s \<equiv> map fl_obj (filter (\<lambda>l. fl_loadbalancer_id l = lbID) (map snd (listeners s)))"

lemma listed_going:
  assumes ok: "consistent s"
  shows "ls_ID ` {l \<in> set (listed lbID s). \<not> (shared \<and> \<not> HasPrefix (ls_Name l) (name @ ''_''))} = going_ids shared lbID name s"
    (is "_ ` ?L = _")
proof (intro equalityI subsetI)
  fix i assume "i \<in> ls_ID ` ?L"
  then obtain l where l: "l \<in> set (listed lbID s)" "\<not> (shared \<and> \<not> HasPrefix (ls_Name l) (name @ ''_''))" "ls_ID l = i" by blast
  have e: "(i, lbID, ls_Name l, listenerKey l) \<in> set (roster s)" using listed_slices(2) [OF ok l(1)] l(3) by simp
  have g: "goes shared lbID name (i, lbID, ls_Name l, listenerKey l)" using l(2) unfolding goes_def by blast
  show "i \<in> going_ids shared lbID name s" by (rule CollectI, rule bexI [OF _ e], rule conjI [OF fst_conv g])
next
  fix i assume "i \<in> going_ids shared lbID name s"
  then obtain n k where e: "(i, lbID, n, k) \<in> set (roster s)" "shared \<longrightarrow> HasPrefix n (name @ ''_'')"
    by (auto simp: goes_def)
  then obtain l where "l \<in> set (listed lbID s)" "ls_ID l = i" "ls_Name l = n" using iffD1 [OF listed_entry [OF ok] e(1)] by blast
  then show "i \<in> ls_ID ` ?L" using e(2) by blast
qed

lemma succeeds_clearListeners:
  assumes ok: "consistent (cloud w)" and lb: "lbID \<in> dom (map_of (loadBalancers (cloud w)))"
  shows "succeeds w (eachG (\<lambda>listener. if shared \<and> \<not> HasPrefix (ls_Name listener) (name @ ''_'') then returnG ()
          else deleteListener fake_env ElbClient lbID name listener) (listed lbID (cloud w)))
    (\<lambda>_ w'. cleared (going_ids shared lbID name (cloud w)) (cloud w) (cloud w'))"
  unfolding listed_going [OF ok, symmetric]
proof (rule succeeds_deleteListeners [OF ok lb listed_ids [OF ok]])
  show "\<exists>sl. sliceOf (cloud w) (ls_ID l) = Some sl \<and> sl_listener sl = l" if "l \<in> set (listed lbID (cloud w))" for l
    using listed_slices(1) [OF ok that] .
  fix l
  show "(if shared \<and> \<not> HasPrefix (ls_Name l) (name @ ''_'') then returnG () else deleteListener fake_env ElbClient lbID name l) =
      deleteListener fake_env ElbClient lbID name l" if "\<not> (shared \<and> \<not> HasPrefix (ls_Name l) (name @ ''_''))"
    using that by (rule if_not_P)
  show "(if shared \<and> \<not> HasPrefix (ls_Name l) (name @ ''_'') then returnG () else deleteListener fake_env ElbClient lbID name l) =
      returnG ()" if "\<not> \<not> (shared \<and> \<not> HasPrefix (ls_Name l) (name @ ''_''))"
    using iffD1 [OF not_not that] by (rule if_P)
qed

text \<open>A shared balancer stays, an own one goes with its addresses.\<close>

lemma succeeds_dismissBalancer:
  assumes s: "sound s" and b: "looked_up name settings s = Some b" and net: "newNetworkClient lb = returnG NetworkClient"
    and clear: "cleared (going_ids (LoadBalancerID settings \<noteq> '''') (lb_ID b) name s) s (cloud w)"
  shows "succeeds w (if LoadBalancerID settings \<noteq> '''' then returnG () else destroyBalancer fake_env lb ElbClient settings b)
    (\<lambda>_ w'. dismissed name settings s (cloud w'))"
proof (cases "LoadBalancerID settings \<noteq> ''''")
  case True
  have "sound (cloud w) \<and> without True (lb_ID b) name s (cloud w)"
    by (rule cleared_without [OF s _ refl]) (use True clear in simp_all)
  then show ?thesis using True b by (simp add: succeeds_return dismissed_def)
next
  case False
  let ?s = "cloud w\<lparr>loadBalancers := AList.delete (lb_ID b) (loadBalancers (cloud w))\<rparr>"
  have out: "sound ?s \<and> without (LoadBalancerID settings \<noteq> '''') (lb_ID b) name s ?s"
    by (rule cleared_without [OF s clear refl]) (use False in simp)
  have "map_of (loadBalancers s) (lb_ID b) = Some b" by (rule looked_up_at [OF _ b]) (use s in \<open>simp add: sound_def\<close>)
  then have at: "map_of (loadBalancers (cloud w)) (lb_ID b) = Some b" using clear by (simp add: cleared_def)
  show ?thesis
    unfolding if_not_P [OF False]
  proof (rule succeeds_mono [OF succeeds_destroyBalancer [OF net at]], elim conjE)
    fix x and w' :: "fakeELB world" assume "eips_only ?s (cloud w')"
    note same = eips_only_same [OF this]
    have "sound (cloud w') \<and> without (LoadBalancerID settings \<noteq> '''') (lb_ID b) name s (cloud w')"
      using out unfolding sound_def attached_def without_def same .
    moreover assume "EipBandwidth settings > 0 \<and> \<not> EipKeep settings \<longrightarrow>
       (\<forall>e \<in> set (lb_PublicIps b). PublicIpID e \<noteq> '''' \<longrightarrow> PublicIpID e \<notin> dom (map_of (eips (cloud w'))))"
    ultimately show "dismissed name settings s (cloud w')"
      unfolding dismissed_def b option.case by blast
  qed
qed

lemma succeeds_deleteBalancer:
  assumes s: "sound (cloud w)" and b: "looked_up name settings (cloud w) = Some b" and net: "newNetworkClient lb = returnG NetworkClient"
  shows "succeeds w (deleteBalancer fake_env lb ElbClient settings name b) (\<lambda>_ w'. dismissed name settings (cloud w) (cloud w'))"
  unfolding deleteBalancer_def Let_def
proof (rule succeeds_bind, rule succeeds_listListeners)
  have ok: "consistent (cloud w)" using s by (simp add: sound_def)
  have at: "map_of (loadBalancers (cloud w)) (lb_ID b) = Some b" using ok b by (rule looked_up_at)
  show "lb_ID b \<noteq> ''''" using consistentD(9) [OF ok at] by simp
  fix w1 :: "fakeELB world" assume w1: "cloud w1 = cloud w"
  have "succeeds w1 (eachG (\<lambda>listener. if LoadBalancerID settings \<noteq> '''' \<and> \<not> HasPrefix (ls_Name listener) (name @ ''_'') then returnG ()
          else deleteListener fake_env ElbClient (lb_ID b) name listener) (listed (lb_ID b) (cloud w1)))
    (\<lambda>_ w'. cleared (going_ids (LoadBalancerID settings \<noteq> '''') (lb_ID b) name (cloud w1)) (cloud w1) (cloud w'))"
    by (rule succeeds_clearListeners) (use ok at w1 in auto)
  then show "succeeds w1 (bindG (eachG (\<lambda>listener. if LoadBalancerID settings \<noteq> '''' \<and> \<not> HasPrefix (ls_Name listener) (name @ ''_'')
          then returnG () else deleteListener fake_env ElbClient (lb_ID b) name listener) (listed (lb_ID b) (cloud w)))
        (\<lambda>_. if LoadBalancerID settings \<noteq> '''' then returnG () else destroyBalancer fake_env lb ElbClient settings b))
    (\<lambda>_ w'. dismissed name settings (cloud w) (cloud w'))"
    unfolding w1 by (intro succeeds_bind, elim succeeds_mono) (rule succeeds_dismissBalancer [OF s b net])
qed

lemma succeeds_EnsureLoadBalancerDeleted:
  assumes s: "sound (cloud w)" and conf: "settingsForService (opts lb) service = Inr settings"
    and client: "newClient lb = returnG ElbClient" and net: "newNetworkClient lb = returnG NetworkClient"
  shows "succeeds w (EnsureLoadBalancerDeleted fake_env lb cl service)
    (\<lambda>_ w'. dismissed (GetLoadBalancerName cl service) settings (cloud w) (cloud w'))"
  unfolding EnsureLoadBalancerDeleted_def conf client liftG_simps bindG_return Let_def
proof (rule succeeds_bind, rule succeeds_findLoadBalancer)
  let ?name = "GetLoadBalancerName cl service"
  fix w1 :: "fakeELB world" assume w1: "cloud w1 = cloud w"
  show "succeeds w1 (case looked_up ?name settings (cloud w) of None \<Rightarrow> returnG ()
      | Some balancer \<Rightarrow> deleteBalancer fake_env lb ElbClient settings ?name balancer) (\<lambda>_ w'. dismissed ?name settings (cloud w) (cloud w'))"
  proof (cases "looked_up ?name settings (cloud w)")
    case None
    then show ?thesis using s w1 by (simp add: succeeds_return dismissed_def)
  next
    case (Some b)
    show ?thesis
      using succeeds_deleteBalancer [of w1 ?name settings b lb] s Some net unfolding w1 Some option.case .
  qed
qed


subsection \<open>UpdateLoadBalancer\<close>

lemma port_settled_slice:
  assumes ok: "consistent s" and sl: "sliceOf s i = Some sl"
    and set: "port_settled fake_env ElbClient s name settings service nodes (sl_listener sl) port"
  shows "slice_settled name settings service nodes port sl"
proof -
  obtain l where l: "map_of (listeners s) i = Some l" "fl_obj l = sl_listener sl" "sl_pool sl = map_of (pools s) (poolRef l)"
    "sl_members sl = fake_store s (poolRef l)" "sl_group sl = map_of (ipGroups s) (groupRef l)"
    "sl_monitor sl = Option.bind (sl_pool sl) (\<lambda>q. map_option fm_obj (map_of (monitors s) (pl_MonitorID q)))"
    using sl by (rule sliceE)
  obtain p ms where ref: "ls_DefaultPoolID (sl_listener sl) \<noteq> ''''"
    and p: "pools_Get fake_env ElbClient (ls_DefaultPoolID (sl_listener sl)) s = (Inr p, s)" "pool_settled settings service p"
    and ms: "members_List fake_env ElbClient (pl_ID p) s = (Inr (Inr ms), s)" "members_settled nodes port ms"
    and white: "whitelist_settled fake_env ElbClient s name service port (sl_listener sl)"
    and mon: "monitor_settled fake_env ElbClient s settings service port p"
    using set unfolding port_settled_def by blast
  have at: "map_of (pools s) (poolRef l) = Some p"
    using p(1) l(2) by (simp add: fake_fields onElb_def fake_plGet_def getItem_def split: option.splits)
  then have id: "pl_ID p = poolRef l" using consistentD(7) [OF ok] by (simp add: keyed_def)
  have "fake_store s (poolRef l) = set ms"
    using ms(1) unfolding id
    by (auto simp: fake_fields onElb_def fake_mbList_def getItem_def fake_store_def split: option.splits) force
  then have mem: "endpoint ` sl_members sl = wantedEndpoints nodes port"
    using ms(2) l(4) by (simp add: members_settled_def wantedEndpoints_def endpoint_def [abs_def])
  have "probed settings service port p (sl_monitor sl)"
    using mon l(3,6) at
    by (auto simp: monitor_settled_def probed_def fake_fields onElb_def fake_moGet_def getItem_def split: if_splits option.splits)
  moreover have "whitelisted name service port sl"
    using white l(2,5)
    by (auto simp: whitelist_settled_def whitelisted_def getAnswers_def Let_def fake_fields onElb_def fake_igGet_def getItem_def
        split: if_splits option.splits)
  ultimately show ?thesis using ref p(2) mem at l(3) by (simp add: slice_settled_def)
qed

text \<open>A settled port has a listener whose slice is settled.\<close>

lemma settled_holder:
  assumes ok: "consistent s" and set: "settled fake_env ElbClient s name settings service nodes lbID b" and ne: "lbID \<noteq> ''''"
    and port: "port \<in> set (Ports service)"
  shows "\<exists>i sl. holder (roster s) lbID (portKey port) = Some i \<and> sliceOf s i = Some sl \<and>
    slice_settled name settings service nodes port sl"
proof -
  let ?ls = "map fl_obj (filter (\<lambda>l. fl_loadbalancer_id l = lbID) (map snd (listeners s)))"
  obtain l where l: "listenersByKey ?ls (portKey port) = Some l" "port_settled fake_env ElbClient s name settings service nodes l port"
    using set port unfolding settled_def list_listeners [OF ne] by auto
  then obtain i where i: "holder (roster s) lbID (portKey port) = Some i" "map_option sl_listener (sliceOf s i) = Some l"
    unfolding key_listener [OF ok] by (auto simp: bind_eq_Some_conv)
  then obtain sl where sl: "sliceOf s i = Some sl" "sl_listener sl = l" by auto
  have "slice_settled name settings service nodes port sl"
    using port_settled_slice [OF ok sl(1)] l(2) sl(2) by blast
  then show ?thesis using i(1) sl(1) by blast
qed

lemma settled_no_stale:
  assumes ok: "consistent s" and set: "settled fake_env ElbClient s name settings service nodes lbID b" and ne: "lbID \<noteq> ''''"
  shows "stale_ids lbID name service s = {}"
  using set unfolding settled_def list_listeners [OF ne] stale_ids_listed [OF ok] by auto

text \<open>Only the members of a settled slice change.\<close>

lemma slice_settled_members:
  "slice_settled name settings service nodes port sl \<Longrightarrow> endpoint ` M = wantedEndpoints nodes' port \<Longrightarrow>
   slice_settled name settings service nodes' port (sl\<lparr>sl_members := M\<rparr>)"
  using whitelisted_part [of "sl\<lparr>sl_members := M\<rparr>" sl name service port] by (simp add: slice_settled_def group_part_def)

text \<open>The body of the loop of \<open>UpdateLoadBalancer\<close>.\<close>

abbreviation updatePort ::
  "('k, 'c) env \<Rightarrow> 'k \<Rightarrow> BalancerObj \<Rightarrow> Service \<Rightarrow> Node list \<Rightarrow> (string \<rightharpoonup> ListenerObj) \<Rightarrow> ServicePort \<Rightarrow> ('c world, unit) go" where
  "updatePort E k balancer service nodes byKey port \<equiv> (case byKey (portKey port) of
     None \<Rightarrow> failG (Errorf ''listener for port %s/%d of service %s/%s not found''
         [Protocol port, dec_int (Port port), Namespace service, ServiceName service])
   | Some listener \<Rightarrow>
       bindG (findPoolForListener E k (ls_ID listener)) (\<lambda>p. case p of
           None \<Rightarrow> failG (Errorf ''pool for listener %s not found'' [ls_ID listener])
         | Some pool \<Rightarrow> reconcileMembers E k balancer (pl_ID pool) (NodePort port) nodes))"

lemma succeeds_updatePort:
  assumes ok: "consistent (cloud w)" and lb: "lb_ID b \<in> dom (map_of (loadBalancers (cloud w)))"
    and i: "holder (roster (cloud w)) (lb_ID b) (portKey port) = Some i" and sl: "sliceOf (cloud w) i = Some sl"
    and set: "slice_settled name settings service nodes port sl" and key: "byKey (portKey port) = Some (sl_listener sl)"
    and port: "serveable nodes' port"
  shows "succeeds w (updatePort fake_env ElbClient b service nodes' byKey port)
    (\<lambda>_ w'. port_ready (lb_ID b) name settings service nodes' port i (cloud w) (cloud w'))"
proof -
  have id: "ls_ID (sl_listener sl) = i" using ok sl by (rule slice_id)
  have ref: "ls_DefaultPoolID (sl_listener sl) \<noteq> ''''" using set by (simp add: slice_settled_def)
  show ?thesis
    unfolding key option.case id
  proof (rule succeeds_bind, rule succeeds_findPool [OF ok sl])
    fix p and w1 :: "fakeELB world" assume p: "pool_at (cloud w) i sl p" and w1: "cloud w1 = cloud w"
    have j: "ls_DefaultPoolID (sl_listener sl) = pl_ID p" "pl_ID p \<noteq> ''''" using p by (simp_all add: pool_at_def)
    have "succeeds w1 (reconcileMembers fake_env ElbClient b (pl_ID p) (NodePort port) nodes')
      (\<lambda>_ w'. only_touches i (cloud w1) (cloud w') \<and>
        (\<exists>M. sliceOf (cloud w') i = Some (sl\<lparr>sl_members := M\<rparr>) \<and> endpoint ` M = wantedEndpoints nodes' port))"
      by (rule succeeds_reconcileMembers) (use ok lb sl w1 j port in simp_all)
    then show "succeeds w1 (case Some p of None \<Rightarrow> failG (Errorf ''pool for listener %s not found'' [i])
         | Some pool \<Rightarrow> reconcileMembers fake_env ElbClient b (pl_ID pool) (NodePort port) nodes')
      (\<lambda>_ w'. port_ready (lb_ID b) name settings service nodes' port i (cloud w) (cloud w'))"
      unfolding option.case w1
    proof (rule succeeds_mono)
      fix x and w' :: "fakeELB world"
      assume "only_touches i (cloud w) (cloud w') \<and>
        (\<exists>M. sliceOf (cloud w') i = Some (sl\<lparr>sl_members := M\<rparr>) \<and> endpoint ` M = wantedEndpoints nodes' port)"
      then obtain M where w': "only_touches i (cloud w) (cloud w')" "sliceOf (cloud w') i = Some (sl\<lparr>sl_members := M\<rparr>)"
        and M: "endpoint ` M = wantedEndpoints nodes' port" by (elim exE conjE)
      have ok': "consistent (cloud w')" "loadBalancers (cloud w') = loadBalancers (cloud w)" "roster (cloud w') = roster (cloud w)"
          "\<And>j. j \<noteq> i \<Longrightarrow> sliceOf (cloud w') j = sliceOf (cloud w) j"
        using w'(1) by (simp_all add: only_touches_def)
      obtain n where "(i, lb_ID b, n, portKey port) \<in> set (roster (cloud w))" using holder_Some [OF i] by blast
      moreover have "own_slice name port sl \<longrightarrow> own_slice name port (sl\<lparr>sl_members := M\<rparr>)" by (simp add: own_slice_def)
      ultimately have "tidy (lb_ID b) name (cloud w) \<longrightarrow> tidy (lb_ID b) name (cloud w')"
        using tidy_touch [OF ok ok'(1,3,4) _ sl w'(2)] by blast
      then show "port_ready (lb_ID b) name settings service nodes' port i (cloud w) (cloud w')"
        unfolding port_ready_def using ok' w'(2) i slice_settled_members [OF set M] by simp
    qed
  qed (use ref in simp)
qed


definition updated ::
  "string \<Rightarrow> serviceSettings \<Rightarrow> Service \<Rightarrow> Node list \<Rightarrow> fakeELB \<Rightarrow> BalancerObj \<Rightarrow> fakeELB \<Rightarrow> bool" where
  "updated name settings service nodes s b s' \<longleftrightarrow> sound s' \<and>
     settled fake_env ElbClient s' name settings service nodes (lb_ID b) b \<and>
     spares (foreign (lb_ID b) name service) s s' \<and> roster s' = roster s \<and> loadBalancers s' = loadBalancers s \<and>
     (tidy (lb_ID b) name s \<longrightarrow> tidy (lb_ID b) name s')"

lemma succeeds_updatePorts:
  assumes ok: "consistent (cloud w)" and lb: "lb_ID b \<in> dom (map_of (loadBalancers (cloud w)))" and keys: "distinct (map portKey ps)"
    and byKey: "\<And>key. byKey key = Option.bind (holder (roster (cloud w)) (lb_ID b) key) (\<lambda>i. map_option sl_listener (sliceOf (cloud w) i))"
    and set: "\<And>port. port \<in> set ps \<Longrightarrow> \<exists>i sl. holder (roster (cloud w)) (lb_ID b) (portKey port) = Some i \<and>
      sliceOf (cloud w) i = Some sl \<and> slice_settled name settings service nodes port sl"
    and ports: "\<forall>port \<in> set ps. serveable nodes' port"
  shows "succeeds w (eachG (updatePort fake_env ElbClient b service nodes' byKey) ps)
    (\<lambda>_ w'. ports_done (lb_ID b) name settings service nodes' (cloud w) ps (cloud w') \<and> roster (cloud w') = roster (cloud w))"
proof (rule succeeds_each [where I = "\<lambda>xs u. ports_done (lb_ID b) name settings service nodes' (cloud w) xs (cloud u) \<and>
    roster (cloud u) = roster (cloud w)"])
  show "ports_done (lb_ID b) name settings service nodes' (cloud w) [] (cloud w) \<and> roster (cloud w) = roster (cloud w)"
    using ok by (simp add: ports_done_start)
next
  fix xs y ys and u :: "fakeELB world"
  assume split: "ps = xs @ y # ys"
    and "ports_done (lb_ID b) name settings service nodes' (cloud w) xs (cloud u) \<and> roster (cloud u) = roster (cloud w)"
  then have I: "ports_done (lb_ID b) name settings service nodes' (cloud w) xs (cloud u)" and r: "roster (cloud u) = roster (cloud w)"
    by simp_all
  have y: "y \<in> set ps" "portKey y \<notin> portKey ` set xs" using split keys by auto
  obtain i sl where i: "holder (roster (cloud w)) (lb_ID b) (portKey y) = Some i" "sliceOf (cloud w) i = Some sl"
    "slice_settled name settings service nodes y sl" using set [OF y(1)] by blast
  have "\<exists>n. (i, lb_ID b, n, portKey y) \<in> set (roster (cloud w))" using i(1) by (rule holder_Some)
  then have "i \<in> fst ` set (roster (cloud w))" by force
  then have same: "sliceOf (cloud u) i = Some sl"
    unfolding i(2) [symmetric]
  proof (rule ports_doneD(4) [OF I])
    fix port assume port: "port \<in> set xs"
    show "holder (roster (cloud w)) (lb_ID b) (portKey port) \<noteq> Some i"
      using holder_key_unique [OF roster_ids(1) [OF ok] _ i(1), of "portKey port"] y(2) port by auto
  qed
  have key: "byKey (portKey y) = Some (sl_listener sl)" unfolding byKey i(1) by (simp add: i(2))
  have lb': "lb_ID b \<in> dom (map_of (loadBalancers (cloud u)))" using lb ports_doneD(2) [OF I] by simp
  have hold: "holder (roster (cloud u)) (lb_ID b) (portKey y) = Some i" using i(1) r by simp
  have "succeeds u (updatePort fake_env ElbClient b service nodes' byKey y)
      (\<lambda>_ w'. port_ready (lb_ID b) name settings service nodes' y i (cloud u) (cloud w'))"
    by (rule succeeds_updatePort, rule ports_doneD(1) [OF I], rule lb', rule hold, rule same, rule i(3), rule key, rule bspec [OF ports y(1)])
  then show "succeeds u (updatePort fake_env ElbClient b service nodes' byKey y)
      (\<lambda>_ w'. ports_done (lb_ID b) name settings service nodes' (cloud w) (xs @ [y]) (cloud w') \<and> roster (cloud w') = roster (cloud w))"
  proof (rule succeeds_mono)
    fix x and w' :: "fakeELB world" assume ready: "port_ready (lb_ID b) name settings service nodes' y i (cloud u) (cloud w')"
    have "roster (cloud w') = roster (cloud u)" using ready hold by (auto simp: port_ready_def adds_listener_def)
    then show "ports_done (lb_ID b) name settings service nodes' (cloud w) (xs @ [y]) (cloud w') \<and> roster (cloud w') = roster (cloud w)"
      using ports_done_step [OF ok I y(2) ready] r by simp
  qed
qed

lemma succeeds_UpdateLoadBalancer:
  assumes s: "sound (cloud w)" and conf: "settingsForService (opts lb) service = Inr settings" and client: "newClient lb = returnG ElbClient"
    and b: "looked_up (GetLoadBalancerName cl service) settings (cloud w) = Some b"
    and set: "settled fake_env ElbClient (cloud w) (GetLoadBalancerName cl service) settings service nodes (lb_ID b) b"
    and keys: "distinct (map portKey (Ports service))" and ports: "\<forall>port \<in> set (Ports service). serveable nodes' port"
  shows "succeeds w (UpdateLoadBalancer fake_env lb cl service nodes')
    (\<lambda>_ w'. updated (GetLoadBalancerName cl service) settings service nodes' (cloud w) b (cloud w'))"
proof -
  define name where "name = GetLoadBalancerName cl service"
  note b = b [folded name_def] and set = set [folded name_def]
  have ok: "consistent (cloud w)" and att: "attached (cloud w)" using s by (simp_all add: sound_def)
  have at: "map_of (loadBalancers (cloud w)) (lb_ID b) = Some b" using ok b by (rule looked_up_at)
  have ne: "lb_ID b \<noteq> ''''" using consistentD(9) [OF ok at] by simp
  let ?ls = "map fl_obj (filter (\<lambda>l. fl_loadbalancer_id l = lb_ID b) (map snd (listeners (cloud w))))"
  have finish: "updated name settings service nodes' (cloud w) b s'"
    if mid: "ports_done (lb_ID b) name settings service nodes' (cloud w) (Ports service) s' \<and> roster s' = roster (cloud w)" for s'
  proof -
    have mid': "ports_done (lb_ID b) name settings service nodes' (cloud w) (Ports service) s'" and r: "roster s' = roster (cloud w)"
      using mid by simp_all
    note s' = ports_doneD(1,2) [OF mid']
    have clear: "cleared (stale_ids (lb_ID b) name service (cloud w)) s' s'"
      unfolding settled_no_stale [OF ok set ne] by (simp add: cleared_def s')
    have rec: "reconciled (lb_ID b) name settings service nodes' (cloud w) s' s'"
      using ok mid' clear by (simp add: reconciled_def)
    have "attached s'" using att r s'(2) by (simp add: attached_def)
    then show ?thesis
      using s' r reconciled_settled [OF rec at ports] reconciled_spares [OF rec] reconciled_tidy [OF rec]
      by (simp add: updated_def sound_def)
  qed
  show ?thesis
    unfolding UpdateLoadBalancer_def conf client liftG_simps bindG_return name_def [symmetric]
  proof (rule succeeds_bind, rule succeeds_findLoadBalancer, unfold b option.case, rule succeeds_bind, rule succeeds_listListeners [OF ne])
    fix w1 w2 :: "fakeELB world" assume w1: "cloud w1 = cloud w" and w2: "cloud w2 = cloud w1"
    have w2: "cloud w2 = cloud w" using w1 w2 by simp
    have "succeeds w2 (eachG (updatePort fake_env ElbClient b service nodes' (listenersByKey ?ls)) (Ports service))
      (\<lambda>_ w'. ports_done (lb_ID b) name settings service nodes' (cloud w2) (Ports service) (cloud w') \<and> roster (cloud w') = roster (cloud w2))"
    proof (rule succeeds_updatePorts)
      show "consistent (cloud w2)" "lb_ID b \<in> dom (map_of (loadBalancers (cloud w2)))" using ok at by (auto simp: w2)
      show "listenersByKey ?ls key = Option.bind (holder (roster (cloud w2)) (lb_ID b) key)
          (\<lambda>i. map_option sl_listener (sliceOf (cloud w2) i))" for key
        unfolding w2 by (rule key_listener [OF ok])
      show "\<exists>i sl. holder (roster (cloud w2)) (lb_ID b) (portKey port) = Some i \<and> sliceOf (cloud w2) i = Some sl \<and>
          slice_settled name settings service nodes port sl" if "port \<in> set (Ports service)" for port
        unfolding w2 by (rule settled_holder [OF ok set ne that])
    qed (fact keys ports)+
    then show "succeeds w2 (eachG (updatePort fake_env ElbClient b service nodes'
          (listenersByKey (map fl_obj (filter (\<lambda>l. fl_loadbalancer_id l = lb_ID b) (map snd (listeners (cloud w1))))))) (Ports service))
        (\<lambda>_ w'. updated name settings service nodes' (cloud w) b (cloud w'))"
      unfolding w1 w2 by (rule succeeds_mono) (rule finish)
  qed
qed


subsection \<open>Created and deleted\<close>

lemma delete_snoc: "i \<notin> dom (map_of xs) \<Longrightarrow> AList.delete i (xs @ [(i, x)]) = xs"
  by (induction xs) (auto simp: AList.delete_eq filter_empty_conv)

lemma ensured_dismissed:
  assumes s: "sound s" and none: "looked_up name settings s = None" and id: "LoadBalancerID settings = ''''"
    and mk: "ensured name settings service nodes s b s1" and rm: "dismissed name settings s1 s2"
  shows "roster s2 = roster s" and "loadBalancers s2 = loadBalancers s"
    and "\<forall>e \<in> set (roster s). sliceOf s2 (fst e) = sliceOf s (fst e)"
proof -
  have s1: "sound s1" "looked_up name settings s1 = Some b" "loadBalancers s1 = loadBalancers s @ [(lb_ID b, b)]"
    and far: "spares (foreign (lb_ID b) name service) s s1" and re: "rearranged (lb_ID b) name service s s1"
    using mk none unfolding ensured_def by (elim conjE, simp)+
  note far = far rearranged_elsewhere [OF re]
  have rem: "without False (lb_ID b) name s1 s2" using rm s1(2) id by (simp add: dismissed_def)
  have new: "lb_ID b \<notin> dom (map_of (loadBalancers s))"
    using consistentD(3) [of s1] s1(1,3) by (simp add: sound_def dom_map_of_conv_image_fst)
  have away: "fst (snd e) \<noteq> lb_ID b" if "e \<in> set (roster s)" for e
    using s new that unfolding sound_def attached_def by (cases e) fastforce
  have "roster s2 = elsewhere (lb_ID b) s1"
    using rem by (auto simp: without_def elsewhere_def goes_def split_def intro: filter_cong)
  also have "\<dots> = roster s"
    unfolding far(2) unfolding elsewhere_def using away by (auto simp: split_def filter_id_conv)
  finally show r: "roster s2 = roster s" .
  show "loadBalancers s2 = loadBalancers s" using rem new s1(3) by (simp add: without_def delete_snoc)
  show "\<forall>e \<in> set (roster s). sliceOf s2 (fst e) = sliceOf s (fst e)"
  proof
    fix e assume e: "e \<in> set (roster s)"
    have "foreign (lb_ID b) name service e" using away [OF e] by (simp add: foreign_def split_def)
    then have "sliceOf s1 (fst e) = sliceOf s (fst e)" using far(1) e by (auto simp: spares_def)
    then show "sliceOf s2 (fst e) = sliceOf s (fst e)" using rem e r by (simp add: without_def)
  qed
qed

end
