(* ===== verification/Fake_Neighbours.thy ===== *)
theory Fake_Neighbours
  imports Fake_Changes
begin

section \<open>Services side by side\<close>

text \<open>
  What the requests of one Service (B) mean for another one (A): when A is settled, on the same balancer or
  another, it still is after B was ensured (\<open>ensured_keeps\<close>) or deleted (\<open>dismissed_keeps\<close>). The names keep
  their listeners apart, and on a common balancer their ports do.
\<close>

text \<open>The listeners with the ports of a Service carry its name: none was taken over from somebody else.\<close>

definition named_listeners :: "string \<Rightarrow> string \<Rightarrow> Service \<Rightarrow> fakeELB \<Rightarrow> bool" where
  "named_listeners lbID name service s \<longleftrightarrow> (\<forall>(i, b, n, k) \<in> set (roster s).
     b = lbID \<longrightarrow> k \<in> portKey ` set (Ports service) \<longrightarrow> (\<exists>port. n = resourceName name port))"

definition apart :: "string \<Rightarrow> string \<Rightarrow> bool" where
  "apart a b \<longleftrightarrow> (\<forall>port. \<not> owned a (resourceName b port)) \<and> (\<forall>port. \<not> owned b (resourceName a port))"

lemma settled_serveable:
  assumes "settled E k c name settings service nodes lbID b" and "port \<in> set (Ports service)"
  shows "serveable nodes port"
proof -
  obtain l where "port_settled E k c name settings service nodes l port" using assms unfolding settled_def by blast
  then obtain ms where "members_settled nodes port ms" unfolding port_settled_def by blast
  then show ?thesis unfolding members_settled_def serveable_def by blast
qed

lemma settled_at: "settled fake_env ElbClient s name settings service nodes lbID b \<Longrightarrow> map_of (loadBalancers s) lbID = Some b"
  by (auto simp: settled_def fake_fields onElb_def getItem_def split: option.splits)

lemma settled_kept:
  assumes ok: "consistent s" and ok': "consistent s'" and set: "settled fake_env ElbClient s name settings service nodes lbID b"
    and b: "map_of (loadBalancers s') lbID = Some b"
    and keep: "\<And>port. port \<in> set (Ports service) \<Longrightarrow> holder (roster s') lbID (portKey port) = holder (roster s) lbID (portKey port)"
    and slices: "\<And>i n k. (i, lbID, n, k) \<in> set (roster s) \<Longrightarrow> k \<in> portKey ` set (Ports service) \<Longrightarrow> sliceOf s' i = sliceOf s i"
    and rest: "\<And>i n k. (i, lbID, n, k) \<in> set (roster s') \<Longrightarrow> HasPrefix n (name @ ''_'') \<Longrightarrow> (i, lbID, n, k) \<in> set (roster s)"
  shows "settled fake_env ElbClient s' name settings service nodes lbID b"
proof (rule settledI [OF ok' b])
  have ne: "lbID \<noteq> ''''" using consistentD(9) [OF ok settled_at [OF set]] by simp
  show "serveable nodes port" if "port \<in> set (Ports service)" for port using set that by (rule settled_serveable)
  show "\<exists>i sl. holder (roster s') lbID (portKey port) = Some i \<and> sliceOf s' i = Some sl \<and>
      slice_settled name settings service nodes port sl" if port: "port \<in> set (Ports service)" for port
  proof -
    obtain i sl where i: "holder (roster s) lbID (portKey port) = Some i" "sliceOf s i = Some sl"
      "slice_settled name settings service nodes port sl"
      using settled_holder [OF ok set ne port] by blast
    obtain n where "(i, lbID, n, portKey port) \<in> set (roster s)" using holder_Some [OF i(1)] by blast
    then have "sliceOf s' i = Some sl" using slices port i(2) by simp
    then show ?thesis using keep [OF port] i by auto
  qed
  show "k \<in> portKey ` set (Ports service)" if e: "(i, lbID, n, k) \<in> set (roster s')" and n: "HasPrefix n (name @ ''_'')" for i n k
  proof (rule ccontr)
    assume "k \<notin> portKey ` set (Ports service)"
    then have "i \<in> stale_ids lbID name service s" using rest [OF e n] n unfolding stale_ids_def by blast
    then show False using settled_no_stale [OF ok set ne] by blast
  qed
qed

lemma ensuredD:
  assumes "ensured name settings service nodes s b s'"
  shows "sound s'" and "spares (foreign (lb_ID b) name service) s s'" and "rearranged (lb_ID b) name service s s'"
    and "loadBalancers s' = (case looked_up name settings s of Some _ \<Rightarrow> loadBalancers s | None \<Rightarrow> loadBalancers s @ [(lb_ID b, b)])"
    and "looked_up name settings s' = Some b" and "settled fake_env ElbClient s' name settings service nodes (lb_ID b) b"
    and "tidy (lb_ID b) name s \<longrightarrow> tidy (lb_ID b) name s'" and "keeps_holders (lb_ID b) service s s'"
proof -
  note facts = assms [unfolded ensured_def]
  show "sound s'" using facts by (rule conjunct1)
  show "spares (foreign (lb_ID b) name service) s s'" using facts by (elim conjE)
  show "rearranged (lb_ID b) name service s s'" using facts by (elim conjE)
  show "loadBalancers s' = (case looked_up name settings s of Some _ \<Rightarrow> loadBalancers s | None \<Rightarrow> loadBalancers s @ [(lb_ID b, b)])"
    using facts by (elim conjE)
  show "looked_up name settings s' = Some b" using facts by (elim conjE)
  show "settled fake_env ElbClient s' name settings service nodes (lb_ID b) b" using facts by (elim conjE)
  show "tidy (lb_ID b) name s \<longrightarrow> tidy (lb_ID b) name s'" using facts by (elim conjE)
  show "keeps_holders (lb_ID b) service s s'" using facts by (elim conjE)
qed

lemma named_not_owned:
  assumes "named_listeners lbA nameA service s" and "apart nameA nameB"
    and "(i, lbA, n, k) \<in> set (roster s)" and "k \<in> portKey ` set (Ports service)"
  shows "\<not> HasPrefix n (nameB @ ''_'')"
proof -
  have "\<exists>port. n = resourceName nameA port" using bspec [OF assms(1) [unfolded named_listeners_def] assms(3)] assms(4) by simp
  then show ?thesis using assms(2) by (auto simp: apart_def owned_def)
qed

lemma ensured_keeps:
  assumes s: "sound s" and mk: "ensured nameB settingsB serviceB nodesB s bB s'"
    and set: "settled fake_env ElbClient s nameA settingsA serviceA nodesA lbA bA"
    and names: "named_listeners lbA nameA serviceA s" and apart: "apart nameA nameB"
    and ports: "lb_ID bB = lbA \<Longrightarrow> portKey ` set (Ports serviceA) \<inter> portKey ` set (Ports serviceB) = {}"
  shows "settled fake_env ElbClient s' nameA settingsA serviceA nodesA lbA bA"
proof -
  let ?keys = "\<lambda>service. portKey ` set (Ports service)"
  note far = ensuredD(2) [OF mk] and re = ensuredD(3) [OF mk] and lbs = ensuredD(4) [OF mk]
  have ok: "consistent s" "consistent s'" using s ensuredD(1) [OF mk] by (simp_all add: sound_def)
  obtain R where R: "roster s' = filter (\<lambda>e. \<not> stale_entry (lb_ID bB) nameB serviceB e) (roster s) @ R"
    and "\<forall>(i, b, n, k) \<in> set R. b = lb_ID bB \<and> k \<in> ?keys serviceB \<and> (\<exists>port. n = resourceName nameB port)"
    using re unfolding rearranged_def by (elim exE conjE)
  then have R: "roster s' = filter (\<lambda>e. \<not> stale_entry (lb_ID bB) nameB serviceB e) (roster s) @ R"
    "(i, b, n, k) \<in> set R \<Longrightarrow> b = lb_ID bB \<and> k \<in> ?keys serviceB \<and> (\<exists>port. n = resourceName nameB port)" for i b n k
    by auto
  note own = named_not_owned [OF names apart]
  show ?thesis
  proof (rule settled_kept [OF ok set])
    have at: "map_of (loadBalancers s) lbA = Some bA" using set by (rule settled_at)
    show "map_of (loadBalancers s') lbA = Some bA"
    proof (cases "looked_up nameB settingsB s")
      case None
      then have "distinct (map fst (loadBalancers s @ [(lb_ID bB, bB)]))" using consistentD(3) [OF ok(2)] lbs by simp
      then have "lb_ID bB \<notin> dom (map_of (loadBalancers s))" by (simp add: dom_map_of_conv_image_fst)
      then show ?thesis using at None lbs by (auto simp: map_of_snoc simp del: map_of_append)
    qed (use at lbs in simp)
    show "holder (roster s') lbA (portKey port) = holder (roster s) lbA (portKey port)" if port: "port \<in> set (Ports serviceA)" for port
    proof -
      have "\<forall>e \<in> set R. fst (snd e) = lbA \<longrightarrow> snd (snd (snd e)) \<noteq> portKey port"
      proof (intro ballI impI notI)
        fix e assume e: "e \<in> set R" "fst (snd e) = lbA" "snd (snd (snd e)) = portKey port"
        obtain i b n k where e': "e = (i, b, n, k)" by (cases e)
        have "lbA = lb_ID bB" "portKey port \<in> ?keys serviceB" using R(2) [of i b n k] e unfolding e' by auto
        then show False using ports port by blast
      qed
      moreover have "\<forall>e \<in> set (roster s). \<not> \<not> stale_entry (lb_ID bB) nameB serviceB e \<longrightarrow> fst (snd e) = lbA \<longrightarrow>
          snd (snd (snd e)) \<noteq> portKey port"
        using own port by (fastforce simp: stale_entry_def)
      ultimately show ?thesis unfolding R(1) by (simp only: holder_append holder_filter)
    qed
    show "sliceOf s' i = sliceOf s i" if e: "(i, lbA, n, k) \<in> set (roster s)" and k: "k \<in> ?keys serviceA" for i n k
    proof -
      have "foreign (lb_ID bB) nameB serviceB (i, lbA, n, k)" using own [OF e k] ports k by (auto simp: foreign_def)
      then show ?thesis using far e unfolding spares_def by fastforce
    qed
    show "(i, lbA, n, k) \<in> set (roster s)" if "(i, lbA, n, k) \<in> set (roster s')" "HasPrefix n (nameA @ ''_'')" for i n k
      using that R(2) [of i lbA n k] apart unfolding apart_def owned_def R(1) by auto
  qed
qed

lemma dismissed_keeps:
  assumes s: "sound s" and rm: "dismissed nameB settingsB s s'"
    and set: "settled fake_env ElbClient s nameA settingsA serviceA nodesA lbA bA"
    and names: "named_listeners lbA nameA serviceA s" and apart: "apart nameA nameB"
    and shared: "\<And>b. looked_up nameB settingsB s = Some b \<Longrightarrow> lb_ID b = lbA \<Longrightarrow> LoadBalancerID settingsB \<noteq> ''''"
  shows "settled fake_env ElbClient s' nameA settingsA serviceA nodesA lbA bA"
proof (cases "looked_up nameB settingsB s")
  case None
  then show ?thesis using rm set by (simp add: dismissed_def)
next
  case (Some b)
  let ?shared = "LoadBalancerID settingsB \<noteq> ''''"
  let ?keys = "portKey ` set (Ports serviceA)"
  have ok: "consistent s" "consistent s'" using s rm by (simp_all add: sound_def dismissed_def)
  have out: "without ?shared (lb_ID b) nameB s s'" using rm Some by (simp add: dismissed_def)
  note shared = shared [OF Some]
  have stay: "\<not> goes ?shared (lb_ID b) nameB (i, lbA, n, k)" if "(i, lbA, n, k) \<in> set (roster s)" "k \<in> ?keys" for i n k
    using named_not_owned [OF names apart that] shared by (auto simp: goes_def)
  have r: "roster s' = filter (\<lambda>e. \<not> goes ?shared (lb_ID b) nameB e) (roster s)" using out by (simp add: without_def)
  show ?thesis
  proof (rule settled_kept [OF ok set])
    show "map_of (loadBalancers s') lbA = Some bA"
      using out settled_at [OF set] shared by (cases ?shared) (auto simp: without_def delete_conv')
    show "holder (roster s') lbA (portKey port) = holder (roster s) lbA (portKey port)" if port: "port \<in> set (Ports serviceA)" for port
      unfolding r by (rule holder_filter) (use stay port in fastforce)
    show "sliceOf s' i = sliceOf s i" if e: "(i, lbA, n, k) \<in> set (roster s)" and k: "k \<in> ?keys" for i n k
    proof -
      have "(i, lbA, n, k) \<in> set (roster s')" using e stay [OF e k] by (simp add: r)
      then show ?thesis using out unfolding without_def by fastforce
    qed
  qed (simp add: r)
qed


text \<open>Different Services of a cluster keep their listeners apart, by the names.\<close>

lemma services_apart:
  assumes "k8s_names serviceA" and "k8s_names serviceB"
    and "length (fullName c serviceA) < 255" and "length (fullName c serviceB) < 255"
    and "(Namespace serviceA, ServiceName serviceA) \<noteq> (Namespace serviceB, ServiceName serviceB)"
  shows "apart (GetLoadBalancerName c serviceA) (GetLoadBalancerName c serviceB)"
  using owned_unique [OF assms(1,2,3,4)] owned_unique [OF assms(2,1,4,3)] assms(5) by (auto simp: apart_def)

text \<open>The balancer of an ensured Service is the one found before, or a new one.\<close>

lemma ensured_balancer:
  assumes s: "sound s" and mk: "ensured name settings service nodes s b s'" and lb: "lbID \<in> dom (map_of (loadBalancers s))"
    and same: "lb_ID b = lbID"
  shows "looked_up name settings s = Some b"
proof (cases "looked_up name settings s")
  case None
  then have "loadBalancers s' = loadBalancers s @ [(lb_ID b, b)]" using ensuredD(4) [OF mk] by simp
  moreover have "distinct (map fst (loadBalancers s'))"
    using ensuredD(1) [OF mk] by (simp add: sound_def consistentD(3))
  ultimately show ?thesis using lb same by (simp add: dom_map_of_conv_image_fst)
next
  case (Some b')
  then have "loadBalancers s' = loadBalancers s" using ensuredD(4) [OF mk] by simp
  then have "looked_up name settings s' = looked_up name settings s" by (rule looked_up_cong)
  moreover have "looked_up name settings s' = Some b" using mk [unfolded ensured_def] by (elim conjE)
  ultimately show ?thesis by simp
qed

end
