(* ===== verification/Fake_Cluster.thy ===== *)
theory Fake_Cluster
  imports Fake_Neighbours
begin

section \<open>The provider implements a map of Services\<close>

text \<open>
  What Kubernetes wants of the provider, as a map from the Services of a cluster to their nodes
  (\<open>cluster\<close>), and requests that change it (\<open>wanted\<close>). \<open>implements lb cl m s\<close> relates it to the state of the
  ELB: there is one balancer for each Service of \<open>m\<close>, settled for it and with its listeners only, and no other
  balancer. Every valid request succeeds and takes \<open>implements\<close> from \<open>m\<close> to the map after the request
  (\<open>succeeds_serve\<close>). The Services have balancers of their own here; those that share one by
  annotation are the subject of \<open>Fake_Neighbours\<close>.
\<close>

type_synonym cluster = "string \<times> string \<rightharpoonup> Service \<times> Node list"

definition serviceKey :: "Service \<Rightarrow> string \<times> string" where
  "serviceKey service = (Namespace service, ServiceName service)"

datatype request = Ensure Service "Node list" | Update Service "Node list" | Delete Service

fun wanted :: "request \<Rightarrow> cluster \<Rightarrow> cluster" where
  "wanted (Ensure service nodes) m = m(serviceKey service \<mapsto> (service, nodes))"
| "wanted (Update service nodes) m = m(serviceKey service \<mapsto> (service, nodes))"
| "wanted (Delete service) m = m(serviceKey service := None)"

text \<open>What the service controller calls for a request.\<close>

fun serve :: "('k, 'c) env \<Rightarrow> ('k, 'c) LoadBalancer \<Rightarrow> string \<Rightarrow> request \<Rightarrow> ('c world, unit) go" where
  "serve E lb cl (Ensure service nodes) = bindG (EnsureLoadBalancer E lb cl service nodes) (\<lambda>_. returnG ())"
| "serve E lb cl (Update service nodes) = UpdateLoadBalancer E lb cl service nodes"
| "serve E lb cl (Delete service) = EnsureLoadBalancerDeleted E lb cl service"

text \<open>Names that fit, and settings with a balancer of the Service's own.\<close>

definition named :: "string \<Rightarrow> Service \<Rightarrow> bool" where
  "named cl service \<longleftrightarrow> k8s_names service \<and> length (fullName cl service) < 255"

definition own_settings :: "('k, 'c) LoadBalancer \<Rightarrow> Service \<Rightarrow> serviceSettings option" where
  "own_settings lb service = (case settingsForService (opts lb) service of Inl _ \<Rightarrow> None
     | Inr settings \<Rightarrow> if LoadBalancerID settings = '''' then Some settings else None)"

definition ensurable :: "serviceSettings \<Rightarrow> Service \<Rightarrow> Node list \<Rightarrow> bool" where
  "ensurable settings service nodes \<longleftrightarrow> SubnetID settings \<noteq> '''' \<and> AvailabilityZones settings \<noteq> [] \<and> check_values settings \<and>
     Ports service \<noteq> [] \<and> validatePorts service = Inr () \<and> distinct (map portKey (Ports service)) \<and>
     (\<forall>port \<in> set (Ports service). serveable nodes port)"

fun valid :: "('k, 'c) LoadBalancer \<Rightarrow> string \<Rightarrow> cluster \<Rightarrow> request \<Rightarrow> bool" where
  "valid lb cl m (Ensure service nodes) = (named cl service \<and>
     (case own_settings lb service of None \<Rightarrow> False | Some settings \<Rightarrow> ensurable settings service nodes))"
| "valid lb cl m (Update service nodes) = ((case m (serviceKey service) of None \<Rightarrow> False | Some (sv, _) \<Rightarrow> sv = service) \<and>
     (\<forall>port \<in> set (Ports service). serveable nodes port))"
| "valid lb cl m (Delete service) = (named cl service \<and> own_settings lb service \<noteq> None)"



subsection \<open>The relation\<close>

definition balancers :: "fakeELB \<Rightarrow> BalancerObj list" where
  "balancers s = map snd (loadBalancers s)"

definition realised :: "(fakeClient, fakeELB) LoadBalancer \<Rightarrow> string \<Rightarrow> Service \<Rightarrow> Node list \<Rightarrow> fakeELB \<Rightarrow> bool" where
  "realised lb cl service nodes s \<longleftrightarrow> named cl service \<and> distinct (map portKey (Ports service)) \<and>
     (\<exists>settings b. own_settings lb service = Some settings \<and> b \<in> set (balancers s) \<and> lb_Name b = GetLoadBalancerName cl service \<and>
        settled fake_env ElbClient s (GetLoadBalancerName cl service) settings service nodes (lb_ID b) b)"

definition implements :: "(fakeClient, fakeELB) LoadBalancer \<Rightarrow> string \<Rightarrow> cluster \<Rightarrow> fakeELB \<Rightarrow> bool" where
  "implements lb cl m s \<longleftrightarrow> sound s \<and> distinct (map lb_Name (balancers s)) \<and>
     (\<forall>b \<in> set (balancers s). tidy (lb_ID b) (lb_Name b) s \<and>
        (\<exists>service nodes. m (serviceKey service) = Some (service, nodes) \<and> lb_Name b = GetLoadBalancerName cl service)) \<and>
     (\<forall>key service nodes. m key = Some (service, nodes) \<longrightarrow> key = serviceKey service \<and> realised lb cl service nodes s)"

lemma implementsD:
  assumes "implements lb cl m s"
  shows "sound s" and "consistent s" and "distinct (map lb_Name (balancers s))" and "b \<in> set (balancers s) \<Longrightarrow> tidy (lb_ID b) (lb_Name b) s"
    and "b \<in> set (balancers s) \<Longrightarrow> \<exists>service nodes. m (serviceKey service) = Some (service, nodes) \<and> lb_Name b = GetLoadBalancerName cl service"
    and "m key = Some (service, nodes) \<Longrightarrow> key = serviceKey service \<and> realised lb cl service nodes s"
  using assms unfolding implements_def sound_def by blast+

lemma own_settingsD: "own_settings lb service = Some settings \<Longrightarrow>
    settingsForService (opts lb) service = Inr settings \<and> LoadBalancerID settings = ''''"
  by (auto simp: own_settings_def split: sum.splits if_splits)

lemma find_named: "distinct (map lb_Name bs) \<Longrightarrow> find (\<lambda>b. lb_Name b = n) bs = Some b \<longleftrightarrow> b \<in> set bs \<and> lb_Name b = n"
proof (induction bs)
  case (Cons x xs)
  have "lb_Name b \<noteq> lb_Name x" if "b \<in> set xs"
  proof
    assume "lb_Name b = lb_Name x"
    then have "lb_Name x \<in> lb_Name ` set xs" using imageI [OF that, of lb_Name] by simp
    then show False using Cons.prems by simp
  qed
  then show ?case using Cons by (cases "lb_Name x = n") auto
qed simp

lemma looked_up_own:
  "LoadBalancerID settings = '''' \<Longrightarrow> distinct (map lb_Name (balancers s)) \<Longrightarrow>
     looked_up name settings s = Some b \<longleftrightarrow> b \<in> set (balancers s) \<and> lb_Name b = name"
  by (simp add: looked_up_def find_named flip: balancers_def)

lemma looked_up_none:
  "LoadBalancerID settings = '''' \<Longrightarrow> looked_up name settings s = None \<longleftrightarrow> name \<notin> lb_Name ` set (balancers s)"
  by (auto simp: looked_up_def find_None_iff balancers_def)

lemma GetLoadBalancerName_key: "serviceKey sv = serviceKey sv' \<Longrightarrow> GetLoadBalancerName cl sv = GetLoadBalancerName cl sv'"
  by (simp add: serviceKey_def GetLoadBalancerName_def)

lemma named_inject:
  assumes "named cl sv" and "named cl sv'"
  shows "GetLoadBalancerName cl sv = GetLoadBalancerName cl sv' \<longleftrightarrow> serviceKey sv = serviceKey sv'"
proof
  assume "GetLoadBalancerName cl sv = GetLoadBalancerName cl sv'"
  then have "Namespace sv = Namespace sv' \<and> ServiceName sv = ServiceName sv'"
    using assms unfolding named_def by (intro GetLoadBalancerName_injective) auto
  then show "serviceKey sv = serviceKey sv'" by (simp add: serviceKey_def)
qed (rule GetLoadBalancerName_key)

lemma balancer_at:
  assumes "consistent s" and "b \<in> set (balancers s)"
  shows "map_of (loadBalancers s) (lb_ID b) = Some b"
proof -
  obtain i where i: "(i, b) \<in> set (loadBalancers s)" using assms(2) by (auto simp: balancers_def)
  then have "map_of (loadBalancers s) i = Some b" using consistentD(3) [OF assms(1)] by (simp add: map_of_is_SomeI)
  then show ?thesis using consistentD(5) [OF assms(1)] by (auto simp: keyed_def)
qed

lemma balancer_unique: "consistent s \<Longrightarrow> b \<in> set (balancers s) \<Longrightarrow> b' \<in> set (balancers s) \<Longrightarrow> lb_ID b = lb_ID b' \<Longrightarrow> b = b'"
  using balancer_at by (metis option.inject)

lemma tidy_own_groups:
  assumes ok: "consistent s" and tidy: "tidy lbID name s"
  shows "own_groups lbID name service s"
  unfolding own_groups_def
proof
  fix port assume port: "port \<in> set (Ports service)"
  show "case Option.bind (holder (roster s) lbID (portKey port)) (sliceOf s) of None \<Rightarrow> True | Some sl \<Rightarrow> no_foreign_group name service port sl"
  proof (cases "Option.bind (holder (roster s) lbID (portKey port)) (sliceOf s)")
    case (Some sl)
    then obtain i where i: "holder (roster s) lbID (portKey port) = Some i" "sliceOf s i = Some sl" by (auto simp: bind_eq_Some_conv)
    obtain n where n: "(i, lbID, n, portKey port) \<in> set (roster s)" using holder_Some [OF i(1)] by blast
    obtain q where q: "listenerKey (sl_listener sl) = portKey q" "own_slice name q sl"
      using tidyD [OF tidy n i(2)] unfolding tidy_slice_def by blast
    have "resourceName name q = resourceName name port" using q(1) slice_entry(2) [OF ok n i(2)] by (intro resourceName_key) simp
    then show ?thesis using q(2) Some by (auto simp: own_slice_def no_foreign_group_def)
  qed simp
qed

subsection \<open>Other balancers\<close>

definition leaves_others :: "string \<Rightarrow> fakeELB \<Rightarrow> fakeELB \<Rightarrow> bool" where
  "leaves_others lbID s s' \<longleftrightarrow> elsewhere lbID s' = elsewhere lbID s \<and>
     (\<forall>(i, b, n, k) \<in> set (roster s). b \<noteq> lbID \<longrightarrow> sliceOf s' i = sliceOf s i)"

lemma elsewhere_entry: "b \<noteq> lbID \<Longrightarrow> (i, b, n, k) \<in> set (roster s) \<longleftrightarrow> (i, b, n, k) \<in> set (elsewhere lbID s)"
  by (simp add: elsewhere_def)

lemma leaves_entry:
  "leaves_others lbID s s' \<Longrightarrow> b \<noteq> lbID \<Longrightarrow> (i, b, n, k) \<in> set (roster s') \<longleftrightarrow> (i, b, n, k) \<in> set (roster s)"
  unfolding leaves_others_def by (simp add: elsewhere_entry)

lemma leaves_slice: "leaves_others lbID s s' \<Longrightarrow> b \<noteq> lbID \<Longrightarrow> (i, b, n, k) \<in> set (roster s) \<Longrightarrow> sliceOf s' i = sliceOf s i"
  unfolding leaves_others_def by fastforce

lemma leaves_tidy:
  assumes "leaves_others lbID s s'" and "b \<noteq> lbID" and "tidy b name s"
  shows "tidy b name s'"
proof (rule tidyI)
  fix i n k sl assume i: "(i, b, n, k) \<in> set (roster s')" "sliceOf s' i = Some sl"
  then have "(i, b, n, k) \<in> set (roster s)" using leaves_entry [OF assms(1,2)] by blast
  then show "tidy_slice name sl" using tidyD [OF assms(3)] leaves_slice [OF assms(1,2)] i(2) by metis
qed

lemma leaves_settled:
  assumes ok: "consistent s" "consistent s'" and leaves: "leaves_others lbID s s'" and ne: "lb_ID b \<noteq> lbID"
    and b: "b \<in> set (balancers s')" and set: "settled fake_env ElbClient s name settings service nodes (lb_ID b) b"
  shows "settled fake_env ElbClient s' name settings service nodes (lb_ID b) b"
proof (rule settled_kept [OF ok set balancer_at [OF ok(2) b]])
  have hold: "holder (roster u) (lb_ID b) key = holder (elsewhere lbID u) (lb_ID b) key" for u key
    unfolding elsewhere_def by (rule holder_filter [symmetric]) (use ne in auto)
  show "holder (roster s') (lb_ID b) (portKey port) = holder (roster s) (lb_ID b) (portKey port)" for port
    unfolding hold using leaves by (simp add: leaves_others_def)
qed (use leaves_slice [OF leaves ne] leaves_entry [OF leaves ne] in blast)+


lemma spares_slices:
  assumes "spares (foreign lbID name service) s s'" and "(i, b, n, k) \<in> set (roster s)" and "b \<noteq> lbID"
  shows "sliceOf s' i = sliceOf s i"
  using bspec [OF assms(1) [unfolded spares_def] assms(2)] assms(3) by (simp add: foreign_def)

lemma ensured_leaves: "ensured name settings service nodes s b s' \<Longrightarrow> leaves_others (lb_ID b) s s'"
  using rearranged_elsewhere [OF ensuredD(3)] spares_slices [OF ensuredD(2)] by (fastforce simp: leaves_others_def)

lemma updated_leaves: "updated name settings service nodes s b s' \<Longrightarrow> leaves_others (lb_ID b) s s'"
  using spares_slices by (fastforce simp: leaves_others_def updated_def elsewhere_def)

lemma without_leaves:
  assumes "without False lbID name s s'"
  shows "leaves_others lbID s s'"
proof -
  have r: "roster s' = filter (\<lambda>e. \<not> goes False lbID name e) (roster s)"
    and sl: "\<forall>e \<in> set (roster s'). sliceOf s' (fst e) = sliceOf s (fst e)" using assms by (simp_all add: without_def)
  have "elsewhere lbID s' = elsewhere lbID s"
    unfolding elsewhere_def r by (auto simp: goes_def intro!: filter_cong)
  moreover have "sliceOf s' i = sliceOf s i" if "(i, b, n, k) \<in> set (roster s)" "b \<noteq> lbID" for i b n k
    using bspec [OF sl, of "(i, b, n, k)"] that r by (simp add: goes_def)
  ultimately show ?thesis by (auto simp: leaves_others_def)
qed

subsection \<open>One request\<close>

lemma implements_step:
  assumes imp: "implements lb cl m s" and s': "sound s'" "distinct (map lb_Name (balancers s'))" and leaves: "leaves_others (lb_ID b) s s'"
    and sv: "named cl sv" "lb_Name b = GetLoadBalancerName cl sv"
    and same: "set (balancers s') - {b} = set (balancers s) - {b}"
    and other: "\<And>b'. b' \<in> set (balancers s) \<Longrightarrow> b' \<noteq> b \<Longrightarrow> lb_ID b' \<noteq> lb_ID b \<and> lb_Name b' \<noteq> lb_Name b"
    and here: "b \<in> set (balancers s') \<Longrightarrow> tidy (lb_ID b) (lb_Name b) s' \<and>
      (\<exists>nodes. m' = m(serviceKey sv \<mapsto> (sv, nodes)) \<and> realised lb cl sv nodes s')"
    and gone: "b \<notin> set (balancers s') \<Longrightarrow> m' = m(serviceKey sv := None)"
  shows "implements lb cl m' s'"
proof -
  have ok: "consistent s" "consistent s'" using implementsD(1) [OF imp] s'(1) by (simp_all add: sound_def)
  have m': "m' key = m key" if "key \<noteq> serviceKey sv" for key
    using here gone that by (cases "b \<in> set (balancers s')") auto
  have "tidy (lb_ID b') (lb_Name b') s' \<and>
      (\<exists>service nodes. m' (serviceKey service) = Some (service, nodes) \<and> lb_Name b' = GetLoadBalancerName cl service)"
    if b': "b' \<in> set (balancers s')" for b'
  proof (cases "b' = b")
    case True
    then obtain nodes where "m' = m(serviceKey sv \<mapsto> (sv, nodes))" "tidy (lb_ID b) (lb_Name b) s'" using here b' by blast
    then show ?thesis using True sv(2) by auto
  next
    case False
    then have old: "b' \<in> set (balancers s)" using b' same by blast
    obtain service nodes where m: "m (serviceKey service) = Some (service, nodes)" "lb_Name b' = GetLoadBalancerName cl service"
      using implementsD(5) [OF imp old] by blast
    then have "serviceKey service \<noteq> serviceKey sv"
      using GetLoadBalancerName_key [of service sv cl] other [OF old False] sv(2) by auto
    then have "m' (serviceKey service) = Some (service, nodes)" using m' m(1) by simp
    moreover have "tidy (lb_ID b') (lb_Name b') s'"
      by (rule leaves_tidy [OF leaves conjunct1 [OF other [OF old False]] implementsD(4) [OF imp old]])
    ultimately show ?thesis using m(2) by blast
  qed
  moreover have "key = serviceKey service \<and> realised lb cl service nodes s'" if key: "m' key = Some (service, nodes)" for key service nodes
  proof (cases "key = serviceKey sv")
    case True
    then show ?thesis using key here gone by (cases "b \<in> set (balancers s')") auto
  next
    case False
    then have "m key = Some (service, nodes)" using key m' by simp
    from implementsD(6) [OF imp this] have k: "key = serviceKey service" and real: "realised lb cl service nodes s" by simp_all
    obtain settings b1 where b1: "named cl service" "distinct (map portKey (Ports service))" "own_settings lb service = Some settings"
      "b1 \<in> set (balancers s)" "lb_Name b1 = GetLoadBalancerName cl service"
      "settled fake_env ElbClient s (GetLoadBalancerName cl service) settings service nodes (lb_ID b1) b1"
      using real unfolding realised_def by blast
    have "b1 \<noteq> b" using named_inject [OF b1(1) sv(1)] b1(5) sv(2) k False by auto
    then have at: "b1 \<in> set (balancers s')" "lb_ID b1 \<noteq> lb_ID b" using same b1(4) other by blast+
    have "settled fake_env ElbClient s' (GetLoadBalancerName cl service) settings service nodes (lb_ID b1) b1"
      using ok leaves at(2,1) b1(6) by (rule leaves_settled)
    then show ?thesis using k b1 at(1) unfolding realised_def by blast
  qed
  ultimately show ?thesis unfolding implements_def using s' by blast
qed


text \<open>The balancers after \<open>EnsureLoadBalancer\<close>.\<close>

lemma ensured_balancers:
  assumes mk: "ensured name settings service nodes s b s'" and own: "LoadBalancerID settings = ''''"
    and names: "distinct (map lb_Name (balancers s))"
  shows "b \<in> set (balancers s')" and "lb_Name b = name" and "distinct (map lb_Name (balancers s'))"
    and "set (balancers s') - {b} = set (balancers s) - {b}"
    and "b' \<in> set (balancers s) \<Longrightarrow> b' \<noteq> b \<Longrightarrow> lb_ID b' \<noteq> lb_ID b \<and> lb_Name b' \<noteq> lb_Name b"
    and "b \<notin> set (balancers s) \<Longrightarrow> lb_ID b \<notin> dom (map_of (loadBalancers s))"
proof -
  have ok': "consistent s'" using ensuredD(1) [OF mk] by (simp add: sound_def)
  note lbs = ensuredD(4) [OF mk] and look = ensuredD(5) [OF mk]
  have b: "b \<in> set (balancers s') \<and> lb_Name b = name"
    using look own by (auto simp: looked_up_def find_Some_iff balancers_def)
  have all: "distinct (map lb_Name (balancers s')) \<and> set (balancers s) \<subseteq> set (balancers s') \<and> set (balancers s') \<subseteq> insert b (set (balancers s)) \<and>
      (b \<notin> set (balancers s) \<longrightarrow> lb_ID b \<notin> dom (map_of (loadBalancers s)))"
  proof (cases "looked_up name settings s")
    case None
    then have l: "loadBalancers s' = loadBalancers s @ [(lb_ID b, b)]" using lbs by simp
    then have bs: "balancers s' = balancers s @ [b]" by (simp add: balancers_def)
    have "name \<notin> lb_Name ` set (balancers s)" using looked_up_none [OF own] None by blast
    moreover have "lb_ID b \<notin> dom (map_of (loadBalancers s))"
      using consistentD(3) [OF ok'] l by (simp add: dom_map_of_conv_image_fst)
    ultimately show ?thesis using names b bs by auto
  next
    case (Some c)
    then have "balancers s' = balancers s" using lbs by (simp add: balancers_def)
    then show ?thesis using names b by auto
  qed
  show "b \<in> set (balancers s')" "lb_Name b = name" "distinct (map lb_Name (balancers s'))" using b all by simp_all
  show "set (balancers s') - {b} = set (balancers s) - {b}" using all by blast
  show "b \<notin> set (balancers s) \<Longrightarrow> lb_ID b \<notin> dom (map_of (loadBalancers s))" using all by blast
  show "lb_ID b' \<noteq> lb_ID b \<and> lb_Name b' \<noteq> lb_Name b" if b': "b' \<in> set (balancers s)" "b' \<noteq> b"
  proof
    have in': "b' \<in> set (balancers s')" using b'(1) all by blast
    show "lb_ID b' \<noteq> lb_ID b" using balancer_unique [OF ok' in' conjunct1 [OF b]] b'(2) by blast
    have "inj_on lb_Name (set (balancers s'))" using all by (simp add: distinct_map)
    then show "lb_Name b' \<noteq> lb_Name b" using in' b b'(2) by (auto dest: inj_onD)
  qed
qed

lemma tidy_fresh: "attached s \<Longrightarrow> lbID \<notin> dom (map_of (loadBalancers s)) \<Longrightarrow> tidy lbID name s"
  unfolding tidy_def attached_def by blast

lemma implements_ready:
  assumes imp: "implements lb cl m s" and own: "own_settings lb sv = Some settings" and can: "ensurable settings sv nodes"
  shows "balancer_ready (GetLoadBalancerName cl sv) settings sv s"
proof (cases "looked_up (GetLoadBalancerName cl sv) settings s")
  case None
  then show ?thesis using can own_settingsD [OF own] by (simp add: balancer_ready_def ensurable_def)
next
  case (Some b)
  then have b: "b \<in> set (balancers s)" "lb_Name b = GetLoadBalancerName cl sv"
    using looked_up_own [OF conjunct2 [OF own_settingsD [OF own]] implementsD(3) [OF imp]] by simp_all
  have "own_groups (lb_ID b) (lb_Name b) sv s"
    by (rule tidy_own_groups [OF implementsD(2) [OF imp] implementsD(4) [OF imp b(1)]])
  then show ?thesis using Some b(2) by (simp add: balancer_ready_def)
qed

lemma ensured_implements:
  assumes imp: "implements lb cl m s" and sv: "named cl sv" and own: "own_settings lb sv = Some settings"
    and keys: "distinct (map portKey (Ports sv))"
    and mk: "ensured (GetLoadBalancerName cl sv) settings sv nodes s b s'"
  shows "implements lb cl (m(serviceKey sv \<mapsto> (sv, nodes))) s'"
proof -
  note bals = ensured_balancers [OF mk conjunct2 [OF own_settingsD [OF own]] implementsD(3) [OF imp]]
  have att: "attached s" using implementsD(1) [OF imp] by (simp add: sound_def)
  have tidy: "tidy (lb_ID b) (lb_Name b) s"
  proof (cases "b \<in> set (balancers s)")
    case False
    then show ?thesis using tidy_fresh [OF att] bals(6) by blast
  qed (rule implementsD(4) [OF imp])
  have "realised lb cl sv nodes s'"
    unfolding realised_def using sv keys own bals(1,2) ensuredD(6) [OF mk] by blast
  then have here: "tidy (lb_ID b) (lb_Name b) s' \<and> (\<exists>nodes'. m(serviceKey sv \<mapsto> (sv, nodes)) = m(serviceKey sv \<mapsto> (sv, nodes')) \<and>
      realised lb cl sv nodes' s')"
    using ensuredD(7) [OF mk] tidy bals(2) by auto
  show ?thesis
    by (rule implements_step [OF imp ensuredD(1) [OF mk] bals(3) ensured_leaves [OF mk] sv bals(2) bals(4) bals(5) here])
      (use bals(1) in blast)+
qed

lemma serve_Ensure:
  assumes imp: "implements lb cl m (cloud w)" and valid: "valid lb cl m (Ensure sv nodes)" and client: "newClient lb = returnG ElbClient"
  shows "succeeds w (serve fake_env lb cl (Ensure sv nodes)) (\<lambda>_ w'. implements lb cl (wanted (Ensure sv nodes) m) (cloud w'))"
proof -
  obtain settings where own: "own_settings lb sv = Some settings" and can: "ensurable settings sv nodes" and sv: "named cl sv"
    using valid by (auto split: option.splits)
  note conf = conjunct1 [OF own_settingsD [OF own]]
  have keys: "distinct (map portKey (Ports sv))" and good: "Ports sv \<noteq> []" "validatePorts sv = Inr ()"
      "\<forall>port \<in> set (Ports sv). serveable nodes port" "check_values settings"
    using can by (simp_all add: ensurable_def)
  show ?thesis
    unfolding serve.simps wanted.simps
    by (rule succeeds_bind, rule succeeds_mono [OF succeeds_EnsureLoadBalancer [OF implementsD(1) [OF imp] conf client good(1,2) keys
      good(3,4) implements_ready [OF imp own can]]], elim exE conjE, rule succeeds_return, rule ensured_implements [OF imp sv own keys])
qed


lemma updatedD:
  assumes "updated name settings service nodes s b s'"
  shows "sound s'" and "settled fake_env ElbClient s' name settings service nodes (lb_ID b) b" and "loadBalancers s' = loadBalancers s"
    and "tidy (lb_ID b) name s \<longrightarrow> tidy (lb_ID b) name s'"
proof -
  note facts = assms [unfolded updated_def]
  show "sound s'" using facts by (rule conjunct1)
  show "settled fake_env ElbClient s' name settings service nodes (lb_ID b) b" using facts by (elim conjE)
  show "loadBalancers s' = loadBalancers s" using facts by (elim conjE)
  show "tidy (lb_ID b) name s \<longrightarrow> tidy (lb_ID b) name s'" using facts by (elim conjE)
qed

lemma named_balancers:
  assumes "consistent s" and "distinct (map lb_Name (balancers s))" and "b \<in> set (balancers s)" and "b' \<in> set (balancers s)" and "b' \<noteq> b"
  shows "lb_ID b' \<noteq> lb_ID b \<and> lb_Name b' \<noteq> lb_Name b"
proof
  show "lb_ID b' \<noteq> lb_ID b" using balancer_unique [OF assms(1,4,3)] assms(5) by blast
  have "inj_on lb_Name (set (balancers s))" using assms(2) by (simp add: distinct_map)
  then show "lb_Name b' \<noteq> lb_Name b" using assms(3-5) by (auto dest: inj_onD)
qed

lemma updated_implements:
  assumes imp: "implements lb cl m s" and sv: "named cl sv" and own: "own_settings lb sv = Some settings"
    and keys: "distinct (map portKey (Ports sv))" and b: "b \<in> set (balancers s)" "lb_Name b = GetLoadBalancerName cl sv"
    and up: "updated (GetLoadBalancerName cl sv) settings sv nodes s b s'"
  shows "implements lb cl (m(serviceKey sv \<mapsto> (sv, nodes))) s'"
proof -
  have same: "balancers s' = balancers s" using updatedD(3) [OF up] by (simp add: balancers_def)
  have "realised lb cl sv nodes s'"
    unfolding realised_def same using sv keys own b updatedD(2) [OF up] by blast
  then have here: "tidy (lb_ID b) (lb_Name b) s' \<and> (\<exists>nodes'. m(serviceKey sv \<mapsto> (sv, nodes)) = m(serviceKey sv \<mapsto> (sv, nodes')) \<and>
      realised lb cl sv nodes' s')"
    using updatedD(4) [OF up] implementsD(4) [OF imp b(1)] b(2) by auto
  show ?thesis
    by (rule implements_step [OF imp updatedD(1) [OF up] _ updated_leaves [OF up] sv b(2) _ _ here])
      (use named_balancers [OF implementsD(2,3) [OF imp] b(1)] implementsD(3) [OF imp] b(1) same in auto)
qed

lemma serve_Update:
  assumes imp: "implements lb cl m (cloud w)" and valid: "valid lb cl m (Update sv nodes)" and client: "newClient lb = returnG ElbClient"
  shows "succeeds w (serve fake_env lb cl (Update sv nodes)) (\<lambda>_ w'. implements lb cl (wanted (Update sv nodes) m) (cloud w'))"
proof -
  obtain old where m: "m (serviceKey sv) = Some (sv, old)" and ports: "\<forall>port \<in> set (Ports sv). serveable nodes port"
    using valid by (auto split: option.splits)
  obtain settings b where sv: "named cl sv" "distinct (map portKey (Ports sv))" and own: "own_settings lb sv = Some settings"
    and b: "b \<in> set (balancers (cloud w))" "lb_Name b = GetLoadBalancerName cl sv"
    and set: "settled fake_env ElbClient (cloud w) (GetLoadBalancerName cl sv) settings sv old (lb_ID b) b"
    using implementsD(6) [OF imp m] unfolding realised_def by blast
  have look: "looked_up (GetLoadBalancerName cl sv) settings (cloud w) = Some b"
    using looked_up_own [OF conjunct2 [OF own_settingsD [OF own]] implementsD(3) [OF imp]] b by simp
  show ?thesis
    unfolding serve.simps wanted.simps
    by (rule succeeds_mono [OF succeeds_UpdateLoadBalancer [OF implementsD(1) [OF imp] conjunct1 [OF own_settingsD [OF own]] client look set
      sv(2) ports]], rule updated_implements [OF imp sv(1) own sv(2) b])
qed

lemma dismissed_implements:
  assumes imp: "implements lb cl m s" and sv: "named cl sv" and own: "LoadBalancerID settings = ''''"
    and rm: "dismissed (GetLoadBalancerName cl sv) settings s s'"
  shows "implements lb cl (m(serviceKey sv := None)) s'"
proof (cases "looked_up (GetLoadBalancerName cl sv) settings s")
  case None
  then have free: "GetLoadBalancerName cl sv \<notin> lb_Name ` set (balancers s)" using looked_up_none [OF own] by blast
  have "m (serviceKey sv) = None"
  proof (rule ccontr)
    assume "m (serviceKey sv) \<noteq> None"
    then obtain service nodes where m: "m (serviceKey sv) = Some (service, nodes)" by auto
    from implementsD(6) [OF imp m] have "serviceKey sv = serviceKey service" "realised lb cl service nodes s" by simp_all
    then show False using free GetLoadBalancerName_key [of sv service cl] unfolding realised_def by (metis imageI)
  qed
  then have "m(serviceKey sv := None) = m" by (simp add: fun_upd_idem)
  then show ?thesis using imp rm None by (simp add: dismissed_def)
next
  case (Some b)
  have b: "b \<in> set (balancers s)" "lb_Name b = GetLoadBalancerName cl sv"
    using Some looked_up_own [OF own implementsD(3) [OF imp]] by simp_all
  have out: "without False (lb_ID b) (GetLoadBalancerName cl sv) s s'" and s': "sound s'"
    using rm Some own by (simp_all add: dismissed_def)
  have lbs: "loadBalancers s' = AList.delete (lb_ID b) (loadBalancers s)" using out by (simp add: without_def)
  have key: "fst e = lb_ID (snd e)" if "e \<in> set (loadBalancers s)" for e
  proof -
    have "map_of (loadBalancers s) (fst e) = Some (snd e)"
      using that consistentD(3) [OF implementsD(2) [OF imp]] by (simp add: map_of_is_SomeI)
    then show ?thesis using consistentD(5) [OF implementsD(2) [OF imp]] by (simp add: keyed_def)
  qed
  have "AList.delete (lb_ID b) (loadBalancers s) = filter (\<lambda>e. fst e \<noteq> lb_ID b) (loadBalancers s)"
    using map_delete [of id "lb_ID b" "loadBalancers s"] by simp
  also have "\<dots> = filter (\<lambda>e. lb_ID (snd e) \<noteq> lb_ID b) (loadBalancers s)" using key by (auto intro: filter_cong)
  finally have bs: "balancers s' = filter (\<lambda>c. lb_ID c \<noteq> lb_ID b) (balancers s)"
    unfolding balancers_def lbs by (simp add: filter_map o_def)
  note others = named_balancers [OF implementsD(2,3) [OF imp] b(1)]
  have same: "set (balancers s') - {b} = set (balancers s) - {b}" "b \<notin> set (balancers s')"
    unfolding bs using others by auto
  have "distinct (map lb_Name (balancers s'))" unfolding bs using implementsD(3) [OF imp] by (rule distinct_map_filter)
  then show ?thesis
    by (rule implements_step [OF imp s' _ without_leaves [OF out] sv b(2) same(1) others]) (use same(2) in simp_all)
qed

lemma serve_Delete:
  assumes imp: "implements lb cl m (cloud w)" and valid: "valid lb cl m (Delete sv)"
    and client: "newClient lb = returnG ElbClient" "newNetworkClient lb = returnG NetworkClient"
  shows "succeeds w (serve fake_env lb cl (Delete sv)) (\<lambda>_ w'. implements lb cl (wanted (Delete sv) m) (cloud w'))"
proof -
  obtain settings where own: "own_settings lb sv = Some settings" and sv: "named cl sv" using valid by auto
  show ?thesis
    unfolding serve.simps wanted.simps
    by (rule succeeds_mono [OF succeeds_EnsureLoadBalancerDeleted [OF implementsD(1) [OF imp] conjunct1 [OF own_settingsD [OF own]] client]],
      rule dismissed_implements [OF imp sv conjunct2 [OF own_settingsD [OF own]]])
qed

lemma succeeds_serve:
  assumes "implements lb cl m (cloud w)" and "valid lb cl m r"
    and "newClient lb = returnG ElbClient" and "newNetworkClient lb = returnG NetworkClient"
  shows "succeeds w (serve fake_env lb cl r) (\<lambda>_ w'. implements lb cl (wanted r m) (cloud w'))"
  using assms by (cases r) (simp_all only: serve_Ensure serve_Update serve_Delete)

lemma implements_new: "sound newFakeELB \<Longrightarrow> implements lb cl Map.empty newFakeELB"
  by (simp add: implements_def balancers_def newFakeELB_def)

end
