(* ===== verification/Fake_Controller.thy ===== *)
theory Fake_Controller
  imports Fake_Cluster
begin

section \<open>The service controller and its requests\<close>

text \<open>
  The controller hands the provider one request after the other; a request that fails is logged, tried again
  later, and does not stop the others. Here the requests come in any sequence: those that can be met
  (\<open>valid\<close>), and those the provider turns down (\<open>refused\<close>) because of the Service, its annotations, the
  configuration, a balancer that is not there, or nodes without addresses. The locale \<open>simulation\<close> is the
  contract between a server of requests and an abstract state: a valid request takes the relation to the state
  wanted, a refused one fails and keeps it. The provider is its interpretation on the fake ELB.
\<close>

subsection \<open>A server of requests\<close>

fun controller :: "('r \<Rightarrow> ('w, unit) go) \<Rightarrow> 'r list \<Rightarrow> ('w, bool list) go" where
  "controller server [] = returnG []"
| "controller server (r # rs) = bindG (catchG (bindG (server r) (\<lambda>_. returnG True)) (\<lambda>e. returnG False))
     (\<lambda>met. bindG (controller server rs) (\<lambda>mets. returnG (met # mets)))"

text \<open>The abstract state after a request, which requests the controller may send, and what is answered.\<close>

definition after :: "('a \<Rightarrow> 'r \<Rightarrow> bool) \<Rightarrow> ('r \<Rightarrow> 'a \<Rightarrow> 'a) \<Rightarrow> 'r \<Rightarrow> 'a \<Rightarrow> 'a" where
  "after meets change r a = (if meets a r then change r a else a)"

fun decided :: "('a \<Rightarrow> 'r \<Rightarrow> bool) \<Rightarrow> ('a \<Rightarrow> 'r \<Rightarrow> bool) \<Rightarrow> ('r \<Rightarrow> 'a \<Rightarrow> 'a) \<Rightarrow> 'a \<Rightarrow> 'r list \<Rightarrow> bool" where
  "decided meets turns_down change a [] \<longleftrightarrow> True"
| "decided meets turns_down change a (r # rs) \<longleftrightarrow> (meets a r \<or> turns_down a r) \<and>
     decided meets turns_down change (after meets change r a) rs"

fun answers :: "('a \<Rightarrow> 'r \<Rightarrow> bool) \<Rightarrow> ('r \<Rightarrow> 'a \<Rightarrow> 'a) \<Rightarrow> 'a \<Rightarrow> 'r list \<Rightarrow> bool list" where
  "answers meets change a [] = []"
| "answers meets change a (r # rs) = meets a r # answers meets change (after meets change r a) rs"

locale simulation =
  fixes server :: "'r \<Rightarrow> ('w, unit) go" and change :: "'r \<Rightarrow> 'a \<Rightarrow> 'a" and related :: "'a \<Rightarrow> 'w \<Rightarrow> bool"
    and meets :: "'a \<Rightarrow> 'r \<Rightarrow> bool" and turns_down :: "'a \<Rightarrow> 'r \<Rightarrow> bool"
  assumes met: "related a w \<Longrightarrow> meets a r \<Longrightarrow> succeeds w (server r) (\<lambda>_ w'. related (change r a) w')"
    and not_met: "related a w \<Longrightarrow> turns_down a r \<Longrightarrow> \<exists>e w'. server r w = (Fail e, w') \<and> related a w'"
begin

lemma one_request:
  assumes "related a w" and "meets a r \<or> turns_down a r"
  shows "succeeds w (catchG (bindG (server r) (\<lambda>_. returnG True)) (\<lambda>e. returnG False))
    (\<lambda>m w'. m = meets a r \<and> related (after meets change r a) w')"
proof (cases "meets a r")
  case True
  show ?thesis
    by (rule succeeds_catch, rule succeeds_bind, rule succeeds_mono [OF met [OF assms(1) True]])
      (use True in \<open>simp add: succeeds_return after_def\<close>)
next
  case False
  then obtain e w' where w': "server r w = (Fail e, w')" "related a w'" using not_met assms by blast
  then have "catchG (bindG (server r) (\<lambda>_. returnG True)) (\<lambda>e. returnG False) w = (Ok False, w')"
    by (simp add: catchG_def bindG_def returnG_def)
  then show ?thesis by (rule succeedsI) (use False w' in \<open>simp add: after_def\<close>)
qed

theorem all_requests:
  assumes "related a w" and "decided meets turns_down change a rs"
  shows "succeeds w (controller server rs)
    (\<lambda>ms w'. ms = answers meets change a rs \<and> related (fold (after meets change) rs a) w')"
  using assms
proof (induction rs arbitrary: a w)
  case Nil
  then show ?case by (simp add: succeeds_return)
next
  case (Cons r rs)
  show ?case
    unfolding controller.simps
  proof (rule succeeds_bind, rule succeeds_mono [OF one_request [OF Cons.prems(1)]])
    show "meets a r \<or> turns_down a r" using Cons.prems(2) by simp
    fix m and w1 :: 'w assume m: "m = meets a r \<and> related (after meets change r a) w1"
    then have "succeeds w1 (controller server rs) (\<lambda>ms w'. ms = answers meets change (after meets change r a) rs \<and>
        related (fold (after meets change) rs (after meets change r a)) w')"
      using Cons.IH Cons.prems(2) by simp
    then show "succeeds w1 (bindG (controller server rs) (\<lambda>mets. returnG (m # mets)))
        (\<lambda>ms w'. ms = answers meets change a (r # rs) \<and> related (fold (after meets change) (r # rs) a) w')"
      by (intro succeeds_bind, elim succeeds_mono) (use m in \<open>simp add: succeeds_return\<close>)
  qed
qed

end

subsection \<open>Requests that are turned down\<close>

text \<open>
  A Service is refused without ports, with a port that is neither TCP nor UDP, without nodes, with
  unacceptable annotations, or when it needs a balancer and no subnet or zone is known. An update is refused when there
  is no balancer for the Service, or when no node has an address: then the members are left as they are.
\<close>

fun refused :: "('k, 'c) LoadBalancer \<Rightarrow> string \<Rightarrow> cluster \<Rightarrow> request \<Rightarrow> bool" where
  "refused lb cl m (Ensure service nodes) \<longleftrightarrow> Ports service = [] \<or> validatePorts service \<noteq> Inr () \<or> nodes = [] \<or>
     (case settingsForService (opts lb) service of Inl _ \<Rightarrow> True
      | Inr settings \<Rightarrow> LoadBalancerID settings = '''' \<and> named cl service \<and> m (serviceKey service) = None \<and>
          (SubnetID settings = '''' \<or> AvailabilityZones settings = []))"
| "refused lb cl m (Update service nodes) \<longleftrightarrow>
     (case settingsForService (opts lb) service of Inl _ \<Rightarrow> True
      | Inr settings \<Rightarrow> LoadBalancerID settings = '''' \<and> named cl service \<and> (case m (serviceKey service) of None \<Rightarrow> True
          | Some (sv, _) \<Rightarrow> sv = service \<and> Ports service \<noteq> [] \<and> (\<forall>n \<in> set nodes. isl (nodeAddress n))))"
| "refused lb cl m (Delete service) \<longleftrightarrow> isl (settingsForService (opts lb) service)"

definition turned_down :: "'c \<Rightarrow> 'c world \<Rightarrow> ('c world, 'a) go \<Rightarrow> bool" where
  "turned_down s w m \<longleftrightarrow> (\<exists>e w'. m w = (Fail e, w') \<and> cloud w' = s)"

lemma turned_down_fail [simp]: "cloud w = s \<Longrightarrow> turned_down s w (failG e)"
  by (simp add: turned_down_def failG_def)

lemma turned_down_first: "turned_down s w m \<Longrightarrow> turned_down s w (bindG m f)"
  by (auto simp: turned_down_def bindG_def)

lemma turned_down_bind: "succeeds w m (\<lambda>x w1. turned_down s w1 (f x)) \<Longrightarrow> turned_down s w (bindG m f)"
  by (auto simp: turned_down_def succeeds_def bindG_def)

text \<open>A Service the map does not hold has no balancer.\<close>

lemma unserved:
  assumes imp: "implements lb cl m s" and sv: "named cl sv" and own: "LoadBalancerID settings = ''''"
    and none: "m (serviceKey sv) = None"
  shows "looked_up (GetLoadBalancerName cl sv) settings s = None"
  unfolding looked_up_none [OF own]
proof
  assume "GetLoadBalancerName cl sv \<in> lb_Name ` set (balancers s)"
  then obtain b where b: "b \<in> set (balancers s)" "lb_Name b = GetLoadBalancerName cl sv" by auto
  obtain service nodes where m: "m (serviceKey service) = Some (service, nodes)" "lb_Name b = GetLoadBalancerName cl service"
    using implementsD(5) [OF imp b(1)] by blast
  have "named cl service" using implementsD(6) [OF imp m(1)] by (simp add: realised_def)
  from named_inject [OF sv this] have "serviceKey sv = serviceKey service" using b(2) m(2) by simp
  then show False using none m(1) by simp
qed

lemma refused_Ensure:
  assumes imp: "implements lb cl m (cloud w)" and ref: "refused lb cl m (Ensure sv nodes)" and client: "newClient lb = returnG ElbClient"
  shows "turned_down (cloud w) w (serve fake_env lb cl (Ensure sv nodes))"
proof (cases "Ports sv = [] \<or> validatePorts sv \<noteq> Inr () \<or> nodes = [] \<or> isl (settingsForService (opts lb) sv)")
  case True
  then have "turned_down (cloud w) w (EnsureLoadBalancer fake_env lb cl sv nodes)"
    by (cases "validatePorts sv"; cases "settingsForService (opts lb) sv") (auto simp: EnsureLoadBalancer_def bindG_Fail turned_down_def failG_def)
  then show ?thesis by (simp add: turned_down_first)
next
  case False
  then obtain settings where conf: "settingsForService (opts lb) sv = Inr settings"
    and ok: "Ports sv \<noteq> []" "validatePorts sv = Inr ()" "nodes \<noteq> []"
    by (cases "settingsForService (opts lb) sv") auto
  have own: "LoadBalancerID settings = ''''" and sv: "named cl sv" "m (serviceKey sv) = None"
    and no: "SubnetID settings = '''' \<or> AvailabilityZones settings = []"
    using ref ok by (simp_all add: conf)
  have "turned_down (cloud w) w (EnsureLoadBalancer fake_env lb cl sv nodes)"
    unfolding EnsureLoadBalancer_def if_not_P [OF ok(1)] ok(2) liftG_simps bindG_return if_not_P [OF ok(3)] conf client Let_def
  proof (rule turned_down_bind, rule succeeds_findLoadBalancer, unfold unserved [OF imp sv(1) own sv(2)] option.case, rule turned_down_first)
    fix w1 :: "fakeELB world" assume w1: "cloud w1 = cloud w"
    show "turned_down (cloud w) w1 (if LoadBalancerID settings \<noteq> '''' then failG (Errorf ''load balancer %q referenced by annotation %s not found''
            [LoadBalancerID settings, AnnotationID])
          else createLoadBalancer fake_env ElbClient settings (GetLoadBalancerName cl sv) sv)"
      using own no w1 by (auto simp: createLoadBalancer_def)
  qed
  then show ?thesis by (simp add: turned_down_first)
qed

text \<open>Without an address the first port stops the update, before any member is touched.\<close>

lemma members_turned_down:
  assumes at: "pool_at (cloud w) i sl p" and ok: "consistent (cloud w)" and none: "\<forall>n \<in> set nodes. isl (nodeAddress n)"
  shows "turned_down (cloud w) w (reconcileMembers fake_env ElbClient b (pl_ID p) np nodes)"
proof (cases "np = 0")
  case True
  then show ?thesis by (simp add: reconcileMembers_def)
next
  case False
  obtain ms where ms: "map_of (members (cloud w)) (pl_ID p) = Some ms"
    using at consistentD(12) [OF ok] unfolding members_ok_def by (elim pool_atE) blast
  have list: "members_List fake_env ElbClient (pl_ID p) (cloud w) = (Inr (Inr (map snd ms)), cloud w)"
    using ms by (simp add: fake_fields onElb_def fake_mbList_def getItem_def)
  have "wantedMembers np nodes = []" unfolding wantedMembers_Nil using none by (auto simp: isl_def)
  then show ?thesis
    unfolding reconcileMembers_def Let_def if_not_P [OF False] listMembers_def mbList_def
    by (intro turned_down_bind succeeds_bind succeeds_wrap) (rule succeeds_sdkCall, rule list, simp add: succeeds_return)
qed

lemma port_turned_down:
  assumes ok: "consistent (cloud w)" and sl: "sliceOf (cloud w) i = Some sl" and set: "slice_settled name settings service nodes port sl"
    and key: "byKey (portKey port) = Some (sl_listener sl)" and none: "\<forall>n \<in> set nodes'. isl (nodeAddress n)"
  shows "turned_down (cloud w) w (updatePort fake_env ElbClient b service nodes' byKey port)"
  unfolding key option.case slice_id [OF ok sl]
proof (rule turned_down_bind, rule succeeds_findPool [OF ok sl])
  fix p and w1 :: "fakeELB world" assume "pool_at (cloud w) i sl p" and w1: "cloud w1 = cloud w"
  then show "turned_down (cloud w) w1 (case Some p of None \<Rightarrow> failG (Errorf ''pool for listener %s not found'' [i])
       | Some pool \<Rightarrow> reconcileMembers fake_env ElbClient b (pl_ID pool) (NodePort port) nodes')"
    using members_turned_down [of w1 i sl p nodes' b "NodePort port"] ok none by simp
qed (use set in \<open>simp add: slice_settled_def\<close>)

lemma refused_Update:
  assumes imp: "implements lb cl m (cloud w)" and ref: "refused lb cl m (Update sv nodes)" and client: "newClient lb = returnG ElbClient"
  shows "turned_down (cloud w) w (serve fake_env lb cl (Update sv nodes))"
proof (cases "settingsForService (opts lb) sv")
  case (Inl e)
  then show ?thesis by (simp add: UpdateLoadBalancer_def)
next
  case conf: (Inr settings)
  have own: "LoadBalancerID settings = ''''" and sv: "named cl sv" using ref conf by simp_all
  note ok = implementsD(2) [OF imp]
  show ?thesis
    unfolding serve.simps UpdateLoadBalancer_def conf client liftG_simps bindG_return
  proof (rule turned_down_bind, rule succeeds_findLoadBalancer)
    fix w1 :: "fakeELB world" assume w1: "cloud w1 = cloud w"
    show "turned_down (cloud w) w1 (case looked_up (GetLoadBalancerName cl sv) settings (cloud w) of
          None \<Rightarrow> failG (Errorf ''load balancer for service %s/%s not found'' [Namespace sv, ServiceName sv])
        | Some balancer \<Rightarrow> bindG (listListeners fake_env ElbClient (lb_ID balancer)) (\<lambda>existing.
            eachG (updatePort fake_env ElbClient balancer sv nodes (listenersByKey existing)) (Ports sv)))"
    proof (cases "m (serviceKey sv)")
      case None
      then show ?thesis using unserved [OF imp sv own] w1 by simp
    next
      case (Some svn)
      then obtain old where m: "m (serviceKey sv) = Some (sv, old)" and ports: "Ports sv \<noteq> []" and none: "\<forall>n \<in> set nodes. isl (nodeAddress n)"
        using ref conf by (cases svn) auto
      then obtain port ps where p: "Ports sv = port # ps" by (cases "Ports sv") auto
      obtain b where b: "b \<in> set (balancers (cloud w))" "lb_Name b = GetLoadBalancerName cl sv"
        and set: "settled fake_env ElbClient (cloud w) (GetLoadBalancerName cl sv) settings sv old (lb_ID b) b"
        using implementsD(6) [OF imp m] own_settingsD [of lb sv] conf unfolding realised_def by fastforce
      have look: "looked_up (GetLoadBalancerName cl sv) settings (cloud w) = Some b"
        using looked_up_own [OF own implementsD(3) [OF imp]] b by simp
      have ne: "lb_ID b \<noteq> ''''" using consistentD(9) [OF ok balancer_at [OF ok b(1)]] by simp
      obtain i sl where i: "holder (roster (cloud w)) (lb_ID b) (portKey port) = Some i" "sliceOf (cloud w) i = Some sl"
        "slice_settled (GetLoadBalancerName cl sv) settings sv old port sl"
        using settled_holder [OF ok set ne, of port] p by auto
      show ?thesis
        unfolding look option.case p eachG.simps
      proof (rule turned_down_bind, rule succeeds_listListeners [OF ne], rule turned_down_first)
        fix w2 :: "fakeELB world" assume "cloud w2 = cloud w1"
        then show "turned_down (cloud w) w2 (updatePort fake_env ElbClient b sv nodes
            (listenersByKey (map fl_obj (filter (\<lambda>l. fl_loadbalancer_id l = lb_ID b) (map snd (listeners (cloud w1)))))) port)"
          using port_turned_down [of w2 i sl _ settings sv old port] i key_listener [OF ok] ok none w1 by auto
      qed
    qed
  qed
qed

lemma refused_Delete:
  "refused lb cl m (Delete sv) \<Longrightarrow> turned_down (cloud w) w (serve fake_env lb cl (Delete sv))"
  by (cases "settingsForService (opts lb) sv") (simp_all add: EnsureLoadBalancerDeleted_def)

lemma refused_serve:
  assumes "implements lb cl m (cloud w)" and "refused lb cl m r" and "newClient lb = returnG ElbClient"
  shows "turned_down (cloud w) w (serve fake_env lb cl r)"
  using assms by (cases r) (simp_all only: refused_Ensure refused_Update refused_Delete)

subsection \<open>The provider as a server\<close>

definition connected :: "(fakeClient, fakeELB) LoadBalancer \<Rightarrow> bool" where
  "connected lb \<longleftrightarrow> newClient lb = returnG ElbClient \<and> newNetworkClient lb = returnG NetworkClient"

interpretation provider: simulation "serve fake_env lb cl" wanted "\<lambda>m w. connected lb \<and> implements lb cl m (cloud w)"
    "valid lb cl" "refused lb cl" for lb :: "(fakeClient, fakeELB) LoadBalancer" and cl :: string
proof
  fix m r and w :: "fakeELB world" assume imp: "connected lb \<and> implements lb cl m (cloud w)"
  show "succeeds w (serve fake_env lb cl r) (\<lambda>_ w'. connected lb \<and> implements lb cl (wanted r m) (cloud w'))" if "valid lb cl m r"
    using succeeds_serve [of lb cl m w r] that imp by (simp add: connected_def)
  show "\<exists>e w'. serve fake_env lb cl r w = (Fail e, w') \<and> connected lb \<and> implements lb cl m (cloud w')" if "refused lb cl m r"
    using refused_serve [of lb cl m w r] that imp by (auto simp: connected_def turned_down_def)
qed

end
