(* ===== verification/Elb_Lifecycle.thy ===== *)
theory Elb_Lifecycle
  imports Fake_Controller Elb_Requests
begin

section \<open>The life cycle of a Service\<close>

text \<open>
  The operations end to end: on the fake ELB they succeed and reach the state the Service asks for, one by one
  and in sequence, without disturbing other Services, and a
  Service whose state is reached is left alone by any cloud.
\<close>

subsection \<open>The fixture is sound\<close>

lemma genID_length: "length pre + 5 \<le> length (genID pre n)"
  by (simp add: genID_def)

lemma unused_short: "(\<forall>i \<in> I. length i < length pre + 5) \<Longrightarrow> unused pre n I"
  using genID_length unfolding unused_def by (metis leD)

text \<open>A new server is sound.\<close>

lemma newFakeELB_sound: "sound newFakeELB"
  by (auto simp: sound_def consistent_def attached_def roster_def fake_ids_def ids_unused_def keyed_def linked_def
      members_ok_def monitors_ok_def run intro!: unused_short)

lemma testState_sound: "sound testState"
proof -
  have "ids_unused testState"
    by (auto simp: ids_unused_def run intro!: unused_short split: if_splits)
  moreover have "fake_ids testState" by (simp add: fake_ids_def run)
  ultimately have "consistent testState"
    by (auto simp: consistent_def keyed_def linked_def members_ok_def monitors_ok_def statusActive_def run split: if_splits)
  moreover have "attached testState" by (simp add: attached_def roster_def run)
  ultimately show ?thesis by (simp add: sound_def)
qed

subsection \<open>Settling\<close>

text \<open>
  C2: \<open>EnsureLoadBalancer\<close> does its work. On a sound ELB, for a valid request whose ports have distinct
  keys and node ports, with a node that has an address, and, when it has source ranges, with no IP group of
  another name on the listeners of its ports, it returns without an error: the balancer it
  found or created is active, every port of the Service has a listener with the wanted whitelist, pool,
  members and monitor, no stale listener of the Service is left, the status returned is the balancer's,
  and the listeners of other balancers, and those of the balancer that have neither a port nor the name
  of the Service, are as they were with all that hangs on them. (A listener somebody else made for a port of
  the Service is not spared: it serves the port.)
\<close>

theorem ensure_settles:
  assumes "sound (cloud w)" and "settingsForService (opts lb) service = Inr settings" and "newClient lb = returnG ElbClient"
    and "Ports service \<noteq> []" and "validatePorts service = Inr ()" and "distinct (map portKey (Ports service))"
    and "\<forall>port \<in> set (Ports service). serveable nodes port" and "check_values settings"
    and "balancer_ready (GetLoadBalancerName cl service) settings service (cloud w)"
  shows "\<exists>b w'. EnsureLoadBalancer fake_env lb cl service nodes w = (Ok (lbStatus b), w') \<and> sound (cloud w') \<and>
    found_as fake_env ElbClient (cloud w') (GetLoadBalancerName cl service) settings b \<and>
    settled fake_env ElbClient (cloud w') (GetLoadBalancerName cl service) settings service nodes (lb_ID b) b \<and>
    spares (foreign (lb_ID b) (GetLoadBalancerName cl service) service) (cloud w) (cloud w')"
  using succeeds_EnsureLoadBalancer [OF assms] by (auto simp: succeeds_def ensured_def found_looked_up)


text \<open>The fixture: the Service of \<open>testState\<close> with one TCP port, served by one node.\<close>

lemma testService_ready:
  "Ports (testService [port80]) \<noteq> []" "validatePorts (testService [port80]) = Inr ()"
  "distinct (map portKey (Ports (testService [port80])))"
  "\<forall>port \<in> set (Ports (testService [port80])). serveable [testNode ''n1'' ''10.0.0.1''] port"
  "check_values plainSettings"
  by (simp_all add: run serveable_def check_values_def)

lemma testState_ready:
  "balancer_ready (GetLoadBalancerName ''c'' (testService [port80])) plainSettings (testService [port80]) testState"
  by (simp add: balancer_ready_def looked_up_def own_groups_def no_foreign_group_def run split: option.splits)

lemma testLoadBalancer_client: "newClient testLoadBalancer = returnG ElbClient" "newNetworkClient testLoadBalancer = returnG NetworkClient"
  by (simp_all add: testLoadBalancer_def)

theorem ensure_settles_witness:
  "\<exists>b w'. EnsureLoadBalancer fake_env testLoadBalancer ''c'' (testService [port80]) [testNode ''n1'' ''10.0.0.1'']
      (world_of testState) = (Ok (lbStatus b), w') \<and> sound (cloud w') \<and>
    found_as fake_env ElbClient (cloud w') (GetLoadBalancerName ''c'' (testService [port80])) plainSettings b \<and>
    settled fake_env ElbClient (cloud w') (GetLoadBalancerName ''c'' (testService [port80])) plainSettings
      (testService [port80]) [testNode ''n1'' ''10.0.0.1''] (lb_ID b) b \<and>
    spares (foreign (lb_ID b) (GetLoadBalancerName ''c'' (testService [port80])) (testService [port80])) testState (cloud w')"
  using ensure_settles [OF _ testService_settings testLoadBalancer_client(1) testService_ready, of "world_of testState" "''c''"]
    testState_sound testState_ready by (simp add: world_of_def)

subsection \<open>A settled Service is left alone\<close>

lemma servedState_ensured:
  "ensured (GetLoadBalancerName ''c'' (testService [port80])) plainSettings (testService [port80])
     [testNode ''n1'' ''10.0.0.1''] testState (snd (hd (loadBalancers testState))) servedState"
proof -
  have "succeeds (world_of testState) (EnsureLoadBalancer fake_env testLoadBalancer ''c'' (testService [port80]) [testNode ''n1'' ''10.0.0.1''])
    (\<lambda>st w'. \<exists>b. st = lbStatus b \<and> ensured (GetLoadBalancerName ''c'' (testService [port80])) plainSettings (testService [port80])
       [testNode ''n1'' ''10.0.0.1''] (cloud (world_of testState)) b (cloud w'))"
    by (rule succeeds_EnsureLoadBalancer [OF _ testService_settings testLoadBalancer_client(1) testService_ready])
      (use testState_sound testState_ready in \<open>simp_all add: world_of_def\<close>)
  then obtain b where b: "ensured (GetLoadBalancerName ''c'' (testService [port80])) plainSettings (testService [port80])
       [testNode ''n1'' ''10.0.0.1''] testState b servedState"
    using ensure_run by (auto simp: succeeds_def world_of_def)
  have "looked_up (GetLoadBalancerName ''c'' (testService [port80])) plainSettings servedState = Some (snd (hd (loadBalancers testState)))"
    by (simp add: looked_up_def run)
  then show ?thesis using b by (simp add: ensured_def)
qed

text \<open>
  C3: a Service whose state is reached is left alone, by any cloud and not only the fake: when the balancer
  found is active and every port is settled with no stale listener left, \<open>EnsureLoadBalancer\<close> makes
  read-only calls, changes nothing, and returns the status of the balancer. (An idle timeout is written
  on every reconciliation, as the SDK does not read it back; so none is set.)
\<close>

theorem ensure_idle:
  assumes "wait_contract E" and "settingsForService (opts lb) service = Inr settings" and "looks (cloud w) (newClient lb) k"
    and "Ports service \<noteq> []" and "validatePorts service = Inr ()" and "nodes \<noteq> []" and "IdleTimeout settings \<le> 0"
    and "found_as E k (cloud w) (GetLoadBalancerName cl service) settings b"
    and "settled E k (cloud w) (GetLoadBalancerName cl service) settings service nodes (lb_ID b) b'"
  shows "\<exists>w' es. EnsureLoadBalancer E lb cl service nodes w = (Ok (lbStatus b'), w') \<and> cloud w' = cloud w \<and>
    trace w' = trace w @ es \<and> (\<forall>e \<in> set es. read_only e)"
  using wait_contract.looks_EnsureLoadBalancer [OF assms(1,4,5,6,2,7,3,8,9)] by (auto simp: looks_def)

theorem ensure_idle_witness:
  "\<exists>w' es. EnsureLoadBalancer fake_env testLoadBalancer ''c'' (testService [port80]) [testNode ''n1'' ''10.0.0.1'']
      (world_of servedState) = (Ok \<lparr>Ingress = [''80.158.0.1'']\<rparr>, w') \<and> cloud w' = servedState \<and>
    trace w' = es \<and> (\<forall>e \<in> set es. read_only e)"
proof -
  let ?b = "snd (hd (loadBalancers testState))"
  have set: "settled fake_env ElbClient (cloud (world_of servedState)) (GetLoadBalancerName ''c'' (testService [port80])) plainSettings
      (testService [port80]) [testNode ''n1'' ''10.0.0.1''] (lb_ID ?b) ?b"
    and found: "found_as fake_env ElbClient (cloud (world_of servedState)) (GetLoadBalancerName ''c'' (testService [port80])) plainSettings ?b"
    using servedState_ensured by (simp_all add: ensured_def found_looked_up world_of_def)
  have client: "looks (cloud (world_of servedState)) (newClient testLoadBalancer) ElbClient"
    unfolding testLoadBalancer_client by (rule looks_return)
  have "lbStatus ?b = \<lparr>Ingress = [''80.158.0.1'']\<rparr>" by (simp add: run)
  with ensure_idle [OF fake.wait_contract_axioms testService_settings client testService_ready(1,2) _ _ found set]
  show ?thesis by (simp add: world_of_def plainSettings_def)
qed

subsection \<open>Node changes\<close>

text \<open>
  C7: \<open>UpdateLoadBalancer\<close> does its work. On a sound ELB where the Service is settled for the old nodes, and
  when at least one of the new nodes has an address, it
  returns without an error and the Service is settled for the new ones; the listeners, the balancers and
  everything of other listeners are as they were.
\<close>

theorem update_settles:
  assumes "sound (cloud w)" and "settingsForService (opts lb) service = Inr settings" and "newClient lb = returnG ElbClient"
    and "found_as fake_env ElbClient (cloud w) (GetLoadBalancerName cl service) settings b"
    and "settled fake_env ElbClient (cloud w) (GetLoadBalancerName cl service) settings service nodes (lb_ID b) b"
    and "distinct (map portKey (Ports service))" and "\<forall>port \<in> set (Ports service). serveable nodes' port"
  shows "\<exists>w'. UpdateLoadBalancer fake_env lb cl service nodes' w = (Ok (), w') \<and> sound (cloud w') \<and>
    settled fake_env ElbClient (cloud w') (GetLoadBalancerName cl service) settings service nodes' (lb_ID b) b \<and>
    spares (foreign (lb_ID b) (GetLoadBalancerName cl service) service) (cloud w) (cloud w') \<and>
    roster (cloud w') = roster (cloud w) \<and> loadBalancers (cloud w') = loadBalancers (cloud w)"
  using succeeds_UpdateLoadBalancer [OF assms(1-3) assms(4) [unfolded found_looked_up] assms(5-7)]
  by (auto simp: succeeds_def updated_def)

theorem update_settles_witness:
  "\<exists>w'. UpdateLoadBalancer fake_env testLoadBalancer ''c'' (testService [port80]) [testNode ''n2'' ''10.0.0.2'']
      (world_of servedState) = (Ok (), w') \<and> sound (cloud w') \<and>
    settled fake_env ElbClient (cloud w') (GetLoadBalancerName ''c'' (testService [port80])) plainSettings
      (testService [port80]) [testNode ''n2'' ''10.0.0.2''] ''lb-1'' (snd (hd (loadBalancers testState))) \<and>
    roster (cloud w') = roster servedState"
proof -
  let ?b = "snd (hd (loadBalancers testState))"
  let ?w = "world_of servedState"
  have s: "sound (cloud ?w)" and id: "lb_ID ?b = ''lb-1''"
    and set: "settled fake_env ElbClient (cloud ?w) (GetLoadBalancerName ''c'' (testService [port80])) plainSettings
      (testService [port80]) [testNode ''n1'' ''10.0.0.1''] (lb_ID ?b) ?b"
    and found: "found_as fake_env ElbClient (cloud ?w) (GetLoadBalancerName ''c'' (testService [port80])) plainSettings ?b"
    using servedState_ensured by (simp_all add: ensured_def found_looked_up world_of_def testState_def)
  have "\<forall>port \<in> set (Ports (testService [port80])). serveable [testNode ''n2'' ''10.0.0.2''] port"
    by (simp add: run serveable_def)
  from update_settles [OF s testService_settings testLoadBalancer_client(1) found set testService_ready(3) this]
  show ?thesis unfolding id by (auto simp: world_of_def)
qed

subsection \<open>Deletion\<close>

text \<open>
  C6: \<open>EnsureLoadBalancerDeleted\<close> does its work. On a sound ELB it returns without an error; when there is
  no balancer nothing changed; else its listeners are gone (on a shared balancer those with the
  Service's name), every other listener is as it was, the balancer is gone unless it is shared; and when it
  is not shared and the annotations ask for an EIP by bandwidth and not to keep it, the EIPs bound to it
  are released.
\<close>

theorem deletion_settles:
  assumes "sound (cloud w)" and "settingsForService (opts lb) service = Inr settings"
    and "newClient lb = returnG ElbClient" and "newNetworkClient lb = returnG NetworkClient"
  shows "\<exists>w'. EnsureLoadBalancerDeleted fake_env lb cl service w = (Ok (), w') \<and> sound (cloud w') \<and>
    (case looked_up (GetLoadBalancerName cl service) settings (cloud w) of None \<Rightarrow> cloud w' = cloud w
     | Some b \<Rightarrow> without (LoadBalancerID settings \<noteq> '''') (lb_ID b) (GetLoadBalancerName cl service) (cloud w) (cloud w') \<and>
        (LoadBalancerID settings = '''' \<and> EipBandwidth settings > 0 \<and> \<not> EipKeep settings \<longrightarrow>
           (\<forall>e \<in> set (lb_PublicIps b). PublicIpID e \<noteq> '''' \<longrightarrow> PublicIpID e \<notin> dom (map_of (eips (cloud w'))))))"
  using succeeds_EnsureLoadBalancerDeleted [OF assms] by (auto simp: succeeds_def dismissed_def)

theorem deletion_settles_witness:
  "\<exists>w'. EnsureLoadBalancerDeleted fake_env testLoadBalancer ''c'' (testService [port80]) (world_of testState) = (Ok (), w') \<and>
    sound (cloud w') \<and> without False ''lb-1'' (GetLoadBalancerName ''c'' (testService [port80])) testState (cloud w')"
proof -
  have at: "looked_up (GetLoadBalancerName ''c'' (testService [port80])) plainSettings testState = Some (snd (hd (loadBalancers testState)))"
    by (simp add: looked_up_def run)
  have "LoadBalancerID plainSettings = ''''" "lb_ID (snd (hd (loadBalancers testState))) = ''lb-1''"
    by (simp_all add: plainSettings_def testState_def)
  with deletion_settles [OF _ testService_settings testLoadBalancer_client, of "world_of testState" "''c''" "[port80]"] testState_sound at
  show ?thesis by (auto simp: world_of_def)
qed

text \<open>
  C8: creation and deletion are inverse. A Service without a balancer that is ensured and then deleted
  leaves the balancers, the listeners and everything that hangs on a listener as they were.
\<close>

theorem ensure_delete_roundtrip:
  assumes "sound (cloud w)" and "settingsForService (opts lb) service = Inr settings"
    and "newClient lb = returnG ElbClient" and "newNetworkClient lb = returnG NetworkClient"
    and "Ports service \<noteq> []" and "validatePorts service = Inr ()" and "distinct (map portKey (Ports service))"
    and "\<forall>port \<in> set (Ports service). serveable nodes port" and "check_values settings"
    and "LoadBalancerID settings = ''''" and "SubnetID settings \<noteq> ''''" and "AvailabilityZones settings \<noteq> []"
    and "looked_up (GetLoadBalancerName cl service) settings (cloud w) = None"
  shows "\<exists>st w1 w2. EnsureLoadBalancer fake_env lb cl service nodes w = (Ok st, w1) \<and>
    EnsureLoadBalancerDeleted fake_env lb cl service w1 = (Ok (), w2) \<and>
    loadBalancers (cloud w2) = loadBalancers (cloud w) \<and> roster (cloud w2) = roster (cloud w) \<and>
    (\<forall>e \<in> set (roster (cloud w)). sliceOf (cloud w2) (fst e) = sliceOf (cloud w) (fst e))"
proof -
  have ready: "balancer_ready (GetLoadBalancerName cl service) settings service (cloud w)"
    using assms(10-13) by (simp add: balancer_ready_def)
  obtain b w1 where 1: "EnsureLoadBalancer fake_env lb cl service nodes w = (Ok (lbStatus b), w1)"
    and mk: "ensured (GetLoadBalancerName cl service) settings service nodes (cloud w) b (cloud w1)"
    using succeeds_EnsureLoadBalancer [OF assms(1-3,5-9) ready] by (auto simp: succeeds_def)
  have "sound (cloud w1)" using mk by (simp add: ensured_def)
  then obtain w2 where 2: "EnsureLoadBalancerDeleted fake_env lb cl service w1 = (Ok (), w2)"
    and rm: "dismissed (GetLoadBalancerName cl service) settings (cloud w1) (cloud w2)"
    using succeeds_EnsureLoadBalancerDeleted [OF _ assms(2-4)] by (auto simp: succeeds_def)
  show ?thesis
    by (rule exI [of _ "lbStatus b"], rule exI [of _ w1], rule exI [of _ w2])
      (use 1 2 ensured_dismissed [OF assms(1,13,10) mk rm] in simp)
qed

theorem ensure_delete_roundtrip_witness:
  "\<exists>st w1 w2. EnsureLoadBalancer fake_env testLoadBalancer ''other'' (testService [port80]) [testNode ''n1'' ''10.0.0.1'']
      (world_of testState) = (Ok st, w1) \<and>
    EnsureLoadBalancerDeleted fake_env testLoadBalancer ''other'' (testService [port80]) w1 = (Ok (), w2) \<and>
    loadBalancers (cloud w2) = loadBalancers testState \<and> roster (cloud w2) = roster testState \<and>
    (\<forall>e \<in> set (roster testState). sliceOf (cloud w2) (fst e) = sliceOf testState (fst e))"
proof -
  have "looked_up (GetLoadBalancerName ''other'' (testService [port80])) plainSettings testState = None"
    by (simp add: looked_up_def run)
  then show ?thesis
    using ensure_delete_roundtrip [OF _ testService_settings testLoadBalancer_client testService_ready, of "world_of testState" "''other''"]
      testState_sound by (simp add: world_of_def plainSettings_def)
qed


subsection \<open>Services side by side\<close>

text \<open>
  C9: ensuring one Service does not disturb another. A Service A that is settled, its listeners its own,
  stays settled when a different Service B of the cluster is ensured, on a balancer of its own or on the
  same one when their ports differ: and B is settled, too.
\<close>

theorem services_coexist:
  assumes "sound (cloud w)" and "settingsForService (opts lb) serviceB = Inr settingsB" and "newClient lb = returnG ElbClient"
    and "Ports serviceB \<noteq> []" and "validatePorts serviceB = Inr ()" and "distinct (map portKey (Ports serviceB))"
    and "\<forall>port \<in> set (Ports serviceB). serveable nodesB port" and "check_values settingsB"
    and "balancer_ready (GetLoadBalancerName cl serviceB) settingsB serviceB (cloud w)"
    and "settled fake_env ElbClient (cloud w) (GetLoadBalancerName cl serviceA) settingsA serviceA nodesA lbA bA"
    and "named_listeners lbA (GetLoadBalancerName cl serviceA) serviceA (cloud w)"
    and "k8s_names serviceA" and "k8s_names serviceB"
    and "length (fullName cl serviceA) < 255" and "length (fullName cl serviceB) < 255"
    and "(Namespace serviceA, ServiceName serviceA) \<noteq> (Namespace serviceB, ServiceName serviceB)"
    and "\<And>b. looked_up (GetLoadBalancerName cl serviceB) settingsB (cloud w) = Some b \<Longrightarrow> lb_ID b = lbA \<Longrightarrow>
      portKey ` set (Ports serviceA) \<inter> portKey ` set (Ports serviceB) = {}"
  shows "\<exists>b w'. EnsureLoadBalancer fake_env lb cl serviceB nodesB w = (Ok (lbStatus b), w') \<and>
    settled fake_env ElbClient (cloud w') (GetLoadBalancerName cl serviceB) settingsB serviceB nodesB (lb_ID b) b \<and>
    settled fake_env ElbClient (cloud w') (GetLoadBalancerName cl serviceA) settingsA serviceA nodesA lbA bA"
proof -
  obtain b w' where run: "EnsureLoadBalancer fake_env lb cl serviceB nodesB w = (Ok (lbStatus b), w')"
    and mk: "ensured (GetLoadBalancerName cl serviceB) settingsB serviceB nodesB (cloud w) b (cloud w')"
    using succeeds_EnsureLoadBalancer [OF assms(1-9)] by (auto simp: succeeds_def)
  have lb: "lbA \<in> dom (map_of (loadBalancers (cloud w)))" using settled_at [OF assms(10)] by blast
  have ports: "portKey ` set (Ports serviceA) \<inter> portKey ` set (Ports serviceB) = {}" if "lb_ID b = lbA"
    using assms(17) ensured_balancer [OF assms(1) mk lb that] that by blast
  have "settled fake_env ElbClient (cloud w') (GetLoadBalancerName cl serviceA) settingsA serviceA nodesA lbA bA"
    using ensured_keeps [OF assms(1) mk assms(10,11) services_apart [OF assms(12-16)] ports] by blast
  moreover have "settled fake_env ElbClient (cloud w') (GetLoadBalancerName cl serviceB) settingsB serviceB nodesB (lb_ID b) b"
    using mk [unfolded ensured_def] by (elim conjE)
  ultimately show ?thesis using run by blast
qed

text \<open>A second Service on the balancer of the first.\<close>

definition port8080 :: ServicePort where
  "port8080 = \<lparr>Protocol = ''TCP'', Port = 8080, NodePort = 30880\<rparr>"

definition apiService :: Service where
  "apiService = (annotatedService [AnnotationID \<mapsto> ''lb-1''] [port8080])\<lparr>ServiceName := ''api''\<rparr>"

lemma apiService_fields [run]:
  "Namespace apiService = ''default''" "ServiceName apiService = ''api''" "Ports apiService = [port8080]"
  "LoadBalancerSourceRanges apiService = []"
  by (simp_all add: apiService_def annotatedService_def plain_service_def)

lemma apiService_settings:
  "settingsForService (opts testLoadBalancer) apiService = Inr (plainSettings\<lparr>LoadBalancerID := ''lb-1''\<rparr>)"
  by (simp add: apiService_def annotatedService_def plain_service_def run settings_run testOpts_def annotation_defs plainSettings_def Atoi_100)

lemma services_facts:
  "k8s_names (testService [port80])" "k8s_names apiService" "length (fullName ''c'' (testService [port80])) < 255"
  "length (fullName ''c'' apiService) < 255"
  "(Namespace (testService [port80]), ServiceName (testService [port80])) \<noteq> (Namespace apiService, ServiceName apiService)"
  by (simp_all add: k8s_names_def fullName_def lbNamePrefix_def run)

lemma apiService_ready:
  "Ports apiService \<noteq> []" "validatePorts apiService = Inr ()" "distinct (map portKey (Ports apiService))"
  "\<forall>port \<in> set (Ports apiService). serveable [testNode ''n1'' ''10.0.0.1''] port"
  "check_values (plainSettings\<lparr>LoadBalancerID := ''lb-1''\<rparr>)"
  by (simp_all add: run serveable_def check_values_def port8080_def)

lemma servedState_facts:
  "sound servedState" "named_listeners ''lb-1'' (GetLoadBalancerName ''c'' (testService [port80])) (testService [port80]) servedState"
  "settled fake_env ElbClient servedState (GetLoadBalancerName ''c'' (testService [port80])) plainSettings
     (testService [port80]) [testNode ''n1'' ''10.0.0.1''] ''lb-1'' (snd (hd (loadBalancers testState)))"
  "balancer_ready (GetLoadBalancerName ''c'' apiService) (plainSettings\<lparr>LoadBalancerID := ''lb-1''\<rparr>) apiService servedState"
proof -
  have id: "lb_ID (snd (hd (loadBalancers testState))) = ''lb-1''" by (simp add: testState_def)
  show "sound servedState" by (rule ensuredD [OF servedState_ensured])
  show "settled fake_env ElbClient servedState (GetLoadBalancerName ''c'' (testService [port80])) plainSettings
     (testService [port80]) [testNode ''n1'' ''10.0.0.1''] ''lb-1'' (snd (hd (loadBalancers testState)))"
    using servedState_ensured [unfolded ensured_def id] by (elim conjE)
  have "resourceName (GetLoadBalancerName ''c'' (testService [port80])) port80 = ''kube_service_c_default_web_TCP_80''"
    by (simp add: run)
  then have n: "\<exists>port. ''kube_service_c_default_web_TCP_80'' = resourceName (GetLoadBalancerName ''c'' (testService [port80])) port"
    by metis
  show "named_listeners ''lb-1'' (GetLoadBalancerName ''c'' (testService [port80])) (testService [port80]) servedState"
    using n by (simp add: named_listeners_def roster_def servedState_def testState_def newFakeELB_def testListener_def
        testService_def fixture_fields portKey_def listenerKey_def port80_def dec_int_def dec_nat_numeral digit_char_def)
  show "balancer_ready (GetLoadBalancerName ''c'' apiService) (plainSettings\<lparr>LoadBalancerID := ''lb-1''\<rparr>) apiService servedState"
    by (simp add: balancer_ready_def looked_up_def own_groups_def no_foreign_group_def run split: option.splits)
qed

theorem services_coexist_witness:
  "\<exists>b w'. EnsureLoadBalancer fake_env testLoadBalancer ''c'' apiService [testNode ''n1'' ''10.0.0.1''] (world_of servedState) =
      (Ok (lbStatus b), w') \<and>
    settled fake_env ElbClient (cloud w') (GetLoadBalancerName ''c'' apiService) (plainSettings\<lparr>LoadBalancerID := ''lb-1''\<rparr>)
      apiService [testNode ''n1'' ''10.0.0.1''] (lb_ID b) b \<and>
    settled fake_env ElbClient (cloud w') (GetLoadBalancerName ''c'' (testService [port80])) plainSettings
      (testService [port80]) [testNode ''n1'' ''10.0.0.1''] ''lb-1'' (snd (hd (loadBalancers testState)))"
proof (rule services_coexist)
  show "portKey ` set (Ports (testService [port80])) \<inter> portKey ` set (Ports apiService) = {}"
    by (simp add: run port8080_def)
qed (use servedState_facts apiService_settings testLoadBalancer_client(1) apiService_ready services_facts in \<open>simp_all add: world_of_def\<close>)

text \<open>
  C10: nor does deleting one Service disturb another: A stays settled when a different Service B of the
  cluster is deleted, unless B had the balancer to itself (then it is deleted with all it serves).
\<close>

theorem deletion_coexists:
  assumes "sound (cloud w)" and "settingsForService (opts lb) serviceB = Inr settingsB"
    and "newClient lb = returnG ElbClient" and "newNetworkClient lb = returnG NetworkClient"
    and "settled fake_env ElbClient (cloud w) (GetLoadBalancerName cl serviceA) settingsA serviceA nodesA lbA bA"
    and "named_listeners lbA (GetLoadBalancerName cl serviceA) serviceA (cloud w)"
    and "k8s_names serviceA" and "k8s_names serviceB"
    and "length (fullName cl serviceA) < 255" and "length (fullName cl serviceB) < 255"
    and "(Namespace serviceA, ServiceName serviceA) \<noteq> (Namespace serviceB, ServiceName serviceB)"
    and "\<And>b. looked_up (GetLoadBalancerName cl serviceB) settingsB (cloud w) = Some b \<Longrightarrow> lb_ID b = lbA \<Longrightarrow>
      LoadBalancerID settingsB \<noteq> ''''"
  shows "\<exists>w'. EnsureLoadBalancerDeleted fake_env lb cl serviceB w = (Ok (), w') \<and>
    settled fake_env ElbClient (cloud w') (GetLoadBalancerName cl serviceA) settingsA serviceA nodesA lbA bA"
proof -
  obtain w' where run: "EnsureLoadBalancerDeleted fake_env lb cl serviceB w = (Ok (), w')"
    and rm: "dismissed (GetLoadBalancerName cl serviceB) settingsB (cloud w) (cloud w')"
    using succeeds_EnsureLoadBalancerDeleted [OF assms(1-4)] by (auto simp: succeeds_def)
  have "settled fake_env ElbClient (cloud w') (GetLoadBalancerName cl serviceA) settingsA serviceA nodesA lbA bA"
    by (rule dismissed_keeps [OF assms(1) rm assms(5,6) services_apart [OF assms(7-11)]]) (rule assms(12))
  then show ?thesis using run by blast
qed

theorem deletion_coexists_witness:
  "\<exists>w'. EnsureLoadBalancerDeleted fake_env testLoadBalancer ''c'' apiService (world_of servedState) = (Ok (), w') \<and>
    settled fake_env ElbClient (cloud w') (GetLoadBalancerName ''c'' (testService [port80])) plainSettings
      (testService [port80]) [testNode ''n1'' ''10.0.0.1''] ''lb-1'' (snd (hd (loadBalancers testState)))"
proof (rule deletion_coexists)
  show "LoadBalancerID (plainSettings\<lparr>LoadBalancerID := ''lb-1''\<rparr>) \<noteq> ''''" by (simp add: plainSettings_def)
qed (use servedState_facts apiService_settings testLoadBalancer_client services_facts in \<open>simp_all add: world_of_def\<close>)


subsection \<open>Listeners of somebody else\<close>

text \<open>The listener a lookup by key finds is the same one after the Service was ensured, and it serves the port.\<close>

lemma found_holder:
  assumes ok: "consistent s" and ls: "listeners_List fake_env ElbClient lbID s = (Inr (Inr ls), s)" and ne: "lbID \<noteq> ''''"
    and l: "listenersByKey ls key = Some l"
  shows "holder (roster s) lbID key = Some (ls_ID l)" and "(ls_ID l, lbID, ls_Name l, key) \<in> set (roster s)"
proof -
  have ls: "ls = map fl_obj (filter (\<lambda>l. fl_loadbalancer_id l = lbID) (map snd (listeners s)))"
    using ls list_listeners [OF ne, of s] by simp
  obtain i sl where "holder (roster s) lbID key = Some i" "sliceOf s i = Some sl" "sl_listener sl = l"
    using l unfolding ls key_listener [OF ok] by (auto simp: bind_eq_Some_conv)
  then show "holder (roster s) lbID key = Some (ls_ID l)" using slice_id [OF ok] by auto
  have "l \<in> set ls" "listenerKey l = key" using listenersByKey_Some [OF l] by simp_all
  then show "(ls_ID l, lbID, ls_Name l, key) \<in> set (roster s)" using listed_slices(2) [OF ok, of l lbID] ls by simp
qed

lemma ensured_serves_found:
  assumes s: "sound s" and mk: "ensured name settings service nodes s b s'"
    and ls: "listeners_List fake_env ElbClient (lb_ID b) s = (Inr (Inr ls), s)" and port: "port \<in> set (Ports service)"
    and l: "listenersByKey ls (portKey port) = Some l"
  shows "\<exists>ls' l'. listeners_List fake_env ElbClient (lb_ID b) s' = (Inr (Inr ls'), s') \<and>
    listenersByKey ls' (portKey port) = Some l' \<and> ls_ID l' = ls_ID l \<and> ls_Name l' = ls_Name l \<and>
    port_settled fake_env ElbClient s' name settings service nodes l' port"
proof -
  note set = ensuredD(6) [OF mk]
  have ok: "consistent s" "consistent s'" using s ensuredD(1) [OF mk] by (simp_all add: sound_def)
  have ne: "lb_ID b \<noteq> ''''" using consistentD(9) [OF ok(2) settled_at [OF set]] by simp
  obtain ls' l' where ls': "listeners_List fake_env ElbClient (lb_ID b) s' = (Inr (Inr ls'), s')"
    and l': "listenersByKey ls' (portKey port) = Some l'" "port_settled fake_env ElbClient s' name settings service nodes l' port"
    using set port unfolding settled_def by blast
  note old = found_holder [OF ok(1) ls ne l] and new = found_holder [OF ok(2) ls' ne l'(1)]
  have id: "ls_ID l' = ls_ID l"
    using ensuredD(8) [OF mk] old(1) new(1) port unfolding keeps_holders_def by simp
  obtain R where "roster s' = filter (\<lambda>e. \<not> stale_entry (lb_ID b) name service e) (roster s) @ R"
    using ensuredD(3) [OF mk] unfolding rearranged_def by (elim exE conjE)
  then have "(ls_ID l, lb_ID b, ls_Name l, portKey port) \<in> set (roster s')"
    using old(2) port by (simp add: stale_entry_def)
  from roster_unique [OF ok(2) new(2) [unfolded id] this] have "ls_Name l' = ls_Name l" by simp
  then show ?thesis using ls' l' id by blast
qed

text \<open>
  C32: on a shared balancer a listener of somebody else is taken over. \<open>reconcile\<close> looks listeners up by
  protocol and port only. Whenever a sound ELB has, on the balancer of a valid request, a listener with a port
  of the Service that does not carry the Service's name (and, when the Service has source ranges, no IP group of
  another name on a listener of its ports), \<open>EnsureLoadBalancer\<close> succeeds and makes that very
  listener, whose id and name stay, serve the port: afterwards it has the Service's whitelist, pool, monitor and
  exactly the Service's nodes as members. (The documentation says that only own listeners are managed.)
\<close>

theorem foreign_listener_taken_over:
  assumes "sound (cloud w)" and "settingsForService (opts lb) service = Inr settings" and "newClient lb = returnG ElbClient"
    and "Ports service \<noteq> []" and "validatePorts service = Inr ()" and "distinct (map portKey (Ports service))"
    and "\<forall>port \<in> set (Ports service). serveable nodes port" and "check_values settings"
    and "looked_up (GetLoadBalancerName cl service) settings (cloud w) = Some b"
    and "own_groups (lb_ID b) (GetLoadBalancerName cl service) service (cloud w)"
    and "listeners_List fake_env ElbClient (lb_ID b) (cloud w) = (Inr (Inr ls), cloud w)"
    and "port \<in> set (Ports service)" and "listenersByKey ls (portKey port) = Some l"
    and "\<not> owned (GetLoadBalancerName cl service) (ls_Name l)"
  shows "\<exists>w' ls' l'. EnsureLoadBalancer fake_env lb cl service nodes w = (Ok (lbStatus b), w') \<and>
    listeners_List fake_env ElbClient (lb_ID b) (cloud w') = (Inr (Inr ls'), cloud w') \<and>
    listenersByKey ls' (portKey port) = Some l' \<and> ls_ID l' = ls_ID l \<and> ls_Name l' = ls_Name l \<and>
    \<not> owned (GetLoadBalancerName cl service) (ls_Name l') \<and>
    port_settled fake_env ElbClient (cloud w') (GetLoadBalancerName cl service) settings service nodes l' port"
proof -
  let ?n = "GetLoadBalancerName cl service"
  have ready: "balancer_ready ?n settings service (cloud w)" using assms(9,10) by (simp add: balancer_ready_def)
  obtain b' w' where run: "EnsureLoadBalancer fake_env lb cl service nodes w = (Ok (lbStatus b'), w')"
    and mk: "ensured ?n settings service nodes (cloud w) b' (cloud w')"
    using succeeds_EnsureLoadBalancer [OF assms(1-8) ready] by (auto simp: succeeds_def)
  have "loadBalancers (cloud w') = loadBalancers (cloud w)" using ensuredD(4) [OF mk] assms(9) by simp
  then have "looked_up ?n settings (cloud w') = looked_up ?n settings (cloud w)" by (rule looked_up_cong)
  then have "looked_up ?n settings (cloud w') = Some b" unfolding assms(9) .
  then have b: "b' = b" using ensuredD(5) [OF mk] by simp
  from ensured_serves_found [OF assms(1) mk [unfolded b] assms(11-13)] obtain ls' l' where
      "listeners_List fake_env ElbClient (lb_ID b) (cloud w') = (Inr (Inr ls'), cloud w')"
      "listenersByKey ls' (portKey port) = Some l'" "ls_ID l' = ls_ID l" and name: "ls_Name l' = ls_Name l"
      "port_settled fake_env ElbClient (cloud w') ?n settings service nodes l' port"
    by (elim exE conjE) (rule that)
  moreover have "\<not> owned ?n (ls_Name l')" unfolding name(1) by (fact assms(14))
  ultimately show ?thesis using run [unfolded b] by (intro exI [of _ w'] exI [of _ ls'] exI [of _ l'] conjI)
qed

text \<open>A Service that asks for port 443 of the balancer of \<open>testState\<close>, where somebody else has a listener.\<close>

definition port443 :: ServicePort where
  "port443 = \<lparr>Protocol = ''TCP'', Port = 443, NodePort = 30443\<rparr>"

abbreviation intruder :: Service where
  "intruder \<equiv> annotatedService [AnnotationID \<mapsto> ''lb-1''] [port443]"

lemma intruder_ready:
  "Ports intruder \<noteq> []" "validatePorts intruder = Inr ()" "distinct (map portKey (Ports intruder))"
  "\<forall>port \<in> set (Ports intruder). serveable [testNode ''n1'' ''10.0.0.1''] port"
  "check_values (plainSettings\<lparr>LoadBalancerID := ''lb-1''\<rparr>)" "port443 \<in> set (Ports intruder)"
  by (simp_all add: run serveable_def check_values_def port443_def)

lemma intruder_settings: "settingsForService (opts testLoadBalancer) intruder = Inr (plainSettings\<lparr>LoadBalancerID := ''lb-1''\<rparr>)"
  by (simp only: fixture_fields settings_fixtures)

lemma testState_listeners:
  "looked_up (GetLoadBalancerName ''c'' intruder) (plainSettings\<lparr>LoadBalancerID := ''lb-1''\<rparr>) testState = Some (snd (hd (loadBalancers testState)))"
  "own_groups ''lb-1'' (GetLoadBalancerName ''c'' intruder) intruder testState"
  "listeners_List fake_env ElbClient ''lb-1'' testState = (Inr (Inr (map (fl_obj \<circ> snd) (listeners testState))), testState)"
  "listenersByKey (map (fl_obj \<circ> snd) (listeners testState)) (portKey port443) = Some (fl_obj (testListener ''ls-2'' ''somebody-else'' 443))"
  "\<not> owned (GetLoadBalancerName ''c'' intruder) ''somebody-else''"
  by (simp_all add: looked_up_def own_groups_def no_foreign_group_def owned_def run port443_def split: option.splits)

theorem foreign_listener_taken_over_witness:
  "\<exists>w' ls' l'. EnsureLoadBalancer fake_env testLoadBalancer ''c'' intruder [testNode ''n1'' ''10.0.0.1''] (world_of testState) =
      (Ok \<lparr>Ingress = [''80.158.0.1'']\<rparr>, w') \<and>
    listeners_List fake_env ElbClient ''lb-1'' (cloud w') = (Inr (Inr ls'), cloud w') \<and>
    listenersByKey ls' (portKey port443) = Some l' \<and> ls_ID l' = ''ls-2'' \<and> ls_Name l' = ''somebody-else'' \<and>
    port_settled fake_env ElbClient (cloud w') (GetLoadBalancerName ''c'' intruder) (plainSettings\<lparr>LoadBalancerID := ''lb-1''\<rparr>)
      intruder [testNode ''n1'' ''10.0.0.1''] l' port443"
proof -
  let ?b = "snd (hd (loadBalancers testState))"
  have b: "lb_ID ?b = ''lb-1''" "lbStatus ?b = \<lparr>Ingress = [''80.158.0.1'']\<rparr>" by (simp_all add: run)
  have l: "ls_ID (fl_obj (testListener ''ls-2'' ''somebody-else'' 443)) = ''ls-2''"
    "ls_Name (fl_obj (testListener ''ls-2'' ''somebody-else'' 443)) = ''somebody-else''" by (simp_all add: testListener_def)
  have w: "cloud (world_of testState) = testState" by (simp add: world_of_def)
  show ?thesis
    using foreign_listener_taken_over [of "world_of testState" testLoadBalancer intruder, unfolded w, OF testState_sound intruder_settings
        testLoadBalancer_client(1) intruder_ready(1-5) testState_listeners(1), unfolded b, OF testState_listeners(2,3)
        intruder_ready(6) testState_listeners(4), unfolded l, OF testState_listeners(5)]
    by (elim exE conjE) (intro exI conjI)
qed

subsection \<open>The provider as a map\<close>

text \<open>
  C1: the provider implements a map from Services to nodes. When the ELB implements the map \<open>m\<close> (one
  balancer per Service of \<open>m\<close>, settled for it and with its listeners only, and no other), the controller may send
  any sequence of requests that can be met or are refused: the valid ones succeed, the refused ones fail
  (an unusable Service, a balancer that cannot be created or is not there, an update to nodes without
  addresses), and the ELB then implements the map that the valid ones make of \<open>m\<close>. Whatever was
  created, changed, deleted and refused in whatever order, exactly the Services wanted at the end are served.
\<close>

theorem provider_refines_map:
  assumes "implements lb cl m (cloud w)" and "decided (valid lb cl) (refused lb cl) wanted m rs"
    and "newClient lb = returnG ElbClient" and "newNetworkClient lb = returnG NetworkClient"
  shows "\<exists>w'. controller (serve fake_env lb cl) rs w = (Ok (answers (valid lb cl) wanted m rs), w') \<and>
    implements lb cl (fold (after (valid lb cl) wanted) rs m) (cloud w')"
  using provider.all_requests [of lb cl m w rs] assms by (auto simp: succeeds_def connected_def)

definition apiOwn :: Service where
  "apiOwn = (testService [port8080])\<lparr>ServiceName := ''api''\<rparr>"

definition n1 :: Node where "n1 = testNode ''n1'' ''10.0.0.1''"
definition n2 :: Node where "n2 = testNode ''n2'' ''10.0.0.2''"

lemma apiOwn_fields:
  "Namespace apiOwn = ''default''" "ServiceName apiOwn = ''api''" "Ports apiOwn = [port8080]"
  "settingsForService (opts testLoadBalancer) apiOwn = Inr plainSettings"
  by (simp_all add: apiOwn_def testService_def annotatedService_def plain_service_def run settings_run testOpts_def annotation_defs
      plainSettings_def Atoi_100)

text \<open>A node that has no address yet, and requests: two Services are created, one without ports is refused, an
  update to that node is refused, the next is met, and a Service is deleted.\<close>

definition pendingNode :: Node where "pendingNode = n1\<lparr>Addresses := []\<rparr>"

definition someRequests :: "request list" where
  "someRequests = [Ensure (testService [port80]) [n1], Ensure (testService []) [n1], Ensure apiOwn [n1],
     Update apiOwn [pendingNode], Update apiOwn [n1, n2], Delete (testService [port80])]"

abbreviation testLB :: "(fakeClient, fakeELB) LoadBalancer" where "testLB \<equiv> testLoadBalancer"

lemma request_keys: "serviceKey (testService ps) = (''default'', ''web'')" "serviceKey apiOwn = (''default'', ''api'')"
  by (simp_all add: serviceKey_def apiOwn_fields testService_def annotatedService_def plain_service_def)

lemma request_settings:
  "own_settings testLB (testService [port80]) = Some plainSettings" "own_settings testLB apiOwn = Some plainSettings"
  "LoadBalancerID plainSettings = ''''"
  by (simp_all add: own_settings_def testService_settings apiOwn_fields(4)) (simp_all add: plainSettings_def)

lemma request_names: "named ''c'' (testService [port80])" "named ''c'' apiOwn"
  using services_facts(1,3) by (simp_all add: named_def k8s_names_def fullName_def lbNamePrefix_def apiOwn_fields)

lemma requests_met:
  "valid testLB ''c'' m (Ensure (testService [port80]) [n1])" "valid testLB ''c'' m (Ensure apiOwn [n1])"
  "m (''default'', ''api'') = Some (apiOwn, nodes) \<Longrightarrow> valid testLB ''c'' m (Update apiOwn [n1, n2])"
  "valid testLB ''c'' m (Delete (testService [port80]))"
proof -
  have "ensurable plainSettings (testService [port80]) [n1]" "ensurable plainSettings apiOwn [n1]"
    using testService_ready by (simp_all add: ensurable_def n1_def plainSettings_def apiOwn_fields validatePorts_def port8080_def
        serveable_def check_values_def testNode_def nodeAddress_def)
  moreover have "serveable [n1, n2] port8080"
    by (simp add: serveable_def n1_def testNode_def nodeAddress_def port8080_def)
  ultimately show "valid testLB ''c'' m (Ensure (testService [port80]) [n1])" "valid testLB ''c'' m (Ensure apiOwn [n1])"
    "m (''default'', ''api'') = Some (apiOwn, nodes) \<Longrightarrow> valid testLB ''c'' m (Update apiOwn [n1, n2])"
    "valid testLB ''c'' m (Delete (testService [port80]))"
    using request_settings request_names by (simp_all add: request_keys apiOwn_fields)
qed

lemma requests_refused:
  "\<not> valid testLB ''c'' m (Ensure (testService []) [n1])" "refused testLB ''c'' m (Ensure (testService []) [n1])"
  "m (''default'', ''api'') = Some (apiOwn, nodes) \<Longrightarrow>
     \<not> valid testLB ''c'' m (Update apiOwn [pendingNode]) \<and> refused testLB ''c'' m (Update apiOwn [pendingNode])"
proof -
  have none: "isl (nodeAddress pendingNode)" by (simp add: pendingNode_def nodeAddress_def)
  then have "\<not> serveable [pendingNode] port8080" by (auto simp: serveable_def)
  with none show "m (''default'', ''api'') = Some (apiOwn, nodes) \<Longrightarrow>
     \<not> valid testLB ''c'' m (Update apiOwn [pendingNode]) \<and> refused testLB ''c'' m (Update apiOwn [pendingNode])"
    using request_names request_settings by (simp add: request_keys apiOwn_fields)
qed (simp_all add: testService_def annotatedService_def plain_service_def ensurable_def split: option.split)

lemma requests_decided:
  "decided (valid testLB ''c'') (refused testLB ''c'') wanted Map.empty someRequests"
  "answers (valid testLB ''c'') wanted Map.empty someRequests = [True, False, True, False, True, True]"
  "fold (after (valid testLB ''c'') wanted) someRequests Map.empty = [(''default'', ''api'') \<mapsto> (apiOwn, [n1, n2])]"
  by (simp_all add: someRequests_def after_def requests_met requests_refused request_keys del: valid.simps refused.simps)

theorem provider_refines_map_witness:
  "\<exists>w'. controller (serve fake_env testLoadBalancer ''c'') someRequests (world_of newFakeELB) =
       (Ok [True, False, True, False, True, True], w') \<and>
     implements testLoadBalancer ''c'' [(''default'', ''api'') \<mapsto> (apiOwn, [n1, n2])] (cloud w')"
proof -
  have start: "implements testLoadBalancer ''c'' Map.empty (cloud (world_of newFakeELB))"
    using implements_new [OF newFakeELB_sound] by (simp add: world_of_def)
  from provider_refines_map [OF start requests_decided(1) testLoadBalancer_client] show ?thesis
    by (simp only: requests_decided)
qed


end
