(* ===== verification/Spec2Isabelle.thy ===== *)
theory Spec2Isabelle
  imports Otc_Provider Elb_Interrupted Elb_Requests Elb_Outcomes Elb_Lifecycle
begin

text \<open>
  \<^bold>\<open>The Open Telekom Cloud provider for Kubernetes, a verification library.\<close>

  The program is the out-of-tree cloud provider of Open Telekom Cloud. Kubernetes' service controller calls
  it to keep one load balancer (ELBv3) per Service of type LoadBalancer in step with the Service and
  the nodes. Its parts, under \<open>src/\<close>, and the theories that model them:

  \<^item> \<open>pkg/config\<close> (\<open>config.go\<close>, \<open>clouds.go\<close>): theory \<open>Cloud_Config\<close>. The structs are the records \<open>CloudConfig\<close>,
    \<open>AuthOpts\<close> and \<open>LoadBalancerOpts\<close>; \<open>ReadConfig\<close>, the environment fallbacks, the validation and
    \<open>AuthOptsFromCloudsYAML\<close> are functions on them.
  \<^item> \<open>pkg/identity\<close> (\<open>aksk.go\<close>, \<open>password.go\<close>, \<open>token_cache.go\<close>, \<open>factory.go\<close>, \<open>service_client.go\<close>):
    theories \<open>Identity_Provider\<close> and \<open>Identity_Sharing\<close>. A provider is a value of \<open>IdentityProvider\<close>, the client
    it caches is the cell \<open>cached\<close> of the state. \<open>Identity_Sharing\<close> has the two step relations: any number of
    goroutines in \<open>GetProvider\<close> with its mutex (\<open>gp_step\<close>), and the refresh goroutine (\<open>loop_step\<close>).
  \<^item> \<open>pkg/opentelekomcloud\<close> and \<open>cmd\<close>: theory \<open>Otc_Provider\<close>. \<open>NewOTC\<close>, \<open>Initialize\<close>, \<open>NewLoadBalancer\<close>, the
    registration, \<open>cloudInitializer\<close> and \<open>main\<close>.
  \<^item> \<open>pkg/elb/annotations.go\<close>: theory \<open>Service_Settings\<close>. \<open>settingsForService\<close> and all its parsers.
  \<^item> \<open>pkg/elb/elb.go\<close> and \<open>ipgroups.go\<close>: \<open>Elb_Sdk\<close> (the objects, the calls, the environment), \<open>Elb_Helpers\<close>
    (names, keys, ownership, status, probes: the pure functions), \<open>Elb_Wait\<close> (\<open>waitForActive\<close>, \<open>retryOnConflict\<close>,
    \<open>mutate\<close>), \<open>Elb_Lookup\<close>, \<open>Elb_Ip_Groups\<close>, \<open>Elb_Pools\<close> (listeners, pools, members, monitors) and
    \<open>Load_Balancer\<close> (the methods of the interface and the reconciliation).
  \<^item> \<open>pkg/elb/fake_elb_test.go\<close> and the fixtures of \<open>elb_test.go\<close>: theories \<open>Fake_Elb\<close> and \<open>Elb_Fixtures\<close>, on which the
    witnesses run the model.

  \<^bold>\<open>How the code is read.\<close> A Go function that may fail and changes state is a function from
  the state to a result and a state (\<open>Go_Prelude\<close>): \<open>Ok\<close>, \<open>Fail\<close> with an error value that keeps the type
  information \<open>errors.As\<close> uses, or \<open>Panicked\<close> for a nil dereference. Strings are byte strings (\<open>Go_Strings\<close>),
  a pointer that may be nil is an option, int32 arithmetic is done on words. A map that is ranged over is an
  association list, and the order in which \<open>range\<close> visits its keys is an unknown of the world (\<open>map_order\<close>, any
  rearrangement, which may change from range to range): the theorems hold for every order.

  The SDK and the cloud behind it are not part of the repository. They are the parameter records \<open>iam\<close> and
  \<open>env\<close>, one field per function the code calls; no law is assumed of them, so a theorem over an
  arbitrary \<open>env\<close> holds for a cloud that fails, lies, or is changed by others between two calls. The
  world of a run records the history of the calls with their answers. The package \<open>wait\<close> is two fields of
  \<open>env\<close> with the locale \<open>wait_contract\<close> as their documented contract: the backoff calls its condition at
  most \<open>Steps\<close> times (6 here), polling calls it at least once when immediate, both stop at the
  first success or error and otherwise give up with an error of their own. \<open>patient_wait\<close> adds that the context is not
  cancelled. The fake uses all 6 attempts and polls \<open>300000 div 3000 + 1 = 101\<close> times.

  \<^bold>\<open>The locales and their interpretations.\<close> \<open>identity_provider\<close> (what a caller of \<open>GetProvider\<close> relies on),
  interpreted for every provider and its wrapper; \<open>wait_contract\<close> and \<open>patient_wait\<close>, interpreted for the fake;
  \<open>member_store\<close> and \<open>live_store\<close> (\<open>Elb_Member_Store\<close>: what an ELB promises about the members of a pool, and that it
  answers), interpreted for the fake in \<open>Elb_Convergence\<close> and, with a frame for the rest of the state, in \<open>Fake_Runs\<close>;
  \<open>simulation\<close> (a server of requests and an abstract state, \<open>Fake_Controller\<close>), interpreted for the provider on the
  fake; \<open>step_invariant\<close> (\<open>Identity_Sharing\<close>), interpreted for the mutex, the refresh loop and the uses of
  a provider after the login (\<open>Otc_Provider\<close>).

  \<^bold>\<open>The methods of proof.\<close> \<open>Elb_Trace\<close> has rules for what calls a run can make at all (\<open>emits\<close>), \<open>Elb_Policy\<close>
  rules for policies over histories: \<open>follows J H m\<close> says that every call of \<open>m\<close> is allowed by \<open>J\<close>, given all calls
  and answers before it; \<open>known\<close> what a result tells about the history. \<open>Elb_Ensure\<close> adds an invariant on
  the variables that retried closures assign (\<open>maintains\<close>). The collection \<open>run\<close> evaluates whole operations on the
  fake. \<open>Elb_Settled\<close> has rules for runs that only look (\<open>looks\<close>), \<open>Fake_Runs\<close> the weakest precondition of a
  normal return on the fake (\<open>succeeds\<close>). There the state is cut into slices, one per listener
  (\<open>Fake_Consistency\<close>): every step of a reconciliation changes one slice and keeps the invariant \<open>consistent\<close>.

  \<^bold>\<open>What is shown.\<close>

  \<^item> Authority. \<open>Elb_Ensure\<close>, \<open>Elb_Teardown\<close>, \<open>Elb_Deletion\<close>, \<open>Elb_Members\<close>, \<open>Elb_Interface\<close> and
    \<open>Elb_Requests\<close>: the policies of \<open>EnsureLoadBalancer\<close>, \<open>EnsureLoadBalancerDeleted\<close> and
    \<open>UpdateLoadBalancer\<close>, for any cloud.
  \<^item> The life cycle (\<open>Elb_Lifecycle\<close>). On the fake ELB the operations succeed and reach what the Service asks for:
    \<open>Fake_Runs\<close> (whitelist, pool, members, monitor of one listener), \<open>Fake_Ports\<close> (a port; deleting a listener),
    \<open>Fake_Lifecycle\<close> (\<open>reconcile\<close>, \<open>EnsureLoadBalancer\<close>), \<open>Fake_Changes\<close> (\<open>UpdateLoadBalancer\<close>,
    \<open>EnsureLoadBalancerDeleted\<close>); listeners that have neither a port nor the name of the Service are untouched, one of
    somebody else with a port of the Service is taken over, and creation followed by deletion
    gives the state there was. The state reached is called \<open>settled\<close>, and \<open>Elb_Settled\<close> shows that a settled Service
    without an idle timeout is left alone against any cloud. \<open>Fake_Neighbours\<close>: a settled Service stays settled when another one is ensured or deleted.
    \<open>Fake_Cluster\<close> is the abstract specification: the provider implements a map from the Services of a cluster to
    their nodes (\<open>implements\<close>), which every valid request changes as it should (\<open>wanted\<close>); \<open>Fake_Controller\<close> has
    the controller that sends any sequence of requests, valid or \<open>refused\<close>.
  \<^item> Effect. \<open>Elb_Effects\<close>, \<open>Elb_Outcomes\<close> and \<open>Elb_Interface\<close>: what a success of the whole and of each operation
    tells (\<open>EnsureLoadBalancer\<close>: the members of every port were brought in line with the nodes), and what a deletion that failed
    and is tried again leaves behind;
    bounded retries; the wait after each change; rejected requests. \<open>Elb_Member_Store\<close> and \<open>Elb_Convergence\<close>: members
    converge to the nodes, and do so when the cloud answers. \<open>Elb_Interrupted\<close>: a synchronisation that fails
    half-way loses no serving member and can be repeated.
  \<^item> Names and ownership, helpers: \<open>Elb_Helpers\<close>. Settings: \<open>Service_Settings\<close>. Configuration and secrets:
    \<open>Cloud_Config\<close>. Sharing of one login, the refresh loop, TLS: \<open>Identity_Provider\<close>, \<open>Identity_Sharing\<close>. Start-up:
    \<open>Otc_Provider\<close>.
  \<^item> Where the code falls short, as theorems: a failing pool update crashes \<open>ensurePool\<close>; a foreign listener of a shared
    balancer is taken over; long names collide or lose their ownership; clusters whose names hold underscores own each
    other's resources; duplicate source ranges compare equal to other ranges; a deletion releases every EIP bound to the
    balancer when the annotations ask for a bandwidth, however the EIP was made; the affinity timeout wraps near
    the int32 limit.

  \<^bold>\<open>Not modelled.\<close> Log lines (their calls only); the Kubernetes framework that \<open>main\<close> hands \<open>cloudInitializer\<close>
  to; the rendering of error messages (the format and its arguments are kept); the HTTP layer of the
  fake, and that its list calls may range over its maps in another order than that of insertion; interleavings of
  several load balancer methods with each other, except that the cloud may change
  arbitrarily between calls; the content of tokens and signatures (the SDK's).
\<close>

end
